(* ===== verification/Prelude.thy ===== *)
theory Prelude
  imports Main "HOL-Library.Sublist" "HOL-Library.List_Lexorder" "HOL-Library.Char_ord"
begin

text \<open>
  The prelude of the development: the type synonyms of the model, the collections of
  rewrite rules the component theories extend, and the facts on lists, maps and table-like
  lists that several components use.

  Go's strings and byte slices are byte sequences; both are \<^typ>\<open>string\<close> here (one
  \<^typ>\<open>char\<close> per byte). Go's \<open>int\<close> and \<open>int64\<close> are 64 bits wide on the
  platforms the program is built for; they are \<^typ>\<open>int\<close>, with \<open>wrap64\<close> written
  where the source multiplies without a check. A point in time is an \<^typ>\<open>int\<close>, in
  nanoseconds, and so is a duration. A function that returns \<open>(T, error)\<close> in Go
  returns a sum here, \<open>Inl\<close> for the error.
\<close>

section \<open>Type synonyms and collections\<close>

type_synonym bytes = string
type_synonym time = int
type_synonym duration = int

named_theorems store_simps \<open>behaviour of the store's statements\<close>
named_theorems frame_simps \<open>what an operation leaves unchanged\<close>
named_theorems inv_intros \<open>preservation of a component's invariant\<close>

section \<open>Results\<close>

text \<open>Sequencing of calls that may fail, as \<open>if err != nil { return err }\<close> does.\<close>

fun bind_result :: "'e + 'a \<Rightarrow> ('a \<Rightarrow> 'e + 'b) \<Rightarrow> 'e + 'b" where
  "bind_result (Inl e) k = Inl e"
| "bind_result (Inr a) k = k a"

fun is_ok :: "'e + 'a \<Rightarrow> bool" where
  "is_ok (Inl e) = False"
| "is_ok (Inr a) = True"

lemma bind_result_Inr_iff [simp]:
  "bind_result r k = Inr b \<longleftrightarrow> (\<exists>a. r = Inr a \<and> k a = Inr b)"
  by (cases r) auto

lemma is_ok_iff: "is_ok r \<longleftrightarrow> (\<exists>a. r = Inr a)"
  by (cases r) auto

section \<open>64-bit arithmetic\<close>

definition wrap64 :: "int \<Rightarrow> int" where
  "wrap64 x = (x + 2 ^ 63) mod 2 ^ 64 - 2 ^ 63"

lemma wrap64_id [simp]: "- (2 ^ 63) \<le> x \<Longrightarrow> x < 2 ^ 63 \<Longrightarrow> wrap64 x = x"
  by (simp add: wrap64_def)

lemma wrap64_bounds: "- (2 ^ 63) \<le> wrap64 x" "wrap64 x < 2 ^ 63"
proof -
  have "0 \<le> (x + 2 ^ 63) mod (2 ^ 64 :: int)" by simp
  then show "- (2 ^ 63) \<le> wrap64 x" by (simp add: wrap64_def)
  have "(x + 2 ^ 63) mod (2 ^ 64 :: int) < 2 ^ 64" by simp
  then show "wrap64 x < 2 ^ 63" by (simp add: wrap64_def)
qed

text \<open>Go's integer division truncates towards zero.\<close>

definition go_div :: "int \<Rightarrow> int \<Rightarrow> int" where
  "go_div a b = sgn a * sgn b * (\<bar>a\<bar> div \<bar>b\<bar>)"

definition go_mod :: "int \<Rightarrow> int \<Rightarrow> int" where
  "go_mod a b = a - b * go_div a b"

lemma go_div_nonneg [simp]: "0 \<le> a \<Longrightarrow> 0 < b \<Longrightarrow> go_div a b = a div b"
  by (cases "a = 0") (auto simp: go_div_def)

lemma go_mod_nonneg [simp]: "0 \<le> a \<Longrightarrow> 0 < b \<Longrightarrow> go_mod a b = a mod b"
  by (simp add: go_mod_def minus_mult_div_eq_mod)

section \<open>Lists\<close>

text \<open>
  A sorted list is cut at a bound by \<open>dropWhile\<close> exactly where a filter would cut it:
  the loop of \<open>filterExpired\<close> and its meaning.
\<close>

lemma dropWhile_sorted_filter:
  fixes c :: "'a :: linorder"
  assumes "sorted xs"
  shows "dropWhile (\<lambda>x. x < c) xs = filter (\<lambda>x. c \<le> x) xs"
  using assms
proof (induction xs)
  case Nil
  then show ?case by simp
next
  case (Cons x xs)
  show ?case
  proof (cases "x < c")
    case True
    with Cons show ?thesis by auto
  next
    case False
    with Cons.prems have "\<forall>y \<in> set (x # xs). c \<le> y" by auto
    then have "filter (\<lambda>y. c \<le> y) (x # xs) = x # xs" by (simp only: filter_id_conv)
    with False show ?thesis by simp
  qed
qed

lemma sorted_dropWhile: "sorted xs \<Longrightarrow> sorted (dropWhile P xs)"
  by (induction xs) auto

lemma sorted_snoc:
  "sorted xs \<Longrightarrow> (\<And>x. x \<in> set xs \<Longrightarrow> x \<le> (y :: 'a :: linorder)) \<Longrightarrow> sorted (xs @ [y])"
  by (simp add: sorted_append)

lemma dropWhile_dropWhile_weaker:
  "(\<And>x. P x \<Longrightarrow> Q x) \<Longrightarrow> dropWhile Q (dropWhile P xs) = dropWhile Q xs"
  by (induction xs) auto

lemma suffix_dropWhile: "suffix (dropWhile P xs) xs"
  by (metis suffixI takeWhile_dropWhile_id)

section \<open>Tables: lists of rows with a key\<close>

text \<open>
  A table is the list of its rows in insertion order. \<open>find_row\<close> is a query by a
  predicate that at most one row satisfies.
\<close>

definition find_row :: "('r \<Rightarrow> bool) \<Rightarrow> 'r list \<Rightarrow> 'r option" where
  "find_row P rows = List.find P rows"

lemma find_row_Nil [simp]: "find_row P [] = None"
  by (simp add: find_row_def)

lemma find_row_Cons [simp]: "find_row P (r # rs) = (if P r then Some r else find_row P rs)"
  by (simp add: find_row_def)

lemma find_row_append:
  "find_row P (xs @ ys) = (case find_row P xs of Some r \<Rightarrow> Some r | None \<Rightarrow> find_row P ys)"
  by (induction xs) auto

lemma find_row_Some: "find_row P rs = Some r \<Longrightarrow> r \<in> set rs \<and> P r"
  by (induction rs) (auto split: if_splits)

lemma find_row_None_iff [simp]: "find_row P rs = None \<longleftrightarrow> (\<forall>r \<in> set rs. \<not> P r)"
  by (induction rs) auto

lemma find_row_unique:
  "distinct (map key rs) \<Longrightarrow> r \<in> set rs \<Longrightarrow> key r = k \<Longrightarrow> find_row (\<lambda>x. key x = k) rs = Some r"
  by (induction rs) force+

lemma find_row_unique_and:
  "distinct (map key rs) \<Longrightarrow> r \<in> set rs \<Longrightarrow> key r = k \<Longrightarrow> Q r \<Longrightarrow>
    find_row (\<lambda>x. key x = k \<and> Q x) rs = Some r"
  by (induction rs) force+

lemma find_row_filter_other:
  "k' \<noteq> k \<Longrightarrow> find_row (\<lambda>x. key x = k' \<and> Q x) (filter (\<lambda>x. key x \<noteq> k) rs) = find_row (\<lambda>x. key x = k' \<and> Q x) rs"
  "k' \<noteq> k \<Longrightarrow> find_row (\<lambda>x. key x = k') (filter (\<lambda>x. key x \<noteq> k) rs) = find_row (\<lambda>x. key x = k') rs"
  by (induction rs) auto

lemma find_row_delete:
  "find_row (\<lambda>x. key x = k') (filter (\<lambda>x. key x \<noteq> k) rs) = (if k' = k then None else find_row (\<lambda>x. key x = k') rs)"
  by (induction rs) auto

lemma find_row_replace:
  "key r = k \<Longrightarrow> find_row (\<lambda>x. key x = k') (filter (\<lambda>x. key x \<noteq> k) rs @ [r]) =
    (if k' = k then Some r else find_row (\<lambda>x. key x = k') rs)"
  by (induction rs) auto

lemma find_row_filter:
  assumes "\<And>r. P r \<Longrightarrow> Q r"
  shows "find_row P (filter Q rs) = find_row P rs"
  using assms by (induction rs) auto

lemma find_row_map_same:
  assumes "\<And>r. P (f r) \<longleftrightarrow> P r"
  shows "find_row P (map f rs) = map_option f (find_row P rs)"
  using assms by (induction rs) auto

lemma distinct_map_filter_key: "distinct (map key rs) \<Longrightarrow> distinct (map key (filter P rs))"
  by (induction rs) auto

lemma distinct_map_snoc:
  "distinct (map key rs) \<Longrightarrow> \<not> list_ex (\<lambda>r. key r = key y) rs \<Longrightarrow> distinct (map key (rs @ [y]))"
  by (induction rs) (auto simp: list_ex_iff)

lemma map_key_map:
  "(\<And>r. key (f r) = key r) \<Longrightarrow> map key (map f rs) = map key rs"
  by simp

end
