(* ===== verification/GoLib.thy ===== *)
theory GoLib
  imports Prelude
begin

text \<open>
  The parts of Go's standard library the program calls on strings: \<open>strings\<close>
  (HasPrefix, HasSuffix, Contains, Index, Split, SplitN, TrimSpace, ReplaceAll),
  \<open>strconv\<close> (Itoa, ParseInt, Atoi), \<open>encoding/hex\<close> and \<open>net.SplitHostPort\<close>,
  on byte strings, and the facts about them that the components use.
\<close>

section \<open>Package strings\<close>

definition HasPrefix :: "string \<Rightarrow> string \<Rightarrow> bool" where
  "HasPrefix s p \<longleftrightarrow> take (length p) s = p"

definition HasSuffix :: "string \<Rightarrow> string \<Rightarrow> bool" where
  "HasSuffix s p \<longleftrightarrow> length p \<le> length s \<and> drop (length s - length p) s = p"

fun Contains :: "string \<Rightarrow> string \<Rightarrow> bool" where
  "Contains [] p \<longleftrightarrow> p = []"
| "Contains (c # s) p \<longleftrightarrow> HasPrefix (c # s) p \<or> Contains s p"

text \<open>\<open>strings.Index\<close> with a one-byte separator; \<open>None\<close> for \<open>-1\<close>.\<close>

fun index_byte :: "char \<Rightarrow> string \<Rightarrow> nat option" where
  "index_byte c [] = None"
| "index_byte c (x # s) = (if x = c then Some 0 else map_option Suc (index_byte c s))"

fun last_index_byte :: "char \<Rightarrow> string \<Rightarrow> nat option" where
  "last_index_byte c [] = None"
| "last_index_byte c (x # s) =
     (case last_index_byte c s of
        Some i \<Rightarrow> Some (Suc i)
      | None \<Rightarrow> if x = c then Some 0 else None)"

text \<open>\<open>strings.Split\<close> with a one-byte separator: one piece more than separators.\<close>

fun Split :: "char \<Rightarrow> string \<Rightarrow> string list" where
  "Split c [] = [[]]"
| "Split c (x # s) =
     (if x = c then [] # Split c s
      else (case Split c s of p # ps \<Rightarrow> (x # p) # ps | [] \<Rightarrow> [[x]]))"

text \<open>\<open>strings.SplitN\<close> with a one-byte separator and a positive count.\<close>

fun SplitN :: "char \<Rightarrow> nat \<Rightarrow> string \<Rightarrow> string list" where
  "SplitN c 0 s = []"
| "SplitN c (Suc 0) s = [s]"
| "SplitN c (Suc (Suc n)) s =
     (case index_byte c s of
        None \<Rightarrow> [s]
      | Some i \<Rightarrow> take i s # SplitN c (Suc n) (drop (Suc i) s))"

text \<open>
  The byte sequences of the runes \<open>unicode.IsSpace\<close> accepts. UTF-8 is
  self-synchronising, so a string starts (ends) with such a rune exactly when it starts
  (ends) with its bytes.
\<close>

definition space_runes :: "string list" where
  "space_runes =
     [[CHR 0x09], [CHR 0x0A], [CHR 0x0B], [CHR 0x0C], [CHR 0x0D], [CHR 0x20],
      [CHR 0xC2, CHR 0x85], [CHR 0xC2, CHR 0xA0], [CHR 0xE1, CHR 0x9A, CHR 0x80],
      [CHR 0xE2, CHR 0x80, CHR 0x80], [CHR 0xE2, CHR 0x80, CHR 0x81],
      [CHR 0xE2, CHR 0x80, CHR 0x82], [CHR 0xE2, CHR 0x80, CHR 0x83],
      [CHR 0xE2, CHR 0x80, CHR 0x84], [CHR 0xE2, CHR 0x80, CHR 0x85],
      [CHR 0xE2, CHR 0x80, CHR 0x86], [CHR 0xE2, CHR 0x80, CHR 0x87],
      [CHR 0xE2, CHR 0x80, CHR 0x88], [CHR 0xE2, CHR 0x80, CHR 0x89],
      [CHR 0xE2, CHR 0x80, CHR 0x8A], [CHR 0xE2, CHR 0x80, CHR 0xA8],
      [CHR 0xE2, CHR 0x80, CHR 0xA9], [CHR 0xE2, CHR 0x80, CHR 0xAF],
      [CHR 0xE2, CHR 0x81, CHR 0x9F], [CHR 0xE3, CHR 0x80, CHR 0x80]]"

function trim_front :: "string list \<Rightarrow> string \<Rightarrow> string" where
  "trim_front pats s =
     (case List.find (\<lambda>p. p \<noteq> [] \<and> HasPrefix s p) pats of
        None \<Rightarrow> s
      | Some p \<Rightarrow> trim_front pats (drop (length p) s))"
  by pat_completeness auto
termination
proof (relation "measure (\<lambda>(pats, s). length s)", goal_cases)
  case (2 pats s p)
  then have "p \<noteq> []" "HasPrefix s p" by (auto simp: find_Some_iff)
  then show ?case by (cases s) (auto simp: HasPrefix_def)
qed simp

declare trim_front.simps [simp del]

definition TrimSpace :: "string \<Rightarrow> string" where
  "TrimSpace s = rev (trim_front (map rev space_runes) (rev (trim_front space_runes s)))"

text \<open>\<open>strings.ReplaceAll\<close> of a one-byte pattern.\<close>

definition ReplaceAll :: "string \<Rightarrow> char \<Rightarrow> string \<Rightarrow> string" where
  "ReplaceAll s c r = concat (map (\<lambda>x. if x = c then r else [x]) s)"

section \<open>Package strconv\<close>

definition digit_char :: "nat \<Rightarrow> char" where
  "digit_char d = char_of (48 + d)"

definition is_digit :: "char \<Rightarrow> bool" where
  "is_digit c \<longleftrightarrow> 48 \<le> (of_char c :: nat) \<and> (of_char c :: nat) \<le> 57"

definition digit_val :: "char \<Rightarrow> int" where
  "digit_val c = int (of_char c) - 48"

fun show_nat :: "nat \<Rightarrow> string" where
  "show_nat n = (if n < 10 then [digit_char n] else show_nat (n div 10) @ [digit_char (n mod 10)])"

declare show_nat.simps [simp del]

text \<open>\<open>strconv.Itoa\<close>, and the verb \<open>%d\<close> of \<open>fmt\<close>.\<close>

definition Itoa :: "int \<Rightarrow> string" where
  "Itoa n = (if n < 0 then CHR ''-'' # show_nat (nat (- n)) else show_nat (nat n))"

datatype num_error = ErrSyntax | ErrRange

text \<open>
  The loop of \<open>strconv.ParseUint(s, 10, 64)\<close>: a byte that is no digit is a syntax
  error, a value beyond 64 bits stops the loop with a range error.
\<close>

fun parse_uint_from :: "int \<Rightarrow> string \<Rightarrow> num_error + int" where
  "parse_uint_from n [] = Inr n"
| "parse_uint_from n (c # s) =
     (if \<not> is_digit c then Inl ErrSyntax
      else if 2 ^ 64 \<le> 10 * n + digit_val c then Inl ErrRange
      else parse_uint_from (10 * n + digit_val c) s)"

definition ParseUint :: "string \<Rightarrow> num_error + int" where
  "ParseUint s = (if s = [] then Inl ErrSyntax else parse_uint_from 0 s)"

definition strip_sign :: "string \<Rightarrow> bool \<times> string" where
  "strip_sign s =
     (case s of
        c # r \<Rightarrow> if c = CHR ''+'' then (False, r) else if c = CHR ''-'' then (True, r) else (False, s)
      | [] \<Rightarrow> (False, []))"

text \<open>
  \<open>strconv.ParseInt(s, 10, 64)\<close>: the value, which the callers use even where there is
  an error (0 for a syntax error, the nearest bound for a range error), and the error.
\<close>

definition ParseInt :: "string \<Rightarrow> int \<times> num_error option" where
  "ParseInt s =
     (let (neg, digits) = strip_sign s in
      case ParseUint digits of
        Inl ErrSyntax \<Rightarrow> (0, Some ErrSyntax)
      | Inl ErrRange \<Rightarrow> (if neg then - (2 ^ 63) else 2 ^ 63 - 1, Some ErrRange)
      | Inr n \<Rightarrow>
          if \<not> neg \<and> 2 ^ 63 \<le> n then (2 ^ 63 - 1, Some ErrRange)
          else if neg \<and> 2 ^ 63 < n then (- (2 ^ 63), Some ErrRange)
          else (if neg then - n else n, None))"

text \<open>\<open>strconv.Atoi\<close> agrees with it on a 64-bit platform.\<close>

definition Atoi :: "string \<Rightarrow> int \<times> num_error option" where
  "Atoi s = ParseInt s"

section \<open>Package encoding/hex\<close>

definition hex_char :: "nat \<Rightarrow> char" where
  "hex_char d = (if d < 10 then char_of (48 + d) else char_of (87 + d))"

fun hex_encode :: "bytes \<Rightarrow> string" where
  "hex_encode [] = []"
| "hex_encode (b # bs) = hex_char (of_char b div 16) # hex_char (of_char b mod 16) # hex_encode bs"

section \<open>net.SplitHostPort\<close>

text \<open>\<open>None\<close> for each of its address errors.\<close>

definition SplitHostPort :: "string \<Rightarrow> (string \<times> string) option" where
  "SplitHostPort hp =
     (case last_index_byte (CHR '':'') hp of
        None \<Rightarrow> None
      | Some i \<Rightarrow>
          if take 1 hp = ''['' then
            (case index_byte (CHR '']'') hp of
               None \<Rightarrow> None
             | Some e \<Rightarrow>
                 if Suc e \<noteq> i then None
                 else if CHR ''['' \<in> set (drop 1 hp) \<or> CHR '']'' \<in> set (drop (Suc e) hp) then None
                 else Some (drop 1 (take e hp), drop (Suc i) hp))
          else if CHR '':'' \<in> set (take i hp) then None
          else if CHR ''['' \<in> set hp \<or> CHR '']'' \<in> set hp then None
          else Some (take i hp, drop (Suc i) hp))"

section \<open>UTF-8\<close>

text \<open>
  The number of bytes \<open>utf8.DecodeRuneInString\<close> consumes at the start of a non-empty
  string: an invalid encoding is the rune \<open>U+FFFD\<close> of width one.
\<close>

definition byte_in :: "nat \<Rightarrow> nat \<Rightarrow> char \<Rightarrow> bool" where
  "byte_in lo hi c \<longleftrightarrow> lo \<le> (of_char c :: nat) \<and> (of_char c :: nat) \<le> hi"

abbreviation cont_byte :: "char \<Rightarrow> bool" where
  "cont_byte \<equiv> byte_in 0x80 0xBF"

fun rune_len :: "string \<Rightarrow> nat" where
  "rune_len (a # b # c # d # s) =
     (if byte_in 0xC2 0xDF a \<and> cont_byte b then 2
      else if (byte_in 0xE0 0xE0 a \<and> byte_in 0xA0 0xBF b \<or> byte_in 0xE1 0xEC a \<and> cont_byte b \<or>
               byte_in 0xED 0xED a \<and> byte_in 0x80 0x9F b \<or> byte_in 0xEE 0xEF a \<and> cont_byte b)
              \<and> cont_byte c then 3
      else if (byte_in 0xF0 0xF0 a \<and> byte_in 0x90 0xBF b \<or> byte_in 0xF1 0xF3 a \<and> cont_byte b \<or>
               byte_in 0xF4 0xF4 a \<and> byte_in 0x80 0x8F b) \<and> cont_byte c \<and> cont_byte d then 4
      else 1)"
| "rune_len [a, b, c] =
     (if byte_in 0xC2 0xDF a \<and> cont_byte b then 2
      else if (byte_in 0xE0 0xE0 a \<and> byte_in 0xA0 0xBF b \<or> byte_in 0xE1 0xEC a \<and> cont_byte b \<or>
               byte_in 0xED 0xED a \<and> byte_in 0x80 0x9F b \<or> byte_in 0xEE 0xEF a \<and> cont_byte b)
              \<and> cont_byte c then 3
      else 1)"
| "rune_len [a, b] = (if byte_in 0xC2 0xDF a \<and> cont_byte b then 2 else 1)"
| "rune_len s = 1"

lemma rune_len_pos: "0 < rune_len s"
  by (cases s rule: rune_len.cases) auto

text \<open>
  \<open>strconv.Quote\<close>, the verb \<open>%q\<close>. Which runes outside ASCII are printable is Unicode's table,
  the argument \<open>is_print\<close>; the code point is that of the encoding \<open>rune_len\<close> accepts.
\<close>

definition rune_value :: "string \<Rightarrow> nat" where
  "rune_value s =
     (let b = (\<lambda>i. of_char (s ! i) mod 64 :: nat); a = of_char (hd s) :: nat in
      case rune_len s of
        Suc (Suc 0) \<Rightarrow> (a mod 32) * 64 + b 1
      | Suc (Suc (Suc 0)) \<Rightarrow> (a mod 16) * 4096 + b 1 * 64 + b 2
      | Suc (Suc (Suc (Suc 0))) \<Rightarrow> (a mod 8) * 262144 + b 1 * 4096 + b 2 * 64 + b 3
      | _ \<Rightarrow> a)"

fun hex_digits :: "nat \<Rightarrow> nat \<Rightarrow> string" where
  "hex_digits 0 n = []"
| "hex_digits (Suc k) n = hex_digits k (n div 16) @ [hex_char (n mod 16)]"

definition quote_ascii :: "char \<Rightarrow> string" where
  "quote_ascii c =
     (if c = CHR 0x22 \<or> c = CHR 0x5C then [CHR 0x5C, c]
      else if byte_in 0x20 0x7E c then [c]
      else case map_of [(CHR 0x07, CHR ''a''), (CHR 0x08, CHR ''b''), (CHR 0x0C, CHR ''f''), (CHR 0x0A, CHR ''n''),
             (CHR 0x0D, CHR ''r''), (CHR 0x09, CHR ''t''), (CHR 0x0B, CHR ''v'')] c of
             Some e \<Rightarrow> [CHR 0x5C, e]
           | None \<Rightarrow> CHR 0x5C # CHR ''x'' # hex_encode [c])"

function quote_body :: "(nat \<Rightarrow> bool) \<Rightarrow> string \<Rightarrow> string" where
  "quote_body is_print s =
     (case s of
        [] \<Rightarrow> []
      | c # r \<Rightarrow>
          (if byte_in 0 0x7F c then quote_ascii c @ quote_body is_print r
           else if rune_len s = 1 then CHR 0x5C # CHR ''x'' # hex_encode [c] @ quote_body is_print r
           else (if is_print (rune_value s) then take (rune_len s) s
                 else if rune_value s < 0x10000 then CHR 0x5C # CHR ''u'' # hex_digits 4 (rune_value s)
                 else CHR 0x5C # CHR ''U'' # hex_digits 8 (rune_value s))
                @ quote_body is_print (drop (rune_len s) s)))"
  by pat_completeness auto
termination by (relation "measure (length o snd)") (auto simp: rune_len_pos)

declare quote_body.simps [simp del]

definition fmt_q :: "(nat \<Rightarrow> bool) \<Rightarrow> string \<Rightarrow> string" where
  "fmt_q is_print s = [CHR 0x22] @ quote_body is_print s @ [CHR 0x22]"

text \<open>\<open>%q\<close> of a slice of strings.\<close>

fun join_blank :: "string list \<Rightarrow> string" where
  "join_blank [] = []"
| "join_blank [x] = x"
| "join_blank (x # xs) = x @ '' '' @ join_blank xs"

definition fmt_q_list :: "(nat \<Rightarrow> bool) \<Rightarrow> string list \<Rightarrow> string" where
  "fmt_q_list is_print xs = ''['' @ join_blank (map (fmt_q is_print) xs) @ '']''"

section \<open>Facts\<close>

lemma HasPrefix_append [simp]: "HasPrefix (p @ s) p"
  by (simp add: HasPrefix_def)

lemma HasPrefix_iff: "HasPrefix s p \<longleftrightarrow> (\<exists>r. s = p @ r)"
  by (metis HasPrefix_def append_eq_conv_conj append_take_drop_id)

lemma Split_not_Nil [simp]: "Split c s \<noteq> []"
  by (induction s) (auto split: list.splits)

lemma Split_no_sep: "c \<notin> set s \<Longrightarrow> Split c s = [s]"
  by (induction s) auto

lemma Split_append_sep: "c \<notin> set p \<Longrightarrow> Split c (p @ c # s) = p # Split c s"
  by (induction p) auto

lemma Split_pieces: "p \<in> set (Split c s) \<Longrightarrow> c \<notin> set p"
  by (induction s arbitrary: p) (auto split: if_splits list.splits)

lemma index_byte_append: "c \<notin> set p \<Longrightarrow> index_byte c (p @ c # s) = Some (length p)"
  by (induction p) auto

lemma index_byte_None: "index_byte c s = None \<longleftrightarrow> c \<notin> set s"
  by (induction s) auto

lemma SplitN_cons:
  "c \<notin> set p \<Longrightarrow> SplitN c (Suc (Suc n)) (p @ c # s) = p # SplitN c (Suc n) s"
  by (simp add: index_byte_append)

lemma SplitN_length: "length (SplitN c n s) \<le> n"
  by (induction c n s rule: SplitN.induct) (auto split: option.splits)

subsection \<open>Decimal numbers\<close>

lemma of_char_digit [simp]: "d < 10 \<Longrightarrow> (of_char (digit_char d) :: nat) = 48 + d"
  by (simp add: digit_char_def)

lemma digit_char_props [simp]:
  "d < 10 \<Longrightarrow> is_digit (digit_char d)" "d < 10 \<Longrightarrow> digit_val (digit_char d) = int d"
  by (simp_all add: is_digit_def digit_val_def)

lemma show_nat_not_Nil [simp]: "show_nat n \<noteq> []"
  by (subst show_nat.simps) simp

lemma show_nat_digits: "c \<in> set (show_nat n) \<Longrightarrow> is_digit c"
proof (induction n arbitrary: c rule: show_nat.induct)
  case (1 n)
  show ?case
  proof (cases "n < 10")
    case True
    with "1.prems" show ?thesis by (subst (asm) show_nat.simps) simp
  next
    case False
    with "1.prems" have "c \<in> set (show_nat (n div 10)) \<or> c = digit_char (n mod 10)"
      by (subst (asm) show_nat.simps) auto
    with "1.IH" [OF False] show ?thesis by auto
  qed
qed

lemma parse_uint_snoc:
  "parse_uint_from n s = Inr m \<Longrightarrow> is_digit c \<Longrightarrow> 10 * m + digit_val c < 2 ^ 64 \<Longrightarrow>
    parse_uint_from n (s @ [c]) = Inr (10 * m + digit_val c)"
  by (induction n s rule: parse_uint_from.induct) (auto split: if_splits)

lemma parse_show_nat:
  "int n < 2 ^ 64 \<Longrightarrow> parse_uint_from 0 (show_nat n) = Inr (int n)"
proof (induction n rule: show_nat.induct)
  case (1 n)
  show ?case
  proof (cases "n < 10")
    case True
    then show ?thesis by (subst show_nat.simps) simp
  next
    case False
    have "int n = 10 * int (n div 10) + int (n mod 10)" by presburger
    moreover have "parse_uint_from 0 (show_nat (n div 10)) = Inr (int (n div 10))"
      using 1 False by simp
    ultimately show ?thesis
      using False "1.prems" parse_uint_snoc [of 0 "show_nat (n div 10)" "int (n div 10)" "digit_char (n mod 10)"]
      by (subst show_nat.simps) simp
  qed
qed

lemma digit_not_sign: "is_digit c \<Longrightarrow> c \<noteq> CHR ''+'' \<and> c \<noteq> CHR ''-''"
  by (auto simp: is_digit_def)

lemma strip_sign_show_nat: "strip_sign (show_nat n) = (False, show_nat n)"
  using show_nat_digits [of "hd (show_nat n)" n] digit_not_sign
  by (cases "show_nat n") (auto simp: strip_sign_def)

lemma ParseInt_Itoa:
  assumes "- (2 ^ 63) \<le> n" "n < 2 ^ 63"
  shows "ParseInt (Itoa n) = (n, None)"
proof (cases "n < 0")
  case True
  with assms have "parse_uint_from 0 (show_nat (nat (- n))) = Inr (- n)"
    by (subst parse_show_nat) auto
  with True assms show ?thesis
    by (simp add: ParseInt_def Itoa_def strip_sign_def ParseUint_def)
next
  case False
  with assms have "parse_uint_from 0 (show_nat (nat n)) = Inr n"
    by (subst parse_show_nat) auto
  with False assms show ?thesis
    by (simp add: ParseInt_def Itoa_def strip_sign_show_nat ParseUint_def)
qed

lemma Itoa_chars: "c \<in> set (Itoa n) \<Longrightarrow> is_digit c \<or> c = CHR ''-''"
  by (auto simp: Itoa_def dest: show_nat_digits split: if_splits)

lemma ParseInt_bounds: "- (2 ^ 63) \<le> fst (ParseInt s) \<and> fst (ParseInt s) < 2 ^ 63"
proof -
  have nonneg: "0 \<le> m" if "parse_uint_from n t = Inr m" "0 \<le> n" for n t m
    using that by (induction n t rule: parse_uint_from.induct)
      (auto simp: is_digit_def digit_val_def split: if_splits)
  show ?thesis
    by (auto simp: ParseInt_def ParseUint_def Let_def split: prod.splits sum.splits num_error.splits
        if_splits dest: nonneg)
qed

subsection \<open>TrimSpace\<close>

text \<open>A string between two printable ASCII characters is not trimmed, a newline after it is.\<close>

definition printable :: "char \<Rightarrow> bool" where
  "printable c \<longleftrightarrow> byte_in 33 126 c"

lemma trim_front_id:
  assumes "\<And>p. p \<in> set pats \<Longrightarrow> p \<noteq> [] \<Longrightarrow> hd p \<noteq> c"
  shows "trim_front pats (c # s) = c # s"
proof -
  have "\<not> (p \<noteq> [] \<and> HasPrefix (c # s) p)" if "p \<in> set pats" for p
    using assms [OF that] by (cases p) (auto simp: HasPrefix_def)
  then have "List.find (\<lambda>p. p \<noteq> [] \<and> HasPrefix (c # s) p) pats = None"
    by (auto simp: find_None_iff)
  then show ?thesis by (simp add: trim_front.simps)
qed

lemma hd_space_runes:
  "printable c \<Longrightarrow> p \<in> set space_runes \<Longrightarrow> hd p \<noteq> c"
  "printable c \<Longrightarrow> p \<in> set (map rev space_runes) \<Longrightarrow> hd p \<noteq> c"
  by (auto simp: space_runes_def printable_def byte_in_def)

lemma trim_front_printable:
  "s \<noteq> [] \<Longrightarrow> printable (hd s) \<Longrightarrow> trim_front space_runes s = s"
  "s \<noteq> [] \<Longrightarrow> printable (last s) \<Longrightarrow> trim_front (map rev space_runes) (rev s) = rev s"
proof -
  show "trim_front space_runes s = s" if "s \<noteq> []" "printable (hd s)"
    using that trim_front_id [of space_runes "hd s" "tl s"] hd_space_runes(1) by auto
  show "trim_front (map rev space_runes) (rev s) = rev s" if "s \<noteq> []" "printable (last s)"
  proof -
    have "rev s = last s # tl (rev s)" using that(1) by (metis hd_Cons_tl hd_rev rev_is_Nil_conv)
    with trim_front_id [of "map rev space_runes" "last s" "tl (rev s)"] hd_space_runes(2) [OF that(2)]
    show ?thesis by metis
  qed
qed

lemma TrimSpace_id:
  "s \<noteq> [] \<Longrightarrow> printable (hd s) \<Longrightarrow> printable (last s) \<Longrightarrow> TrimSpace s = s"
  by (simp add: TrimSpace_def trim_front_printable)

lemma TrimSpace_newline:
  assumes "s \<noteq> []" "printable (hd s)" "printable (last s)"
  shows "TrimSpace (s @ [CHR 0x0A]) = s"
proof -
  have "List.find (\<lambda>p. p \<noteq> [] \<and> HasPrefix (CHR 0x0A # rev s) p) (map rev space_runes) = Some [CHR 0x0A]"
    by (simp add: space_runes_def HasPrefix_def)
  then have "trim_front (map rev space_runes) (CHR 0x0A # rev s) = trim_front (map rev space_runes) (rev s)"
    by (subst trim_front.simps) simp
  then show ?thesis
    using assms trim_front_printable(1) [of "s @ [CHR 0x0A]"] by (simp add: TrimSpace_def trim_front_printable)
qed

end
