(* ===== verification/Http.thy ===== *)
theory Http
  imports GoLib
begin

text \<open>
  The parts of \<open>net/http\<close> and \<open>encoding/json\<close> the handlers use: requests, responses and
  cookies as records, JSON values, and the decoding of a JSON value into a Go struct or a
  \<open>map[string]string\<close>. The functions that extract a client's address from a request, which
  the packages \<open>server\<close> and \<open>auth\<close> each have a copy of, are here too.

  A request carries its body twice: the bytes, and the first JSON value in them, \<open>None\<close>
  where \<open>json.Decoder\<close> finds none. Of the response headers only those the program's logic
  sets are kept, not \<open>Content-Type\<close>; a body is the JSON value that is written.
\<close>

section \<open>JSON values\<close>

datatype json = JNull | JBool bool | JNum string | JStr string | JArr "json list"
  | JObj "(string \<times> json) list"

text \<open>
  Decoding matches a key with a field name exactly, else up to case. Two runes outside ASCII
  fold to an ASCII letter (U+017F to S, U+212A to K); no other can match a name in ASCII.
\<close>

definition upper_byte :: "char \<Rightarrow> char" where
  "upper_byte c = (if byte_in 97 122 c then char_of ((of_char c :: nat) - 32) else c)"

fun fold_name :: "string \<Rightarrow> string" where
  "fold_name [] = []"
| "fold_name (c # s) =
     (if c = CHR 0xC5 \<and> take 1 s = [CHR 0xBF] then CHR ''S'' # fold_name (drop 1 s)
      else if c = CHR 0xE2 \<and> take 2 s = [CHR 0x84, CHR 0xAA] then CHR ''K'' # fold_name (drop 2 s)
      else upper_byte c # fold_name s)"

datatype field_kind = FString | FInt

record decoded =
  dec_err :: bool
  dec_str :: "string \<Rightarrow> string"
  dec_int :: "string \<Rightarrow> int"

definition zero_decoded :: decoded where
  "zero_decoded = \<lparr>dec_err = False, dec_str = (\<lambda>_. []), dec_int = (\<lambda>_. 0)\<rparr>"

definition find_field :: "(string \<times> field_kind) list \<Rightarrow> string \<Rightarrow> (string \<times> field_kind) option" where
  "find_field flds key =
     (case List.find (\<lambda>f. fst f = key) flds of
        Some f \<Rightarrow> Some f
      | None \<Rightarrow> List.find (\<lambda>f. fold_name (fst f) = fold_name key) flds)"

text \<open>
  One member of an object: an unknown key is ignored, \<open>null\<close> leaves the field, a value of
  another type is an error that does not stop the decoding of the others.
\<close>

definition decode_member :: "(string \<times> field_kind) list \<Rightarrow> string \<times> json \<Rightarrow> decoded \<Rightarrow> decoded" where
  "decode_member flds m d =
     (case find_field flds (fst m) of
        None \<Rightarrow> d
      | Some (name, kind) \<Rightarrow>
          (case (kind, snd m) of
             (_, JNull) \<Rightarrow> d
           | (FString, JStr s) \<Rightarrow> d\<lparr>dec_str := (dec_str d)(name := s)\<rparr>
           | (FInt, JNum s) \<Rightarrow>
               (case ParseInt s of
                  (n, None) \<Rightarrow> d\<lparr>dec_int := (dec_int d)(name := n)\<rparr>
                | (_, Some _) \<Rightarrow> d\<lparr>dec_err := True\<rparr>)
           | _ \<Rightarrow> d\<lparr>dec_err := True\<rparr>))"

definition decode_struct :: "(string \<times> field_kind) list \<Rightarrow> json option \<Rightarrow> decoded" where
  "decode_struct flds body =
     (case body of
        None \<Rightarrow> zero_decoded\<lparr>dec_err := True\<rparr>
      | Some JNull \<Rightarrow> zero_decoded
      | Some (JObj ms) \<Rightarrow> fold (decode_member flds) ms zero_decoded
      | Some _ \<Rightarrow> zero_decoded\<lparr>dec_err := True\<rparr>)"

text \<open>A \<open>map[string]string\<close>: the entries without repetition, the last value of a key.\<close>

definition put_entry :: "string \<Rightarrow> string \<Rightarrow> (string \<times> string) list \<Rightarrow> (string \<times> string) list" where
  "put_entry k v es = filter (\<lambda>e. fst e \<noteq> k) es @ [(k, v)]"

fun decode_entries :: "(string \<times> json) list \<Rightarrow> (string \<times> string) list \<Rightarrow> (string \<times> string) list option" where
  "decode_entries [] es = Some es"
| "decode_entries ((k, JStr v) # ms) es = decode_entries ms (put_entry k v es)"
| "decode_entries ((k, JNull) # ms) es = decode_entries ms (put_entry k [] es)"
| "decode_entries ((k, _) # ms) es = None"

definition decode_string_map :: "json option \<Rightarrow> (string \<times> string) list option" where
  "decode_string_map body =
     (case body of
        Some JNull \<Rightarrow> Some []
      | Some (JObj ms) \<Rightarrow> decode_entries ms []
      | _ \<Rightarrow> None)"

section \<open>Requests, responses, cookies\<close>

datatype same_site = SameSiteUnset | SameSiteLax | SameSiteStrict | SameSiteNone

record cookie =
  ck_Name :: string
  ck_Value :: string
  ck_Path :: string
  ck_HttpOnly :: bool
  ck_Secure :: bool
  ck_SameSite :: same_site
  ck_MaxAge :: int

text \<open>The claims of a session token (\<open>auth.Claims\<close>); the registered claims are pointers in Go.\<close>

record claims =
  cl_UserID :: string
  cl_Username :: string
  cl_Role :: string
  cl_ExpiresAt :: "time option"
  cl_IssuedAt :: "time option"

record request =
  rq_Method :: string
  rq_Path :: string
  rq_Query :: "string \<Rightarrow> string"
  rq_Header :: "string \<Rightarrow> string"
  rq_Cookies :: "(string \<times> string) list"
  rq_RemoteAddr :: string
  rq_Host :: string
  rq_PathValue :: "string \<Rightarrow> string"
  rq_Body :: bytes
  rq_JSON :: "json option"
  rq_User :: "claims option"

record response =
  rs_Code :: int
  rs_Cookies :: "cookie list"
  rs_Headers :: "(string \<times> string) list"
  rs_Body :: json

text \<open>\<open>r.Cookie\<close>: the first cookie with the name.\<close>

definition get_cookie :: "request \<Rightarrow> string \<Rightarrow> string option" where
  "get_cookie r name = map_of (rq_Cookies r) name"

definition empty_response :: response where
  "empty_response = \<lparr>rs_Code = 200, rs_Cookies = [], rs_Headers = [], rs_Body = JNull\<rparr>"

definition reply :: "int \<Rightarrow> json \<Rightarrow> response" where
  "reply code body = empty_response\<lparr>rs_Code := code, rs_Body := body\<rparr>"

definition error_body :: "string \<Rightarrow> json" where
  "error_body msg = JObj [(''error'', JStr msg)]"

text \<open>\<open>jsonError\<close> of the server, and \<open>http.Error\<close> with the same text as its body.\<close>

definition jsonError :: "string \<Rightarrow> int \<Rightarrow> response" where
  "jsonError msg code = reply code (error_body msg)"

definition status_ok :: json where
  "status_ok = JObj [(''status'', JStr ''ok'')]"

definition add_cookie :: "cookie \<Rightarrow> response \<Rightarrow> response" where
  "add_cookie c rs = rs\<lparr>rs_Cookies := rs_Cookies rs @ [c]\<rparr>"

type_synonym 's handler = "request \<Rightarrow> 's \<Rightarrow> response \<times> 's"

section \<open>Client addresses\<close>

definition clientIP :: "request \<Rightarrow> string" where
  "clientIP r =
     (let xff = rq_Header r ''X-Forwarded-For''; xri = rq_Header r ''X-Real-IP'' in
      if xff \<noteq> [] then
        (case index_byte (CHR '','') xff of
           Some idx \<Rightarrow> TrimSpace (take idx xff)
         | None \<Rightarrow> TrimSpace xff)
      else if xri \<noteq> [] then TrimSpace xri
      else case SplitHostPort (rq_RemoteAddr r) of
             None \<Rightarrow> rq_RemoteAddr r
           | Some (host, _) \<Rightarrow> host)"

definition clientIPAuth :: "request \<Rightarrow> string" where
  "clientIPAuth r = clientIP r"

definition clientIPFromRequest :: "request \<Rightarrow> string" where
  "clientIPFromRequest r = clientIP r"

section \<open>Facts\<close>

lemma reply_simps [simp]:
  "rs_Code (reply c b) = c" "rs_Body (reply c b) = b" "rs_Cookies (reply c b) = []" "rs_Headers (reply c b) = []"
  by (simp_all add: reply_def empty_response_def)

lemma jsonError_simps [simp]:
  "rs_Code (jsonError m c) = c" "rs_Body (jsonError m c) = error_body m" "rs_Cookies (jsonError m c) = []"
  by (simp_all add: jsonError_def)

lemma add_cookie_simps [simp]:
  "rs_Code (add_cookie c rs) = rs_Code rs" "rs_Body (add_cookie c rs) = rs_Body rs"
  "rs_Cookies (add_cookie c rs) = rs_Cookies rs @ [c]"
  by (simp_all add: add_cookie_def)

lemma put_entry_keys: "distinct (map fst es) \<Longrightarrow> distinct (map fst (put_entry k v es))"
  by (auto simp: put_entry_def distinct_map_filter_key)

lemma decode_entries_distinct:
  "decode_entries ms es = Some es' \<Longrightarrow> distinct (map fst es) \<Longrightarrow> distinct (map fst es')"
  by (induction ms es rule: decode_entries.induct) (auto simp: put_entry_keys)

lemma decode_string_map_distinct: "decode_string_map b = Some es \<Longrightarrow> distinct (map fst es)"
  by (auto simp: decode_string_map_def dest: decode_entries_distinct split: option.splits json.splits)

text \<open>Without a forwarding header the address is the peer's, without its port.\<close>

lemma clientIP_direct:
  "rq_Header r ''X-Forwarded-For'' = [] \<Longrightarrow> rq_Header r ''X-Real-IP'' = [] \<Longrightarrow>
    SplitHostPort (rq_RemoteAddr r) = Some (h, p) \<Longrightarrow> clientIP r = h"
  by (simp add: clientIP_def)

end
