(* ===== verification/Store.thy ===== *)
theory Store
  imports GoLib
begin

text \<open>
  The SQLite store, \<open>internal/store\<close>: the rows of its tables as records, the database as
  the lists of their rows, one definition per method of \<open>Store\<close>, and the constraints of
  the schema (\<open>internal/store/migrations\<close>) as an invariant that every method keeps.

  A statement can fail for reasons outside the model (the disk, a lock, a closed handle).
  Which statements fail is the field \<open>fault\<close> of the database, a predicate on the kinds of
  statements, about which nothing is assumed: every theorem holds for all of them. A
  statement that violates a constraint (a primary key, \<open>UNIQUE\<close>, a foreign key) fails with
  \<open>Constraint\<close> and changes nothing.
\<close>

section \<open>Models (models.go)\<close>

definition zero_time :: time where
  "zero_time = - 62135596800000000000"

record user =
  usr_ID :: string
  usr_Username :: string
  usr_PasswordHash :: string
  usr_Role :: string
  usr_OIDCSubject :: "string option"
  usr_CreatedAt :: time
  usr_UpdatedAt :: time

record server =
  srv_ID :: string
  srv_Name :: string
  srv_Host :: string
  srv_Port :: int
  srv_SSHUser :: string
  srv_Status :: string
  srv_OwnerID :: string
  srv_KeySource :: string
  srv_VaultKeyPath :: string
  srv_CreatedAt :: time
  srv_UpdatedAt :: time

record session_template =
  tpl_ID :: string
  tpl_Name :: string
  tpl_Command :: string
  tpl_Workdir :: string
  tpl_ServerID :: "string option"
  tpl_CreatedAt :: time

record audit_entry =
  aud_ID :: string
  aud_Timestamp :: time
  aud_UserID :: string
  aud_Username :: string
  aud_Action :: string
  aud_TargetType :: string
  aud_TargetID :: string
  aud_Details :: string
  aud_IPAddress :: string

text \<open>The rows of \<open>ssh_keys\<close> and \<open>host_keys\<close>.\<close>

record ssh_key_row =
  key_server :: string
  key_encrypted :: bytes
  key_salt :: bytes
  key_nonce :: bytes

record host_key_row =
  hk_server :: string
  hk_key :: bytes
  hk_fingerprint :: string

definition RoleAdmin :: string where "RoleAdmin = ''admin''"
definition RoleUser :: string where "RoleUser = ''user''"
definition StatusUnknown :: string where "StatusUnknown = ''unknown''"
definition StatusReachable :: string where "StatusReachable = ''reachable''"
definition StatusUnreachable :: string where "StatusUnreachable = ''unreachable''"
definition StatusKeyMismatch :: string where "StatusKeyMismatch = ''key_mismatch''"

section \<open>The database\<close>

datatype stmt =
    QUser | QUserCount | QListUsers | XInsertUser | XUpdateUser | XDeleteUser
  | QServer | QListServers | XInsertServer | XDeleteServer | XUpdateServerStatus string
  | QHostKey | XStoreHostKey | XDeleteHostKey
  | QSetting | XSetSetting string | XDeleteSetting | QAllSettings
  | XLogAudit | QListAudit | QCountAudit
  | QTemplateCount string | XInsertTemplate string | QListTemplates
  | QSSHKey | XPutSSHKey | XDeleteSSHKey | QPing

record db =
  users :: "user list"
  servers :: "server list"
  ssh_keys :: "ssh_key_row list"
  host_keys :: "host_key_row list"
  session_templates :: "session_template list"
  audit_log :: "audit_entry list"
  settings :: "(string \<times> string) list"
  fault :: "stmt \<Rightarrow> bool"

datatype store_error = NotFound | Constraint | IOError

text \<open>\<open>CURRENT_TIMESTAMP\<close> has a resolution of one second.\<close>

definition sql_now :: "time \<Rightarrow> time" where
  "sql_now now = now - now mod 1000000000"

section \<open>Users (users.go)\<close>

text \<open>\<open>newID\<close> on the twelve random bytes it draws.\<close>

definition newID :: "bytes \<Rightarrow> string" where
  "newID rnd = hex_encode (take 12 rnd)"

text \<open>An \<open>INSERT\<close> into \<open>users\<close>: primary key, \<open>UNIQUE\<close> username and OIDC subject.\<close>

definition insert_user :: "db \<Rightarrow> user \<Rightarrow> store_error + db" where
  "insert_user d u =
     (if fault d XInsertUser then Inl IOError
      else if list_ex (\<lambda>r. usr_ID r = usr_ID u \<or> usr_Username r = usr_Username u \<or>
               usr_OIDCSubject u \<noteq> None \<and> usr_OIDCSubject r = usr_OIDCSubject u) (users d)
      then Inl Constraint
      else Inr (d\<lparr>users := users d @ [u]\<rparr>))"

definition CreateUser :: "db \<Rightarrow> bytes \<Rightarrow> time \<Rightarrow> string \<Rightarrow> string \<Rightarrow> string \<Rightarrow> store_error + user \<times> db" where
  "CreateUser d rnd now username passwordHash role =
     (let u = \<lparr>usr_ID = newID rnd, usr_Username = username, usr_PasswordHash = passwordHash,
               usr_Role = role, usr_OIDCSubject = None,
               usr_CreatedAt = zero_time, usr_UpdatedAt = zero_time\<rparr> in
      bind_result (insert_user d (u\<lparr>usr_CreatedAt := sql_now now, usr_UpdatedAt := sql_now now\<rparr>))
        (\<lambda>d'. Inr (u, d')))"

definition query_user :: "db \<Rightarrow> (user \<Rightarrow> bool) \<Rightarrow> store_error + user" where
  "query_user d P =
     (if fault d QUser then Inl IOError
      else case find_row P (users d) of None \<Rightarrow> Inl NotFound | Some u \<Rightarrow> Inr u)"

definition GetUserByUsername :: "db \<Rightarrow> string \<Rightarrow> store_error + user" where
  "GetUserByUsername d username = query_user d (\<lambda>u. usr_Username u = username)"

definition GetUserByID :: "db \<Rightarrow> string \<Rightarrow> store_error + user" where
  "GetUserByID d uid = query_user d (\<lambda>u. usr_ID u = uid)"

definition UserCount :: "db \<Rightarrow> store_error + nat" where
  "UserCount d = (if fault d QUserCount then Inl IOError else Inr (length (users d)))"

definition ListUsers :: "db \<Rightarrow> store_error + user list" where
  "ListUsers d = (if fault d QListUsers then Inl IOError else Inr (sort_key usr_CreatedAt (users d)))"

definition DeleteUser :: "db \<Rightarrow> string \<Rightarrow> store_error + db" where
  "DeleteUser d uid =
     (if fault d XDeleteUser then Inl IOError
      else if find_row (\<lambda>u. usr_ID u = uid) (users d) = None then Inl NotFound
      else Inr (d\<lparr>users := filter (\<lambda>u. usr_ID u \<noteq> uid) (users d)\<rparr>))"

text \<open>
  \<open>UpsertOIDCUser\<close>: the row of a known subject gets the new username and role (the
  \<open>UPDATE\<close> can collide with another row's username), an unknown subject a new row.
\<close>

definition UpsertOIDCUser ::
  "db \<Rightarrow> bytes \<Rightarrow> time \<Rightarrow> string \<Rightarrow> string \<Rightarrow> string \<Rightarrow> store_error + user \<times> db" where
  "UpsertOIDCUser d rnd now oidcSubject username role =
     (case query_user d (\<lambda>u. usr_OIDCSubject u = Some oidcSubject) of
        Inr u \<Rightarrow>
          if fault d XUpdateUser then Inl IOError
          else if list_ex (\<lambda>r. usr_ID r \<noteq> usr_ID u \<and> usr_Username r = username) (users d)
          then Inl Constraint
          else Inr (u\<lparr>usr_Username := username, usr_Role := role\<rparr>,
                    d\<lparr>users := map (\<lambda>r. if usr_ID r = usr_ID u
                         then r\<lparr>usr_Username := username, usr_Role := role, usr_UpdatedAt := sql_now now\<rparr>
                         else r) (users d)\<rparr>)
      | Inl NotFound \<Rightarrow>
          (let u = \<lparr>usr_ID = newID rnd, usr_Username = username, usr_PasswordHash = [],
                    usr_Role = role, usr_OIDCSubject = Some oidcSubject,
                    usr_CreatedAt = zero_time, usr_UpdatedAt = zero_time\<rparr> in
           bind_result (insert_user d (u\<lparr>usr_CreatedAt := sql_now now, usr_UpdatedAt := sql_now now\<rparr>))
             (\<lambda>d'. Inr (u, d')))
      | Inl e \<Rightarrow> Inl e)"

section \<open>Servers (servers.go)\<close>

definition CreateServer ::
  "db \<Rightarrow> bytes \<Rightarrow> time \<Rightarrow> string \<Rightarrow> string \<Rightarrow> int \<Rightarrow> string \<Rightarrow> string \<Rightarrow> string \<Rightarrow> string
     \<Rightarrow> store_error + server \<times> db" where
  "CreateServer d rnd now name host port sshUser ownerID keySource vaultKeyPath =
     (let srv = \<lparr>srv_ID = newID rnd, srv_Name = name, srv_Host = host, srv_Port = port,
                 srv_SSHUser = sshUser, srv_Status = StatusUnknown, srv_OwnerID = ownerID,
                 srv_KeySource = (if keySource = [] then ''local'' else keySource),
                 srv_VaultKeyPath = vaultKeyPath,
                 srv_CreatedAt = zero_time, srv_UpdatedAt = zero_time\<rparr> in
      if fault d XInsertServer then Inl IOError
      else if list_ex (\<lambda>r. srv_ID r = srv_ID srv \<or> srv_Name r = name) (servers d) then Inl Constraint
      else Inr (srv, d\<lparr>servers := servers d @
        [srv\<lparr>srv_CreatedAt := sql_now now, srv_UpdatedAt := sql_now now\<rparr>]\<rparr>))"

text \<open>The rows a caller may see: all of them with an empty \<open>ownerID\<close>.\<close>

definition visible :: "string \<Rightarrow> server \<Rightarrow> bool" where
  "visible ownerID srv \<longleftrightarrow> ownerID = [] \<or> srv_OwnerID srv = ownerID \<or> srv_OwnerID srv = []"

definition GetServer :: "db \<Rightarrow> string \<Rightarrow> string \<Rightarrow> store_error + server" where
  "GetServer d sid ownerID =
     (if fault d QServer then Inl IOError
      else case find_row (\<lambda>s. srv_ID s = sid \<and> visible ownerID s) (servers d) of
             None \<Rightarrow> Inl NotFound | Some s \<Rightarrow> Inr s)"

definition ListServers :: "db \<Rightarrow> string \<Rightarrow> store_error + server list" where
  "ListServers d ownerID =
     (if fault d QListServers then Inl IOError
      else Inr (sort_key srv_Name (filter (visible ownerID) (servers d))))"

text \<open>\<open>DeleteServer\<close>, with the schema's \<open>ON DELETE CASCADE\<close>.\<close>

definition DeleteServer :: "db \<Rightarrow> string \<Rightarrow> store_error + db" where
  "DeleteServer d sid =
     (if fault d XDeleteServer then Inl IOError
      else Inr (d\<lparr>servers := filter (\<lambda>s. srv_ID s \<noteq> sid) (servers d),
                  ssh_keys := filter (\<lambda>k. key_server k \<noteq> sid) (ssh_keys d),
                  host_keys := filter (\<lambda>k. hk_server k \<noteq> sid) (host_keys d),
                  session_templates := filter (\<lambda>t. tpl_ServerID t \<noteq> Some sid) (session_templates d)\<rparr>))"

definition UpdateServerStatus :: "db \<Rightarrow> time \<Rightarrow> string \<Rightarrow> string \<Rightarrow> store_error + db" where
  "UpdateServerStatus d now sid status =
     (if fault d (XUpdateServerStatus sid) then Inl IOError
      else Inr (d\<lparr>servers := map (\<lambda>s. if srv_ID s = sid
           then s\<lparr>srv_Status := status, srv_UpdatedAt := sql_now now\<rparr> else s) (servers d)\<rparr>))"

section \<open>Host keys (host_keys.go)\<close>

definition server_exists :: "db \<Rightarrow> string \<Rightarrow> bool" where
  "server_exists d sid \<longleftrightarrow> list_ex (\<lambda>s. srv_ID s = sid) (servers d)"

definition StoreHostKey :: "db \<Rightarrow> string \<Rightarrow> bytes \<Rightarrow> string \<Rightarrow> store_error + db" where
  "StoreHostKey d sid hostKey fp =
     (if fault d XStoreHostKey then Inl IOError
      else if \<not> server_exists d sid then Inl Constraint
      else Inr (d\<lparr>host_keys := filter (\<lambda>k. hk_server k \<noteq> sid) (host_keys d) @
                    [\<lparr>hk_server = sid, hk_key = hostKey, hk_fingerprint = fp\<rparr>]\<rparr>))"

definition GetHostKey :: "db \<Rightarrow> string \<Rightarrow> store_error + bytes \<times> string" where
  "GetHostKey d sid =
     (if fault d QHostKey then Inl IOError
      else case find_row (\<lambda>k. hk_server k = sid) (host_keys d) of
             None \<Rightarrow> Inl NotFound | Some k \<Rightarrow> Inr (hk_key k, hk_fingerprint k))"

definition DeleteHostKey :: "db \<Rightarrow> string \<Rightarrow> store_error + db" where
  "DeleteHostKey d sid =
     (if fault d XDeleteHostKey then Inl IOError
      else Inr (d\<lparr>host_keys := filter (\<lambda>k. hk_server k \<noteq> sid) (host_keys d)\<rparr>))"

section \<open>The statements on \<open>ssh_keys\<close> (issued by keystore/local.go)\<close>

definition put_ssh_key :: "db \<Rightarrow> ssh_key_row \<Rightarrow> store_error + db" where
  "put_ssh_key d r =
     (if fault d XPutSSHKey then Inl IOError
      else if \<not> server_exists d (key_server r) then Inl Constraint
      else Inr (d\<lparr>ssh_keys := filter (\<lambda>k. key_server k \<noteq> key_server r) (ssh_keys d) @ [r]\<rparr>))"

definition get_ssh_key :: "db \<Rightarrow> string \<Rightarrow> store_error + ssh_key_row" where
  "get_ssh_key d sid =
     (if fault d QSSHKey then Inl IOError
      else case find_row (\<lambda>k. key_server k = sid) (ssh_keys d) of
             None \<Rightarrow> Inl NotFound | Some k \<Rightarrow> Inr k)"

definition delete_ssh_key :: "db \<Rightarrow> string \<Rightarrow> store_error + db" where
  "delete_ssh_key d sid =
     (if fault d XDeleteSSHKey then Inl IOError
      else Inr (d\<lparr>ssh_keys := filter (\<lambda>k. key_server k \<noteq> sid) (ssh_keys d)\<rparr>))"

section \<open>Settings (settings.go)\<close>

definition GetSetting :: "db \<Rightarrow> string \<Rightarrow> store_error + string" where
  "GetSetting d key =
     (if fault d QSetting then Inl IOError
      else Inr (case map_of (settings d) key of None \<Rightarrow> [] | Some v \<Rightarrow> v))"

definition SetSetting :: "db \<Rightarrow> string \<Rightarrow> string \<Rightarrow> store_error + db" where
  "SetSetting d key value =
     (if fault d (XSetSetting key) then Inl IOError
      else Inr (d\<lparr>settings := filter (\<lambda>kv. fst kv \<noteq> key) (settings d) @ [(key, value)]\<rparr>))"

definition DeleteSetting :: "db \<Rightarrow> string \<Rightarrow> store_error + db" where
  "DeleteSetting d key =
     (if fault d XDeleteSetting then Inl IOError
      else Inr (d\<lparr>settings := filter (\<lambda>kv. fst kv \<noteq> key) (settings d)\<rparr>))"

definition GetAllSettings :: "db \<Rightarrow> store_error + (string \<rightharpoonup> string)" where
  "GetAllSettings d = (if fault d QAllSettings then Inl IOError else Inr (map_of (settings d)))"

section \<open>Audit log (audit.go)\<close>

definition AuditAuthLogin :: string where "AuditAuthLogin = ''auth.login''"
definition AuditAuthLoginFailed :: string where "AuditAuthLoginFailed = ''auth.login_failed''"
definition AuditAuthLogout :: string where "AuditAuthLogout = ''auth.logout''"
definition AuditServerCreate :: string where "AuditServerCreate = ''server.create''"
definition AuditServerDelete :: string where "AuditServerDelete = ''server.delete''"
definition AuditServerKeyUpload :: string where "AuditServerKeyUpload = ''server.key_upload''"
definition AuditSessionCreate :: string where "AuditSessionCreate = ''session.create''"
definition AuditSessionKill :: string where "AuditSessionKill = ''session.kill''"
definition AuditTerminalConnect :: string where "AuditTerminalConnect = ''terminal.connect''"
definition AuditTerminalDisconnect :: string where "AuditTerminalDisconnect = ''terminal.disconnect''"
definition AuditSettingsUpdate :: string where "AuditSettingsUpdate = ''settings.update''"

text \<open>The verb \<open>%x\<close> of \<open>fmt\<close>.\<close>

fun show_hex :: "nat \<Rightarrow> string" where
  "show_hex n = (if n < 16 then [hex_char n] else show_hex (n div 16) @ [hex_char (n mod 16)])"

declare show_hex.simps [simp del]

definition fmt_x :: "int \<Rightarrow> string" where
  "fmt_x n = (if n < 0 then CHR ''-'' # show_hex (nat (- n)) else show_hex (nat n))"

text \<open>\<open>LogAudit\<close>, with the clock and the value of \<open>rand.Int63\<close> for a missing id.\<close>

definition LogAudit :: "db \<Rightarrow> time \<Rightarrow> int \<Rightarrow> audit_entry \<Rightarrow> store_error + db" where
  "LogAudit d now rnd entry =
     (let e1 = (if aud_ID entry = [] then entry\<lparr>aud_ID := fmt_x now @ ''-'' @ fmt_x rnd\<rparr> else entry);
          e2 = (if aud_Timestamp e1 = zero_time then e1\<lparr>aud_Timestamp := now\<rparr> else e1) in
      if fault d XLogAudit then Inl IOError
      else if list_ex (\<lambda>r. aud_ID r = aud_ID e2) (audit_log d) then Inl Constraint
      else Inr (d\<lparr>audit_log := audit_log d @ [e2]\<rparr>))"

text \<open>
  A \<open>time.Time\<close> of the filter keeps the offset it was parsed with (in seconds east of UTC). The
  driver binds it as text with that offset, \<open>2006-01-02 15:04:05.999999999-07:00\<close>, and SQLite
  compares the column with this text: first the wall clock, then the offset, positive ones
  (\<open>+\<close>) before negative ones (\<open>-\<close>). The column holds the entries' timestamps in UTC, since
  every caller of \<open>LogAudit\<close> leaves the timestamp to it.
\<close>

record stamp =
  stm_instant :: time
  stm_offset :: int

definition utc :: "time \<Rightarrow> stamp" where
  "utc t = \<lparr>stm_instant = t, stm_offset = 0\<rparr>"

definition wall_clock :: "stamp \<Rightarrow> time" where
  "wall_clock t = stm_instant t + stm_offset t * 1000000000"

definition offset_rank :: "int \<Rightarrow> int" where
  "offset_rank z = (if 0 \<le> z then z else 100000 - z)"

definition text_le :: "stamp \<Rightarrow> stamp \<Rightarrow> bool" where
  "text_le t u \<longleftrightarrow> wall_clock t < wall_clock u \<or>
     wall_clock t = wall_clock u \<and> offset_rank (stm_offset t) \<le> offset_rank (stm_offset u)"

record audit_filter =
  flt_UserID :: string
  flt_Action :: string
  flt_Since :: stamp
  flt_Until :: stamp
  flt_Limit :: int
  flt_Offset :: int

text \<open>The \<open>WHERE\<close> clause that \<open>ListAuditLog\<close> and \<open>CountAuditLog\<close> build.\<close>

definition audit_matches :: "audit_filter \<Rightarrow> audit_entry \<Rightarrow> bool" where
  "audit_matches f e \<longleftrightarrow>
     (flt_UserID f \<noteq> [] \<longrightarrow> aud_UserID e = flt_UserID f) \<and>
     (flt_Action f \<noteq> [] \<longrightarrow> aud_Action e = flt_Action f) \<and>
     (stm_instant (flt_Since f) \<noteq> zero_time \<longrightarrow> text_le (flt_Since f) (utc (aud_Timestamp e))) \<and>
     (stm_instant (flt_Until f) \<noteq> zero_time \<longrightarrow> text_le (utc (aud_Timestamp e)) (flt_Until f))"

definition audit_limit :: "int \<Rightarrow> int" where
  "audit_limit n = (let n1 = (if n \<le> 0 then 100 else n) in if n1 > 500 then 500 else n1)"

text \<open>
  \<open>ORDER BY timestamp DESC LIMIT ? OFFSET ?\<close>; a negative offset counts as 0 in SQLite.
  The texts of two UTC timestamps are ordered as the instants are; the order of entries with the
  same timestamp, which SQL leaves open, is that of insertion, and no theorem depends on it.
\<close>

definition ListAuditLog :: "db \<Rightarrow> audit_filter \<Rightarrow> store_error + audit_entry list" where
  "ListAuditLog d f =
     (if fault d QListAudit then Inl IOError
      else Inr (take (nat (audit_limit (flt_Limit f))) (drop (nat (flt_Offset f))
             (sort_key (\<lambda>e. - aud_Timestamp e) (filter (audit_matches f) (audit_log d))))))"

definition CountAuditLog :: "db \<Rightarrow> audit_filter \<Rightarrow> store_error + nat" where
  "CountAuditLog d f =
     (if fault d QCountAudit then Inl IOError
      else Inr (length (filter (audit_matches f) (audit_log d))))"

section \<open>Session templates (templates.go)\<close>

definition defaultTemplates :: "(string \<times> string \<times> string) list" where
  "defaultTemplates =
     [(''Claude Code'', ''claude'', ''~/''),
      (''Claude Code (full access)'', ''claude --dangerously-skip-permissions'', ''~/''),
      (''Claude Code (resume)'', ''claude --resume'', ''~/''),
      (''Codex'', ''codex'', ''~/''),
      (''Shell'', ''bash'', ''~/'')]"

text \<open>
  The loop of \<open>SeedTemplates\<close>, with the random bytes of each \<open>newID\<close>. What was inserted
  before an error stays.
\<close>

fun seed_loop :: "db \<Rightarrow> time \<Rightarrow> (string \<times> string \<times> string) list \<Rightarrow> bytes list \<Rightarrow> store_error option \<times> db" where
  "seed_loop d now [] rnds = (None, d)"
| "seed_loop d now ((name, command, workdir) # ts) rnds =
     (let rnd = (case rnds of [] \<Rightarrow> [] | r # _ \<Rightarrow> r) in
      if fault d (QTemplateCount name) then (Some IOError, d)
      else if list_ex (\<lambda>t. tpl_Name t = name \<and> tpl_ServerID t = None) (session_templates d)
      then seed_loop d now ts rnds
      else if fault d (XInsertTemplate name) then (Some IOError, d)
      else if list_ex (\<lambda>t. tpl_ID t = newID rnd) (session_templates d) then (Some Constraint, d)
      else seed_loop (d\<lparr>session_templates := session_templates d @
             [\<lparr>tpl_ID = newID rnd, tpl_Name = name, tpl_Command = command, tpl_Workdir = workdir,
               tpl_ServerID = None, tpl_CreatedAt = sql_now now\<rparr>]\<rparr>) now ts (tl rnds))"

definition SeedTemplates :: "db \<Rightarrow> time \<Rightarrow> bytes list \<Rightarrow> store_error option \<times> db" where
  "SeedTemplates d now rnds = seed_loop d now defaultTemplates rnds"

definition ListTemplates :: "db \<Rightarrow> string \<Rightarrow> store_error + session_template list" where
  "ListTemplates d serverID =
     (if fault d QListTemplates then Inl IOError
      else Inr (sort_key tpl_Name (filter (\<lambda>t. tpl_ServerID t = None \<or>
             serverID \<noteq> [] \<and> tpl_ServerID t = Some serverID) (session_templates d))))"

section \<open>The schema as an invariant\<close>

definition users_inv :: "user list \<Rightarrow> bool" where
  "users_inv us \<longleftrightarrow> distinct (map usr_ID us) \<and> distinct (map usr_Username us) \<and>
     distinct (filter (\<lambda>s. s \<noteq> None) (map usr_OIDCSubject us))"

definition servers_inv :: "server list \<Rightarrow> bool" where
  "servers_inv ss \<longleftrightarrow> distinct (map srv_ID ss) \<and> distinct (map srv_Name ss)"

text \<open>Primary keys of the dependent tables and their references to \<open>servers\<close>.\<close>

definition refs_inv :: "string list \<Rightarrow> ssh_key_row list \<Rightarrow> host_key_row list \<Rightarrow> session_template list \<Rightarrow> bool" where
  "refs_inv ids ks hs ts \<longleftrightarrow>
     distinct (map key_server ks) \<and> list_all (\<lambda>k. key_server k \<in> set ids) ks \<and>
     distinct (map hk_server hs) \<and> list_all (\<lambda>h. hk_server h \<in> set ids) hs \<and>
     distinct (map tpl_ID ts) \<and>
     list_all (\<lambda>t. case tpl_ServerID t of None \<Rightarrow> True | Some i \<Rightarrow> i \<in> set ids) ts"

definition db_inv :: "db \<Rightarrow> bool" where
  "db_inv d \<longleftrightarrow> users_inv (users d) \<and> servers_inv (servers d) \<and>
     refs_inv (map srv_ID (servers d)) (ssh_keys d) (host_keys d) (session_templates d) \<and>
     distinct (map aud_ID (audit_log d)) \<and> distinct (map fst (settings d))"

lemma filter_neq_append_None [simp]:
  "distinct (filter (\<lambda>s. s \<noteq> None) (xs @ [None])) = distinct (filter (\<lambda>s. s \<noteq> None) xs)"
  by simp

lemma users_inv_snoc:
  assumes "users_inv us"
    and "\<not> list_ex (\<lambda>r. usr_ID r = usr_ID u \<or> usr_Username r = usr_Username u \<or>
           usr_OIDCSubject u \<noteq> None \<and> usr_OIDCSubject r = usr_OIDCSubject u) us"
  shows "users_inv (us @ [u])"
  using assms by (force simp: users_inv_def list_ex_iff)

lemma users_inv_filter:
  assumes "users_inv us"
  shows "users_inv (filter P us)"
proof -
  have "distinct (filter (\<lambda>s. s \<noteq> None) (map usr_OIDCSubject (filter P us)))"
    if "distinct (filter (\<lambda>s. s \<noteq> None) (map usr_OIDCSubject us))"
    using that by (induction us) (auto split: if_splits)
  with assms show ?thesis by (simp add: users_inv_def distinct_map_filter_key)
qed

lemma users_inv_update:
  assumes "users_inv us" and "\<not> list_ex (\<lambda>r. usr_ID r \<noteq> uid \<and> usr_Username r = name) us"
    and "\<And>r. usr_ID (f r) = usr_ID r \<and> usr_OIDCSubject (f r) = usr_OIDCSubject r"
    and "\<And>r. usr_Username (f r) = (if usr_ID r = uid then name else usr_Username r)"
  shows "users_inv (map f us)"
proof -
  have "distinct (map usr_Username (map f us))"
    if "distinct (map usr_ID us)" "distinct (map usr_Username us)"
      "\<not> list_ex (\<lambda>r. usr_ID r \<noteq> uid \<and> usr_Username r = name) us"
    using that by (auto simp: map_map comp_def assms(4) distinct_map inj_on_def list_ex_iff)
  moreover have "map usr_ID (map f us) = map usr_ID us"
      "map usr_OIDCSubject (map f us) = map usr_OIDCSubject us"
    using assms(3) by simp_all
  ultimately show ?thesis
    using assms(1,2) unfolding users_inv_def by metis
qed

lemma refs_inv_mono: "refs_inv ids ks hs ts \<Longrightarrow> set ids \<subseteq> set ids' \<Longrightarrow> refs_inv ids' ks hs ts"
  by (auto simp: refs_inv_def list_all_iff split: option.splits)

lemma refs_inv_delete:
  "refs_inv ids ks hs ts \<Longrightarrow>
    refs_inv (filter (\<lambda>i. i \<noteq> sid) ids) (filter (\<lambda>k. key_server k \<noteq> sid) ks)
      (filter (\<lambda>k. hk_server k \<noteq> sid) hs) (filter (\<lambda>t. tpl_ServerID t \<noteq> Some sid) ts)"
  by (auto simp: refs_inv_def list_all_iff distinct_map_filter_key split: option.splits)

lemma filter_map_ID: "filter (\<lambda>i. i \<noteq> sid) (map srv_ID ss) = map srv_ID (filter (\<lambda>s. srv_ID s \<noteq> sid) ss)"
  by (simp add: filter_map comp_def)

lemma refs_inv_host_key:
  "refs_inv ids ks hs ts \<Longrightarrow> hk_server h \<in> set ids \<Longrightarrow>
    refs_inv ids ks (filter (\<lambda>k. hk_server k \<noteq> hk_server h) hs @ [h]) ts"
  by (auto simp: refs_inv_def list_all_iff distinct_map_filter_key)

lemma refs_inv_drop_host_key: "refs_inv ids ks hs ts \<Longrightarrow> refs_inv ids ks (filter P hs) ts"
  by (auto simp: refs_inv_def list_all_iff distinct_map_filter_key)

lemma refs_inv_ssh_key:
  "refs_inv ids ks hs ts \<Longrightarrow> key_server r \<in> set ids \<Longrightarrow>
    refs_inv ids (filter (\<lambda>k. key_server k \<noteq> key_server r) ks @ [r]) hs ts"
  by (auto simp: refs_inv_def list_all_iff distinct_map_filter_key)

lemma refs_inv_drop_ssh_key: "refs_inv ids ks hs ts \<Longrightarrow> refs_inv ids (filter P ks) hs ts"
  by (auto simp: refs_inv_def list_all_iff distinct_map_filter_key)

lemma refs_inv_template:
  "refs_inv ids ks hs ts \<Longrightarrow> tpl_ServerID t = None \<Longrightarrow> \<not> list_ex (\<lambda>x. tpl_ID x = tpl_ID t) ts \<Longrightarrow>
    refs_inv ids ks hs (ts @ [t])"
  by (auto simp: refs_inv_def list_all_iff list_ex_iff)

lemma insert_user_inv [inv_intros]: "insert_user d u = Inr d' \<Longrightarrow> db_inv d \<Longrightarrow> db_inv d'"
  using users_inv_snoc by (auto simp: insert_user_def db_inv_def split: if_splits)

lemma CreateUser_inv [inv_intros]:
  "CreateUser d rnd now n h r = Inr (u, d') \<Longrightarrow> db_inv d \<Longrightarrow> db_inv d'"
  by (auto simp: CreateUser_def Let_def intro: insert_user_inv)

lemma DeleteUser_inv [inv_intros]: "DeleteUser d uid = Inr d' \<Longrightarrow> db_inv d \<Longrightarrow> db_inv d'"
  by (auto simp: DeleteUser_def db_inv_def users_inv_filter split: if_splits)

lemma UpsertOIDCUser_inv [inv_intros]:
  assumes "UpsertOIDCUser d rnd now sub name role = Inr (u, d')" and "db_inv d"
  shows "db_inv d'"
proof (cases "query_user d (\<lambda>u. usr_OIDCSubject u = Some sub)")
  case (Inl e)
  with assms show ?thesis
    by (cases e) (auto simp: UpsertOIDCUser_def Let_def intro: insert_user_inv)
next
  case (Inr v)
  have "users_inv (map (\<lambda>r. if usr_ID r = usr_ID v
      then r\<lparr>usr_Username := name, usr_Role := role, usr_UpdatedAt := sql_now now\<rparr> else r) (users d))"
    if "\<not> list_ex (\<lambda>r. usr_ID r \<noteq> usr_ID v \<and> usr_Username r = name) (users d)"
    by (rule users_inv_update [OF _ that]) (use assms(2) in \<open>auto simp: db_inv_def\<close>)
  with Inr assms show ?thesis
    by (auto simp: UpsertOIDCUser_def db_inv_def split: if_splits)
qed

lemma db_inv_server:
  assumes "db_inv d" and "\<not> list_ex (\<lambda>r. srv_ID r = srv_ID s \<or> srv_Name r = srv_Name s) (servers d)"
  shows "db_inv (d\<lparr>servers := servers d @ [s]\<rparr>)"
proof -
  have "servers_inv (servers d @ [s])"
    using assms distinct_map_snoc [of srv_ID "servers d" s] distinct_map_snoc [of srv_Name "servers d" s]
    by (auto simp: db_inv_def servers_inv_def list_ex_iff)
  moreover have "refs_inv (map srv_ID (servers d @ [s])) (ssh_keys d) (host_keys d) (session_templates d)"
    using assms(1) by (auto simp: db_inv_def intro: refs_inv_mono)
  ultimately show ?thesis using assms(1) by (simp add: db_inv_def)
qed

lemma CreateServer_inv [inv_intros]:
  "CreateServer d rnd now n h p u own ks vp = Inr (s, d') \<Longrightarrow> db_inv d \<Longrightarrow> db_inv d'"
  by (auto simp: CreateServer_def Let_def intro!: db_inv_server split: if_splits)

lemma DeleteServer_inv [inv_intros]: "DeleteServer d sid = Inr d' \<Longrightarrow> db_inv d \<Longrightarrow> db_inv d'"
  using refs_inv_delete [of "map srv_ID (servers d)"]
  by (auto simp: DeleteServer_def db_inv_def servers_inv_def distinct_map_filter_key filter_map_ID
      split: if_splits)

lemma UpdateServerStatus_inv [inv_intros]:
  "UpdateServerStatus d now sid st = Inr d' \<Longrightarrow> db_inv d \<Longrightarrow> db_inv d'"
  by (auto simp: UpdateServerStatus_def db_inv_def servers_inv_def comp_def if_distrib cong: if_cong
      split: if_splits)

lemma StoreHostKey_inv [inv_intros]: "StoreHostKey d sid k fp = Inr d' \<Longrightarrow> db_inv d \<Longrightarrow> db_inv d'"
  using refs_inv_host_key [of "map srv_ID (servers d)" _ _ _ "\<lparr>hk_server = sid, hk_key = k, hk_fingerprint = fp\<rparr>"]
  by (auto simp: StoreHostKey_def db_inv_def server_exists_def list_ex_iff split: if_splits)

lemma DeleteHostKey_inv [inv_intros]: "DeleteHostKey d sid = Inr d' \<Longrightarrow> db_inv d \<Longrightarrow> db_inv d'"
  by (auto simp: DeleteHostKey_def db_inv_def refs_inv_drop_host_key split: if_splits)

lemma server_exists_iff: "server_exists d sid \<longleftrightarrow> sid \<in> set (map srv_ID (servers d))"
  by (auto simp: server_exists_def list_ex_iff)

lemma put_ssh_key_inv [inv_intros]: "put_ssh_key d r = Inr d' \<Longrightarrow> db_inv d \<Longrightarrow> db_inv d'"
  using refs_inv_ssh_key [of "map srv_ID (servers d)" "ssh_keys d" "host_keys d" "session_templates d" r]
  by (auto simp: put_ssh_key_def db_inv_def server_exists_iff simp del: set_map split: if_splits)

lemma delete_ssh_key_inv [inv_intros]: "delete_ssh_key d sid = Inr d' \<Longrightarrow> db_inv d \<Longrightarrow> db_inv d'"
  by (auto simp: delete_ssh_key_def db_inv_def refs_inv_drop_ssh_key split: if_splits)

lemma SetSetting_inv [inv_intros]: "SetSetting d k v = Inr d' \<Longrightarrow> db_inv d \<Longrightarrow> db_inv d'"
  by (auto simp: SetSetting_def db_inv_def distinct_map_filter_key split: if_splits)

lemma DeleteSetting_inv [inv_intros]: "DeleteSetting d k = Inr d' \<Longrightarrow> db_inv d \<Longrightarrow> db_inv d'"
  by (auto simp: DeleteSetting_def db_inv_def distinct_map_filter_key split: if_splits)

lemma LogAudit_inv [inv_intros]: "LogAudit d now rnd e = Inr d' \<Longrightarrow> db_inv d \<Longrightarrow> db_inv d'"
  by (auto simp: LogAudit_def Let_def db_inv_def simp del: map_append intro!: distinct_map_snoc split: if_splits)

lemma db_inv_template:
  "db_inv d \<Longrightarrow> tpl_ServerID t = None \<Longrightarrow> \<not> list_ex (\<lambda>x. tpl_ID x = tpl_ID t) (session_templates d) \<Longrightarrow>
    db_inv (d\<lparr>session_templates := session_templates d @ [t]\<rparr>)"
  by (simp add: db_inv_def refs_inv_template)

lemma seed_loop_inv: "db_inv d \<Longrightarrow> db_inv (snd (seed_loop d now ts rnds))"
proof (induction d now ts rnds rule: seed_loop.induct)
  case (2 d now name command workdir ts rnds)
  let ?rnd = "case rnds of [] \<Rightarrow> [] | r # _ \<Rightarrow> r"
  let ?d = "d\<lparr>session_templates := session_templates d @
    [\<lparr>tpl_ID = newID ?rnd, tpl_Name = name, tpl_Command = command, tpl_Workdir = workdir,
      tpl_ServerID = None, tpl_CreatedAt = sql_now now\<rparr>]\<rparr>"
  have "db_inv ?d" if "\<not> list_ex (\<lambda>t. tpl_ID t = newID ?rnd) (session_templates d)"
    using db_inv_template [OF "2.prems"] that by simp
  then show ?case
    using "2.prems" "2.IH"(1) [OF refl] "2.IH"(2) [OF refl]
    by (simp add: Let_def)
qed simp

section \<open>Sequences of statements\<close>

datatype store_op =
    OpCreateUser bytes time string string string
  | OpDeleteUser string
  | OpUpsertOIDCUser bytes time string string string
  | OpCreateServer bytes time string string int string string string string
  | OpDeleteServer string
  | OpUpdateServerStatus time string string
  | OpStoreHostKey string bytes string
  | OpDeleteHostKey string
  | OpPutSSHKey ssh_key_row
  | OpDeleteSSHKey string
  | OpSetSetting string string
  | OpDeleteSetting string
  | OpLogAudit time int audit_entry
  | OpSeedTemplates time "bytes list"

text \<open>The database after an operation, whatever the operation returned.\<close>

definition after :: "db \<Rightarrow> store_error + db \<Rightarrow> db" where
  "after d r = (case r of Inl _ \<Rightarrow> d | Inr d' \<Rightarrow> d')"

fun store_exec :: "store_op \<Rightarrow> db \<Rightarrow> db" where
  "store_exec (OpCreateUser rnd now n h r) d = after d (map_sum (\<lambda>e. e) snd (CreateUser d rnd now n h r))"
| "store_exec (OpDeleteUser uid) d = after d (DeleteUser d uid)"
| "store_exec (OpUpsertOIDCUser rnd now s n r) d =
     after d (map_sum (\<lambda>e. e) snd (UpsertOIDCUser d rnd now s n r))"
| "store_exec (OpCreateServer rnd now n h p u own ks vp) d =
     after d (map_sum (\<lambda>e. e) snd (CreateServer d rnd now n h p u own ks vp))"
| "store_exec (OpDeleteServer sid) d = after d (DeleteServer d sid)"
| "store_exec (OpUpdateServerStatus now sid st) d = after d (UpdateServerStatus d now sid st)"
| "store_exec (OpStoreHostKey sid k fp) d = after d (StoreHostKey d sid k fp)"
| "store_exec (OpDeleteHostKey sid) d = after d (DeleteHostKey d sid)"
| "store_exec (OpPutSSHKey r) d = after d (put_ssh_key d r)"
| "store_exec (OpDeleteSSHKey sid) d = after d (delete_ssh_key d sid)"
| "store_exec (OpSetSetting k v) d = after d (SetSetting d k v)"
| "store_exec (OpDeleteSetting k) d = after d (DeleteSetting d k)"
| "store_exec (OpLogAudit now rnd e) d = after d (LogAudit d now rnd e)"
| "store_exec (OpSeedTemplates now rnds) d = snd (SeedTemplates d now rnds)"

lemma after_inv: "(\<And>d'. r = Inr d' \<Longrightarrow> db_inv d') \<Longrightarrow> db_inv d \<Longrightarrow> db_inv (after d r)"
  by (cases r) (auto simp: after_def)

lemma map_sum_snd_Inr: "map_sum (\<lambda>e. e) snd r = Inr d' \<longleftrightarrow> (\<exists>a. r = Inr (a, d'))"
  by (cases r) auto

lemma store_exec_inv: "db_inv d \<Longrightarrow> db_inv (store_exec op d)"
  by (cases op)
     (auto intro!: after_inv intro: inv_intros seed_loop_inv
       simp: map_sum_snd_Inr SeedTemplates_def)

definition empty_db :: "(stmt \<Rightarrow> bool) \<Rightarrow> db" where
  "empty_db flt = \<lparr>users = [], servers = [], ssh_keys = [], host_keys = [], session_templates = [],
     audit_log = [], settings = [], fault = flt\<rparr>"

lemma empty_db_inv [simp]: "db_inv (empty_db flt)"
  by (simp add: db_inv_def empty_db_def users_inv_def servers_inv_def refs_inv_def)

lemma store_run_inv: "db_inv d \<Longrightarrow> db_inv (fold store_exec ops d)"
  by (induction ops arbitrary: d) (auto intro: store_exec_inv)

section \<open>Properties\<close>

subsection \<open>The schema\<close>

text \<open>C18. Starting from the empty schema, every sequence of the store's write operations, with
  any pattern of failing statements, leaves a database in which all keys are unique (user ids,
  usernames, OIDC subjects, server ids and names, one key and one host key per server, audit
  ids, settings) and every SSH key, host key and server template refers to an existing server.\<close>

theorem store_schema_invariant: "db_inv (fold store_exec ops (empty_db flt))"
  by (simp add: store_run_inv)

subsection \<open>Visibility of servers\<close>

lemma GetServer_iff:
  assumes "db_inv d"
  shows "GetServer d sid ow = Inr s \<longleftrightarrow>
    \<not> fault d QServer \<and> s \<in> set (servers d) \<and> srv_ID s = sid \<and> visible ow s"
proof -
  have dist: "distinct (map srv_ID (servers d))" using assms by (simp add: db_inv_def servers_inv_def)
  have "find_row (\<lambda>s. srv_ID s = sid \<and> visible ow s) (servers d) = Some s"
    if "s \<in> set (servers d)" "srv_ID s = sid" "visible ow s"
    using find_row_unique_and [OF dist] that by simp
  then show ?thesis
    by (auto simp: GetServer_def dest: find_row_Some split: option.splits)
qed

lemma GetServer_SomeD: "GetServer d sid ow = Inr s \<Longrightarrow> s \<in> set (servers d) \<and> srv_ID s = sid \<and> visible ow s"
  by (auto simp: GetServer_def dest: find_row_Some split: option.splits if_splits)

lemma ListServers_set:
  "ListServers d ow = Inr l \<Longrightarrow> set l = {s \<in> set (servers d). visible ow s} \<and> sorted (map srv_Name l)"
  by (auto simp: ListServers_def split: if_splits)

text \<open>C19. The list of servers and the lookup by id agree for every caller: a server is listed
  exactly when the lookup by its id returns it, a non-empty owner id sees only its own and
  unowned servers, and the list is ordered by name.\<close>

theorem server_visibility:
  assumes "db_inv d" and "ListServers d ow = Inr l" and "\<not> fault d QServer"
  shows "(\<forall>s. s \<in> set l \<longleftrightarrow> GetServer d (srv_ID s) ow = Inr s) \<and> sorted (map srv_Name l) \<and>
    (ow \<noteq> [] \<longrightarrow> (\<forall>s \<in> set l. srv_OwnerID s = ow \<or> srv_OwnerID s = []))"
  using assms ListServers_set [OF assms(2)] by (auto simp: GetServer_iff visible_def)

text \<open>The databases of the witnesses: a user with a password, one from OIDC, two servers.\<close>

definition no_fault :: "stmt \<Rightarrow> bool" where
  "no_fault s = False"

definition demo_users :: "user list" where
  "demo_users =
     [\<lparr>usr_ID = ''u1'', usr_Username = ''ann'', usr_PasswordHash = ''h'', usr_Role = ''admin'',
       usr_OIDCSubject = None, usr_CreatedAt = 0, usr_UpdatedAt = 0\<rparr>,
      \<lparr>usr_ID = ''u2'', usr_Username = ''bob'', usr_PasswordHash = [], usr_Role = ''user'',
       usr_OIDCSubject = Some ''sub2'', usr_CreatedAt = 0, usr_UpdatedAt = 0\<rparr>]"

definition demo_server :: "string \<Rightarrow> string \<Rightarrow> string \<Rightarrow> server" where
  "demo_server sid name owner =
     \<lparr>srv_ID = sid, srv_Name = name, srv_Host = ''h'', srv_Port = 22, srv_SSHUser = ''u'',
      srv_Status = ''unknown'', srv_OwnerID = owner, srv_KeySource = ''local'', srv_VaultKeyPath = [],
      srv_CreatedAt = 0, srv_UpdatedAt = 0\<rparr>"

definition demo_audit :: "string \<Rightarrow> time \<Rightarrow> audit_entry" where
  "demo_audit i t = \<lparr>aud_ID = i, aud_Timestamp = t, aud_UserID = ''u1'', aud_Username = ''ann'',
     aud_Action = AuditAuthLogin, aud_TargetType = [], aud_TargetID = [], aud_Details = [],
     aud_IPAddress = []\<rparr>"

definition demo_db :: db where
  "demo_db = \<lparr>users = demo_users,
     servers = [demo_server ''s2'' ''beta'' ''u2'', demo_server ''s1'' ''alpha'' ''u1''],
     ssh_keys = [\<lparr>key_server = ''s1'', key_encrypted = ''x'', key_salt = ''y'', key_nonce = ''z''\<rparr>],
     host_keys = [\<lparr>hk_server = ''s1'', hk_key = ''k'', hk_fingerprint = ''f''\<rparr>],
     session_templates = [], audit_log = [demo_audit ''a'' 5, demo_audit ''b'' 7],
     settings = [], fault = no_fault\<rparr>"

lemmas demo_defs = demo_db_def demo_users_def demo_server_def demo_audit_def no_fault_def

lemma demo_db_inv: "db_inv demo_db"
  by (simp add: demo_defs db_inv_def users_inv_def servers_inv_def refs_inv_def)

lemma demo_list_u2: "ListServers demo_db ''u2'' = Inr [demo_server ''s2'' ''beta'' ''u2'']"
  by (simp add: ListServers_def demo_defs visible_def)

theorem server_visibility_witness:
  "GetServer demo_db ''s1'' ''u2'' \<noteq> Inr (demo_server ''s1'' ''alpha'' ''u1'') \<and>
   GetServer demo_db ''s2'' ''u2'' = Inr (demo_server ''s2'' ''beta'' ''u2'')"
proof -
  have ok: "\<not> fault demo_db QServer" by (simp add: demo_defs)
  have iff: "s \<in> set [demo_server ''s2'' ''beta'' ''u2''] \<longleftrightarrow> GetServer demo_db (srv_ID s) ''u2'' = Inr s" for s
    using server_visibility [OF demo_db_inv demo_list_u2 ok] by blast
  show ?thesis
    using iff [of "demo_server ''s1'' ''alpha'' ''u1''"] iff [of "demo_server ''s2'' ''beta'' ''u2''"]
    by (simp add: demo_server_def)
qed

subsection \<open>Deleting a server\<close>

text \<open>C27. A deleted server is gone for every caller, with its SSH key, its host key and its
  templates. Nothing else changes: a template stays, in its place, exactly when it is global or of
  another server, lookups of every other server, key and host key give what they gave, the rows
  of the other servers stay in their order, and so do users, audit entries and settings.\<close>

theorem delete_server_complete:
  assumes "DeleteServer d sid = Inr d'"
  shows "(\<forall>ow s. GetServer d' sid ow \<noteq> Inr s) \<and> (\<forall>k. get_ssh_key d' sid \<noteq> Inr k) \<and>
    (\<forall>hk. GetHostKey d' sid \<noteq> Inr hk) \<and>
    session_templates d' = filter (\<lambda>t. tpl_ServerID t \<noteq> Some sid) (session_templates d) \<and>
    (\<forall>sid' ow. sid' \<noteq> sid \<longrightarrow> GetServer d' sid' ow = GetServer d sid' ow \<and>
       get_ssh_key d' sid' = get_ssh_key d sid' \<and> GetHostKey d' sid' = GetHostKey d sid') \<and>
    servers d' = filter (\<lambda>s. srv_ID s \<noteq> sid) (servers d) \<and> users d' = users d \<and> audit_log d' = audit_log d \<and>
    settings d' = settings d"
proof -
  have d': "d' = d\<lparr>servers := filter (\<lambda>s. srv_ID s \<noteq> sid) (servers d),
                  ssh_keys := filter (\<lambda>k. key_server k \<noteq> sid) (ssh_keys d),
                  host_keys := filter (\<lambda>k. hk_server k \<noteq> sid) (host_keys d),
                  session_templates := filter (\<lambda>t. tpl_ServerID t \<noteq> Some sid) (session_templates d)\<rparr>"
    using assms by (simp add: DeleteServer_def split: if_splits)
  have "GetServer d' sid' ow = GetServer d sid' ow \<and> get_ssh_key d' sid' = get_ssh_key d sid' \<and>
      GetHostKey d' sid' = GetHostKey d sid'" if "sid' \<noteq> sid" for sid' ow
    using that by (simp add: d' GetServer_def get_ssh_key_def GetHostKey_def find_row_filter_other)
  moreover have "GetServer d' sid ow \<noteq> Inr s" for ow s
    by (auto simp: d' dest: GetServer_SomeD)
  moreover have "get_ssh_key d' sid \<noteq> Inr k" "GetHostKey d' sid \<noteq> Inr hk" for k hk
    by (auto simp: d' get_ssh_key_def GetHostKey_def dest: find_row_Some split: option.splits)
  ultimately show ?thesis by (simp add: d')
qed

theorem delete_server_complete_witness:
  "GetServer (after demo_db (DeleteServer demo_db ''s1'')) ''s2'' [] = Inr (demo_server ''s2'' ''beta'' ''u2'') \<and>
   (\<forall>k. get_ssh_key (after demo_db (DeleteServer demo_db ''s1'')) ''s1'' \<noteq> Inr k)"
proof -
  obtain d' where d': "DeleteServer demo_db ''s1'' = Inr d'"
    by (simp add: DeleteServer_def demo_defs)
  have "GetServer demo_db ''s2'' [] = Inr (demo_server ''s2'' ''beta'' ''u2'')"
    by (simp add: GetServer_def demo_defs visible_def)
  with delete_server_complete [OF d'] d' show ?thesis by (simp add: after_def)
qed

subsection \<open>Accounts from OIDC\<close>

lemma query_user_cases:
  "query_user d P = Inr u \<Longrightarrow> u \<in> set (users d) \<and> P u"
  "query_user d P = Inl NotFound \<Longrightarrow> \<forall>u \<in> set (users d). \<not> P u"
  by (auto simp: query_user_def dest: find_row_Some split: if_splits option.splits)

lemma insert_user_Inr:
  "insert_user d u = Inr d' \<Longrightarrow> users d' = users d @ [u] \<and> fault d' = fault d \<and>
    (\<forall>r \<in> set (users d). usr_ID r \<noteq> usr_ID u \<and> usr_Username r \<noteq> usr_Username u)"
  by (auto simp: insert_user_def list_ex_iff split: if_splits)

lemma users_inv_same_ID:
  "users_inv us \<Longrightarrow> u \<in> set us \<Longrightarrow> v \<in> set us \<Longrightarrow> usr_ID u = usr_ID v \<Longrightarrow> u = v"
  by (auto simp: users_inv_def distinct_map inj_on_def)

text \<open>What \<open>UpsertOIDCUser\<close> does where it succeeds: one row has the subject, the name and the
  role it was called with, and the row the caller gets back has the same id.\<close>

lemma UpsertOIDCUser_Inr:
  assumes "UpsertOIDCUser d rnd now sub name role = Inr (u, d')" and "db_inv d"
  shows "usr_OIDCSubject u = Some sub \<and> usr_Username u = name \<and> usr_Role u = role \<and>
    (\<exists>v \<in> set (users d'). usr_ID v = usr_ID u \<and> usr_OIDCSubject v = Some sub \<and>
       usr_Username v = name \<and> usr_Role v = role) \<and>
    (\<forall>v. usr_OIDCSubject v \<noteq> Some sub \<longrightarrow> v \<in> set (users d) \<longrightarrow>
       v \<in> set (users d') \<and> usr_ID v \<noteq> usr_ID u \<and> usr_Username v \<noteq> name)"
proof (cases "query_user d (\<lambda>u. usr_OIDCSubject u = Some sub)")
  case (Inl e)
  with assms(1) have e: "e = NotFound" by (cases e) (auto simp: UpsertOIDCUser_def)
  with Inl assms(1) show ?thesis
    by (auto simp: UpsertOIDCUser_def Let_def dest!: insert_user_Inr)
next
  case (Inr w)
  note w = query_user_cases(1) [OF Inr]
  have other: "usr_ID v \<noteq> usr_ID w" if "usr_OIDCSubject v \<noteq> Some sub" "v \<in> set (users d)" for v
    using that w users_inv_same_ID [of "users d" v w] assms(2) by (auto simp: db_inv_def)
  from Inr assms(1) have free: "\<And>r. r \<in> set (users d) \<Longrightarrow> usr_ID r \<noteq> usr_ID w \<Longrightarrow> usr_Username r \<noteq> name"
    and u: "u = w\<lparr>usr_Username := name, usr_Role := role\<rparr>"
    and d': "users d' = map (\<lambda>r. if usr_ID r = usr_ID w
         then r\<lparr>usr_Username := name, usr_Role := role, usr_UpdatedAt := sql_now now\<rparr> else r) (users d)"
    by (auto simp: UpsertOIDCUser_def list_ex_iff split: if_splits)
  have "v \<in> set (users d')" if "usr_OIDCSubject v \<noteq> Some sub" "v \<in> set (users d)" for v
    using that other by (force simp: d')
  moreover have "w\<lparr>usr_Username := name, usr_Role := role, usr_UpdatedAt := sql_now now\<rparr> \<in> set (users d')"
    using w by (force simp: d')
  ultimately show ?thesis
    using w other free u by (auto intro!: bexI [rotated])
qed

text \<open>C20. A login through OIDC cannot take over an account: when it succeeds, the account it
  returns carries the subject of the token, with the username and role of the token both in
  the result and in the table, and the row of every account with another subject or with a
  password stays as it was. A username that belongs to such an account makes it fail.\<close>

theorem oidc_login_no_takeover:
  assumes "db_inv d"
  shows "(\<forall>u d'. UpsertOIDCUser d rnd now sub name role = Inr (u, d') \<longrightarrow>
      usr_OIDCSubject u = Some sub \<and> usr_Username u = name \<and> usr_Role u = role \<and>
      (\<exists>v \<in> set (users d'). usr_ID v = usr_ID u \<and> usr_OIDCSubject v = Some sub \<and>
         usr_Username v = name \<and> usr_Role v = role) \<and>
      (\<forall>v \<in> set (users d). usr_OIDCSubject v \<noteq> Some sub \<longrightarrow> v \<in> set (users d') \<and> usr_ID v \<noteq> usr_ID u)) \<and>
    (\<forall>v \<in> set (users d). usr_Username v = name \<and> usr_OIDCSubject v \<noteq> Some sub \<longrightarrow>
      \<not> is_ok (UpsertOIDCUser d rnd now sub name role))"
  using UpsertOIDCUser_Inr [OF _ assms, of rnd now sub name role]
  by (fastforce simp: is_ok_iff)

theorem oidc_login_no_takeover_witness:
  "\<not> is_ok (UpsertOIDCUser demo_db ''r'' 0 ''sub9'' ''ann'' ''admin'') \<and>
   is_ok (UpsertOIDCUser demo_db ''r'' 0 ''sub2'' ''rob'' ''admin'')"
proof -
  have "\<not> is_ok (UpsertOIDCUser demo_db ''r'' 0 ''sub9'' ''ann'' ''admin'')"
    using oidc_login_no_takeover [OF demo_db_inv, of "''r''" 0 "''sub9''" "''ann''" "''admin''"]
    by (simp add: demo_defs)
  then show ?thesis by (simp add: UpsertOIDCUser_def query_user_def demo_defs)
qed

subsection \<open>The audit log\<close>

lemma text_le_utc [simp]: "text_le (utc t) (utc u) \<longleftrightarrow> t \<le> u"
  by (auto simp: text_le_def utc_def wall_clock_def)

lemma count_sort_key [simp]: "count_list (sort_key k xs) x = count_list xs x"
  by (simp add: count_list_eq_length_filter filter_sort)

lemma count_filter: "count_list (filter P xs) x = (if P x then count_list xs x else 0)"
  by (induction xs) auto

text \<open>C28. A page of the audit log is a slice of the matching entries, each as often as the log has
  it, put newest first: the entries after the offset, up to the limit (100 where it is absent, at
  most 500); and \<open>CountAuditLog\<close> gives the number of all of them for the same filter. Bounds given
  in UTC select the instants from \<open>since\<close> to \<open>until\<close>, both included. A bound with another offset
  is compared by its wall clock: with \<open>since\<close> east of UTC, entries from that instant up to the
  offset later are left out.\<close>

theorem audit_page:
  assumes "ListAuditLog d f = Inr es" and "CountAuditLog d f = Inr n_all"
  shows "\<exists>all. (\<forall>e. count_list all e = (if audit_matches f e then count_list (audit_log d) e else 0)) \<and>
    sorted (map (\<lambda>e. - aud_Timestamp e) all) \<and> n_all = length all \<and>
    es = take (nat (if flt_Limit f \<le> 0 then 100 else min (flt_Limit f) 500)) (drop (nat (flt_Offset f)) all) \<and>
    (\<forall>since til. flt_Since f = utc since \<longrightarrow> flt_Until f = utc til \<longrightarrow>
       (\<forall>e \<in> set (audit_log d). e \<in> set all \<longleftrightarrow>
          (flt_UserID f = [] \<or> aud_UserID e = flt_UserID f) \<and> (flt_Action f = [] \<or> aud_Action e = flt_Action f) \<and>
          (since = zero_time \<or> since \<le> aud_Timestamp e) \<and> (til = zero_time \<or> aud_Timestamp e \<le> til))) \<and>
    (\<forall>e. stm_instant (flt_Since f) \<noteq> zero_time \<longrightarrow> 0 < stm_offset (flt_Since f) \<longrightarrow>
       aud_Timestamp e \<le> stm_instant (flt_Since f) + stm_offset (flt_Since f) * 1000000000 \<longrightarrow> e \<notin> set all)"
proof (intro exI conjI)
  let ?all = "sort_key (\<lambda>e. - aud_Timestamp e) (filter (audit_matches f) (audit_log d))"
  show "\<forall>e. count_list ?all e = (if audit_matches f e then count_list (audit_log d) e else 0)"
    by (simp add: count_filter)
  show "sorted (map (\<lambda>e. - aud_Timestamp e) ?all)" by simp
  show "n_all = length ?all" using assms(2) by (auto simp: CountAuditLog_def split: if_splits)
  show "es = take (nat (if flt_Limit f \<le> 0 then 100 else min (flt_Limit f) 500)) (drop (nat (flt_Offset f)) ?all)"
    using assms(1) by (auto simp: ListAuditLog_def audit_limit_def Let_def min_def split: if_splits)
  show "\<forall>since til. flt_Since f = utc since \<longrightarrow> flt_Until f = utc til \<longrightarrow>
       (\<forall>e \<in> set (audit_log d). e \<in> set ?all \<longleftrightarrow>
          (flt_UserID f = [] \<or> aud_UserID e = flt_UserID f) \<and> (flt_Action f = [] \<or> aud_Action e = flt_Action f) \<and>
          (since = zero_time \<or> since \<le> aud_Timestamp e) \<and> (til = zero_time \<or> aud_Timestamp e \<le> til))"
    by (auto simp: audit_matches_def utc_def [THEN arg_cong, where f = stm_instant])
  show "\<forall>e. stm_instant (flt_Since f) \<noteq> zero_time \<longrightarrow> 0 < stm_offset (flt_Since f) \<longrightarrow>
       aud_Timestamp e \<le> stm_instant (flt_Since f) + stm_offset (flt_Since f) * 1000000000 \<longrightarrow> e \<notin> set ?all"
    by (auto simp: audit_matches_def text_le_def wall_clock_def utc_def offset_rank_def)
qed

definition demo_filter :: audit_filter where
  "demo_filter = \<lparr>flt_UserID = ''u1'', flt_Action = [], flt_Since = utc 6, flt_Until = utc zero_time,
     flt_Limit = 1, flt_Offset = 0\<rparr>"

theorem audit_page_witness:
  "ListAuditLog demo_db demo_filter = Inr [demo_audit ''b'' 7] \<and> CountAuditLog demo_db demo_filter = Inr 1 \<and>
   (\<exists>all. [demo_audit ''b'' 7] = take (nat 1) (drop (nat 0) all) \<and> demo_audit ''b'' 7 \<in> set all \<and> demo_audit ''a'' 5 \<notin> set all)"
proof -
  have l: "ListAuditLog demo_db demo_filter = Inr [demo_audit ''b'' 7]" and c: "CountAuditLog demo_db demo_filter = Inr 1"
    by code_simp+
  have a: "demo_audit ''a'' 5 \<in> set (audit_log demo_db)" "demo_audit ''b'' 7 \<in> set (audit_log demo_db)"
    by (simp_all add: demo_db_def)
  have f: "flt_Since demo_filter = utc 6" "flt_Until demo_filter = utc zero_time" "flt_UserID demo_filter = ''u1''"
    "flt_Action demo_filter = []" "flt_Limit demo_filter = 1" "flt_Offset demo_filter = 0"
    by (simp_all add: demo_filter_def)
  from audit_page [OF l c] obtain all where
    es: "[demo_audit ''b'' 7] = take (nat (if flt_Limit demo_filter \<le> 0 then 100 else min (flt_Limit demo_filter) 500))
       (drop (nat (flt_Offset demo_filter)) all)" and
    sel: "\<forall>since til. flt_Since demo_filter = utc since \<longrightarrow> flt_Until demo_filter = utc til \<longrightarrow>
       (\<forall>e \<in> set (audit_log demo_db). e \<in> set all \<longleftrightarrow>
          (flt_UserID demo_filter = [] \<or> aud_UserID e = flt_UserID demo_filter) \<and>
          (flt_Action demo_filter = [] \<or> aud_Action e = flt_Action demo_filter) \<and>
          (since = zero_time \<or> since \<le> aud_Timestamp e) \<and> (til = zero_time \<or> aud_Timestamp e \<le> til))"
    by (elim exE conjE)
  note sel' = sel [rule_format, OF f(1,2)]
  have "demo_audit ''b'' 7 \<in> set all" "demo_audit ''a'' 5 \<notin> set all"
    unfolding sel' [OF a(1)] sel' [OF a(2)] by (simp_all add: f demo_audit_def zero_time_def)
  with es l c show ?thesis by (auto simp: f)
qed

subsection \<open>Default templates\<close>

abbreviation has_global :: "db \<Rightarrow> string \<Rightarrow> bool" where
  "has_global d name \<equiv> list_ex (\<lambda>t. tpl_Name t = name \<and> tpl_ServerID t = None) (session_templates d)"

lemma seed_loop_extends:
  "\<exists>new. snd (seed_loop d now ts rnds) = d\<lparr>session_templates := session_templates d @ new\<rparr> \<and>
     (\<forall>t \<in> set new. tpl_ServerID t = None \<and> \<not> has_global d (tpl_Name t) \<and>
        (tpl_Name t, tpl_Command t, tpl_Workdir t) \<in> set ts) \<and> distinct (map tpl_Name new)"
proof (induction d now ts rnds rule: seed_loop.induct)
  case (1 d now rnds)
  show ?case by (rule exI [of _ "[]"]) simp
next
  case (2 d now name command workdir ts rnds)
  let ?rnd = "case rnds of [] \<Rightarrow> [] | r # _ \<Rightarrow> r"
  let ?t = "\<lparr>tpl_ID = newID ?rnd, tpl_Name = name, tpl_Command = command, tpl_Workdir = workdir,
      tpl_ServerID = None, tpl_CreatedAt = sql_now now\<rparr>"
  consider (stop) "snd (seed_loop d now ((name, command, workdir) # ts) rnds) = d"
    | (skip) "has_global d name" "seed_loop d now ((name, command, workdir) # ts) rnds = seed_loop d now ts rnds"
        "\<not> fault d (QTemplateCount name)"
    | (ins) "\<not> has_global d name" "\<not> fault d (QTemplateCount name)" "\<not> fault d (XInsertTemplate name)"
        "\<not> list_ex (\<lambda>t. tpl_ID t = newID ?rnd) (session_templates d)"
  proof -
    show ?thesis
    proof (cases "fault d (QTemplateCount name) \<or> \<not> has_global d name \<and>
        (fault d (XInsertTemplate name) \<or> list_ex (\<lambda>t. tpl_ID t = newID ?rnd) (session_templates d))")
      case True
      then have "snd (seed_loop d now ((name, command, workdir) # ts) rnds) = d" by (auto simp: Let_def)
      then show ?thesis by (rule stop)
    next
      case False
      then show ?thesis by (cases "has_global d name") (auto intro: skip ins)
    qed
  qed
  then show ?case
  proof cases
    case stop
    then show ?thesis by (intro exI [of _ "[]"]) (simp only: append_Nil2, simp)
  next
    case skip
    with "2.IH"(1) [OF refl] show ?thesis by auto
  next
    case ins
    from "2.IH"(2) [OF refl ins(2,1,3,4)] obtain new where new:
      "snd (seed_loop (d\<lparr>session_templates := session_templates d @ [?t]\<rparr>) now ts (tl rnds)) =
        d\<lparr>session_templates := session_templates d @ [?t] @ new\<rparr>"
      "\<forall>t \<in> set new. tpl_ServerID t = None \<and> \<not> has_global (d\<lparr>session_templates := session_templates d @ [?t]\<rparr>) (tpl_Name t) \<and>
        (tpl_Name t, tpl_Command t, tpl_Workdir t) \<in> set ts" "distinct (map tpl_Name new)"
      by auto
    then show ?thesis
      using ins by (intro exI [of _ "?t # new"]) (auto simp: Let_def)
  qed
qed

lemma seed_loop_complete:
  "fst (seed_loop d now ts rnds) = None \<Longrightarrow> (name, c, w) \<in> set ts \<or> has_global d name \<Longrightarrow>
    has_global (snd (seed_loop d now ts rnds)) name"
  by (induction d now ts rnds rule: seed_loop.induct) (auto simp: Let_def split: if_splits)

lemma seed_loop_noop:
  assumes "\<And>n c w. (n, c, w) \<in> set ts \<Longrightarrow> has_global d n \<and> \<not> fault d (QTemplateCount n)"
  shows "seed_loop d now ts rnds = (None, d)"
  using assms
proof (induction d now ts rnds rule: seed_loop.induct)
  case (2 d now name command workdir ts rnds)
  have "has_global d name" "\<not> fault d (QTemplateCount name)" using "2.prems" [of name command workdir] by simp_all
  moreover have "has_global d n \<and> \<not> fault d (QTemplateCount n)" if "(n, c, w) \<in> set ts" for n c w
    using "2.prems" [of n c w] that by simp
  ultimately show ?case using "2.IH"(1) [OF refl] by simp
qed simp

text \<open>Seeding only adds global templates, each a default one of a name that was absent, no
  name twice; when it reports no error every default template is there, and seeding again
  changes nothing.\<close>

lemma seed_templates_idempotent:
  assumes "SeedTemplates d now rnds = (None, d')" and "\<And>n. \<not> fault d (QTemplateCount n)"
  shows "(\<exists>new. d' = d\<lparr>session_templates := session_templates d @ new\<rparr> \<and> distinct (map tpl_Name new) \<and>
      (\<forall>t \<in> set new. tpl_ServerID t = None \<and> \<not> has_global d (tpl_Name t) \<and>
         (tpl_Name t, tpl_Command t, tpl_Workdir t) \<in> set defaultTemplates)) \<and>
    (\<forall>(n, c, w) \<in> set defaultTemplates. has_global d' n) \<and>
    SeedTemplates d' now' rnds' = (None, d')"
proof -
  obtain new where new: "d' = d\<lparr>session_templates := session_templates d @ new\<rparr>" "distinct (map tpl_Name new)"
      "\<forall>t \<in> set new. tpl_ServerID t = None \<and> \<not> has_global d (tpl_Name t) \<and>
         (tpl_Name t, tpl_Command t, tpl_Workdir t) \<in> set defaultTemplates"
    using seed_loop_extends [of d now defaultTemplates rnds] assms(1) by (auto simp: SeedTemplates_def)
  have all: "has_global d' n" if "(n, c, w) \<in> set defaultTemplates" for n c w
    using seed_loop_complete [of d now defaultTemplates rnds n c w] assms(1) that
    by (simp add: SeedTemplates_def)
  have "SeedTemplates d' now' rnds' = (None, d')"
    unfolding SeedTemplates_def by (rule seed_loop_noop) (use all assms(2) new(1) in auto)
  with new all show ?thesis by auto
qed

lemma seed_templates_example:
  "let d = snd (SeedTemplates (empty_db no_fault) 0 [''a'', ''b'', ''c'', ''d'', ''e'']) in
     length (session_templates d) = 5 \<and> SeedTemplates d 9 [] = (None, d)"
proof -
  let ?r = "SeedTemplates (empty_db no_fault) 0 [''a'', ''b'', ''c'', ''d'', ''e'']"
  have "fst ?r = None \<and> length (session_templates (snd ?r)) = 5" by code_simp
  then have r: "?r = (None, snd ?r) \<and> length (session_templates (snd ?r)) = 5"
    by (simp add: prod_eq_iff)
  have "SeedTemplates (snd ?r) 9 [] = (None, snd ?r)"
    using seed_templates_idempotent [of "empty_db no_fault" 0 "[''a'', ''b'', ''c'', ''d'', ''e'']" "snd ?r" 9 "[]"] r
    by (simp add: empty_db_def no_fault_def)
  with r show ?thesis by (simp add: Let_def)
qed

end
