(* ===== verification/Auth.thy ===== *)
theory Auth
  imports Http Store
begin

text \<open>
  Authentication, \<open>internal/auth/auth.go\<close> and \<open>local.go\<close>: the session and CSRF cookies, the
  signing and checking of session tokens, the middlewares \<open>CSRFProtect\<close>, \<open>RequireAuth\<close> and
  \<open>RequireAdmin\<close>, and the handlers for login, first-time setup and logout.

  The JWT library and bcrypt are not part of the repository: they are the records of functions
  \<open>jwt_lib\<close> and \<open>bcrypt_lib\<close>, arguments of the definitions that use them; what a theorem
  needs of them is one of the named hypotheses below. A handler gets the time and the random
  values it draws in a record \<open>draws\<close>: time does not pass while one handler runs.
\<close>

section \<open>State and inputs\<close>

text \<open>The state the handlers share: the database and the metric \<open>AuthFailuresTotal\<close>, which is
  nil (\<open>None\<close>) until the metrics are registered. Later components extend this record.\<close>

record core =
  st_db :: db
  m_auth_failures :: "(string \<Rightarrow> nat) option"

record draws =
  dr_now :: time
  dr_id :: bytes
  dr_audit :: int
  dr_csrf :: "bytes option"

section \<open>Libraries\<close>

datatype jwt_method = HMAC | OtherMethod
datatype jwt_error = ErrTokenExpired | ErrTokenOther

record jwt_lib =
  jwt_sign :: "claims \<Rightarrow> string \<Rightarrow> string option"
  jwt_parse :: "string \<Rightarrow> (jwt_method \<Rightarrow> string option) \<Rightarrow> time \<Rightarrow> jwt_error + claims \<times> bool"

record bcrypt_lib =
  bc_generate :: "string \<Rightarrow> string option"
  bc_compare :: "string \<Rightarrow> string \<Rightarrow> bool"

section \<open>Cookies (auth.go)\<close>

definition SessionTTL :: duration where
  "SessionTTL = 24 * 3600 * 1000000000"

definition sessionCookieMaxAge :: int where
  "sessionCookieMaxAge = 86400"

definition SetSessionCookie :: "string \<Rightarrow> same_site \<Rightarrow> response \<Rightarrow> response" where
  "SetSessionCookie token sameSite rs =
     add_cookie \<lparr>ck_Name = ''session'', ck_Value = token, ck_Path = ''/'', ck_HttpOnly = True,
       ck_Secure = True, ck_SameSite = sameSite, ck_MaxAge = sessionCookieMaxAge\<rparr> rs"

definition SetCSRFCookie :: "bytes option \<Rightarrow> response \<Rightarrow> string option \<times> response" where
  "SetCSRFCookie rnd rs =
     (case rnd of
        None \<Rightarrow> (None, rs)
      | Some b \<Rightarrow>
          (let token = hex_encode (take 32 b) in
           (Some token,
            add_cookie \<lparr>ck_Name = ''csrf'', ck_Value = token, ck_Path = ''/'', ck_HttpOnly = False,
              ck_Secure = True, ck_SameSite = SameSiteStrict, ck_MaxAge = sessionCookieMaxAge\<rparr> rs)))"

definition ReadCSRFCookie :: "request \<Rightarrow> string" where
  "ReadCSRFCookie r = (case get_cookie r ''csrf'' of None \<Rightarrow> [] | Some v \<Rightarrow> v)"

definition ClearSessionCookie :: "response \<Rightarrow> response" where
  "ClearSessionCookie rs =
     add_cookie \<lparr>ck_Name = ''session'', ck_Value = [], ck_Path = ''/'', ck_HttpOnly = True,
       ck_Secure = True, ck_SameSite = SameSiteStrict, ck_MaxAge = - 1\<rparr> rs"

section \<open>CSRF protection (auth.go)\<close>

text \<open>The comparison is in constant time in the source; its result is that of equality.\<close>

definition csrf_mismatch :: "string \<Rightarrow> string \<Rightarrow> bool" where
  "csrf_mismatch cookie sent \<longleftrightarrow> cookie = [] \<or> sent = [] \<or> sent \<noteq> cookie"

definition CSRFProtect :: "string list \<Rightarrow> 's handler \<Rightarrow> 's handler" where
  "CSRFProtect exempt nxt r s =
     (if list_ex (HasPrefix (rq_Path r)) exempt then nxt r s
      else if HasPrefix (rq_Path r) ''/ws/'' then
        (if get_cookie r ''session'' = None then nxt r s
         else if csrf_mismatch (ReadCSRFCookie r) (rq_Query r ''csrf'')
         then (jsonError ''csrf token mismatch'' 403, s)
         else nxt r s)
      else if rq_Method r = ''GET'' \<or> rq_Method r = ''HEAD'' \<or> rq_Method r = ''OPTIONS'' then nxt r s
      else if get_cookie r ''session'' = None then nxt r s
      else if csrf_mismatch (ReadCSRFCookie r) (rq_Header r ''X-CSRF-Token'')
      then (jsonError ''csrf token mismatch'' 403, s)
      else nxt r s)"

section \<open>Session tokens (auth.go)\<close>

text \<open>\<open>jwt.NewNumericDate\<close> truncates to seconds.\<close>

definition NewNumericDate :: "time \<Rightarrow> time" where
  "NewNumericDate t = t - t mod 1000000000"

definition SignJWT :: "jwt_lib \<Rightarrow> claims \<Rightarrow> string \<Rightarrow> duration \<Rightarrow> time \<Rightarrow> string option" where
  "SignJWT jl c secret ttl now =
     jwt_sign jl (c\<lparr>cl_ExpiresAt := Some (NewNumericDate (now + ttl)),
                    cl_IssuedAt := Some (NewNumericDate now)\<rparr>) secret"

definition hmac_key :: "string \<Rightarrow> jwt_method \<Rightarrow> string option" where
  "hmac_key secret meth = (if meth = HMAC then Some secret else None)"

definition VerifyJWT :: "jwt_lib \<Rightarrow> string \<Rightarrow> string \<Rightarrow> time \<Rightarrow> jwt_error + claims" where
  "VerifyJWT jl tokenStr secret now =
     (case jwt_parse jl tokenStr (hmac_key secret) now of
        Inl e \<Rightarrow> Inl e
      | Inr (c, valid) \<Rightarrow> if \<not> valid then Inl ErrTokenOther else Inr c)"

definition SetUser :: "request \<Rightarrow> claims \<Rightarrow> request" where
  "SetUser r c = r\<lparr>rq_User := Some c\<rparr>"

definition jwtFailureReason :: "jwt_error \<Rightarrow> string" where
  "jwtFailureReason e = (if e = ErrTokenExpired then ''token_expired'' else ''token_invalid'')"

definition count_auth_failure :: "string \<Rightarrow> 'a core_scheme \<Rightarrow> 'a core_scheme" where
  "count_auth_failure reason s =
     s\<lparr>m_auth_failures := map_option (\<lambda>m. m(reason := Suc (m reason))) (m_auth_failures s)\<rparr>"

definition RequireAuth ::
  "jwt_lib \<Rightarrow> string \<Rightarrow> time \<Rightarrow> ('a core_scheme) handler \<Rightarrow> ('a core_scheme) handler" where
  "RequireAuth jl secret now nxt r s =
     (case get_cookie r ''session'' of
        None \<Rightarrow> (jsonError ''unauthorized'' 401, s)
      | Some v \<Rightarrow>
          (case VerifyJWT jl v secret now of
             Inl e \<Rightarrow> (jsonError ''unauthorized'' 401, count_auth_failure (jwtFailureReason e) s)
           | Inr c \<Rightarrow> nxt (SetUser r c) s))"

definition RequireAdmin ::
  "jwt_lib \<Rightarrow> string \<Rightarrow> time \<Rightarrow> ('a core_scheme) handler \<Rightarrow> ('a core_scheme) handler" where
  "RequireAdmin jl secret now nxt r s =
     (case get_cookie r ''session'' of
        None \<Rightarrow> (jsonError ''unauthorized'' 401, s)
      | Some v \<Rightarrow>
          (case VerifyJWT jl v secret now of
             Inl e \<Rightarrow> (jsonError ''unauthorized'' 401, count_auth_failure (jwtFailureReason e) s)
           | Inr c \<Rightarrow>
               if cl_Role c \<noteq> RoleAdmin then (jsonError ''forbidden'' 403, s)
               else nxt (SetUser r c) s))"

section \<open>Logout (auth.go)\<close>

definition empty_entry :: audit_entry where
  "empty_entry = \<lparr>aud_ID = [], aud_Timestamp = zero_time, aud_UserID = [], aud_Username = [],
     aud_Action = [], aud_TargetType = [], aud_TargetID = [], aud_Details = [], aud_IPAddress = []\<rparr>"

text \<open>The best-effort write of an audit entry: an error is logged and dropped.\<close>

definition write_audit :: "draws \<Rightarrow> audit_entry \<Rightarrow> 'a core_scheme \<Rightarrow> 'a core_scheme" where
  "write_audit dr e s = s\<lparr>st_db := after (st_db s) (LogAudit (st_db s) (dr_now dr) (dr_audit dr) e)\<rparr>"

text \<open>\<open>Logout\<close>, with the store it is always given.\<close>

definition Logout :: "draws \<Rightarrow> ('a core_scheme) handler" where
  "Logout dr r s =
     (let entry = empty_entry\<lparr>aud_Action := AuditAuthLogout, aud_IPAddress := clientIPAuth r\<rparr>;
          entry' = (case rq_User r of
                      None \<Rightarrow> entry
                    | Some u \<Rightarrow> entry\<lparr>aud_UserID := cl_UserID u, aud_Username := cl_Username u\<rparr>) in
      (ClearSessionCookie (reply 200 status_ok), write_audit dr entry' s))"

section \<open>Local login (local.go)\<close>

definition logAuthAudit ::
  "draws \<Rightarrow> request \<Rightarrow> string \<Rightarrow> string \<Rightarrow> string \<Rightarrow> 'a core_scheme \<Rightarrow> 'a core_scheme" where
  "logAuthAudit dr r action userID username s =
     write_audit dr (empty_entry\<lparr>aud_Action := action, aud_UserID := userID, aud_Username := username,
       aud_IPAddress := clientIPFromRequest r\<rparr>) s"

definition loginRequest :: "(string \<times> field_kind) list" where
  "loginRequest = [(''username'', FString), (''password'', FString)]"

definition user_claims :: "user \<Rightarrow> claims" where
  "user_claims u = \<lparr>cl_UserID = usr_ID u, cl_Username = usr_Username u, cl_Role = usr_Role u,
     cl_ExpiresAt = None, cl_IssuedAt = None\<rparr>"

definition login_body :: "user \<Rightarrow> json" where
  "login_body u = JObj [(''role'', JStr (usr_Role u)), (''status'', JStr ''ok''), (''username'', JStr (usr_Username u))]"

text \<open>
  The end of \<open>HandleLogin\<close>, \<open>HandleSetup\<close> and the OIDC callback: sign a token for the user
  and set both cookies. A failing random source is reported after the session cookie is set.
\<close>

definition issue_session ::
  "jwt_lib \<Rightarrow> string \<Rightarrow> draws \<Rightarrow> user \<Rightarrow> same_site \<Rightarrow> response \<Rightarrow> response + response" where
  "issue_session jl secret dr u sameSite rs =
     (case SignJWT jl (user_claims u) secret SessionTTL (dr_now dr) of
        None \<Rightarrow> Inl (rs\<lparr>rs_Code := 500, rs_Body := error_body ''internal error''\<rparr>)
      | Some token \<Rightarrow>
          (case SetCSRFCookie (dr_csrf dr) (SetSessionCookie token sameSite rs) of
             (None, rs') \<Rightarrow> Inl (rs'\<lparr>rs_Code := 500, rs_Body := error_body ''internal error''\<rparr>)
           | (Some _, rs') \<Rightarrow> Inr rs'))"

definition HandleLogin :: "jwt_lib \<Rightarrow> bcrypt_lib \<Rightarrow> string \<Rightarrow> draws \<Rightarrow> ('a core_scheme) handler" where
  "HandleLogin jl bl secret dr r s =
     (let req = decode_struct loginRequest (rq_JSON r) in
      if dec_err req then (jsonError ''invalid request'' 400, s)
      else case GetUserByUsername (st_db s) (dec_str req ''username'') of
        Inl _ \<Rightarrow>
          (jsonError ''invalid credentials'' 401,
           logAuthAudit dr r AuditAuthLoginFailed [] (dec_str req ''username'')
             (count_auth_failure ''invalid_credentials'' s))
      | Inr u \<Rightarrow>
          if \<not> bc_compare bl (usr_PasswordHash u) (dec_str req ''password'') then
            (jsonError ''invalid credentials'' 401,
             logAuthAudit dr r AuditAuthLoginFailed (usr_ID u) (usr_Username u)
               (count_auth_failure ''invalid_credentials'' s))
          else case issue_session jl secret dr u SameSiteStrict empty_response of
            Inl rs \<Rightarrow> (rs, s)
          | Inr rs \<Rightarrow>
              (rs\<lparr>rs_Body := login_body u\<rparr>,
               logAuthAudit dr r AuditAuthLogin (usr_ID u) (usr_Username u) s))"

definition SetupNeeded :: "'a core_scheme \<Rightarrow> bool" where
  "SetupNeeded s = (case UserCount (st_db s) of Inl _ \<Rightarrow> False | Inr n \<Rightarrow> n = 0)"

text \<open>\<open>HandleSetup\<close> after its check: two requests may both be here.\<close>

definition setup_create :: "jwt_lib \<Rightarrow> bcrypt_lib \<Rightarrow> string \<Rightarrow> draws \<Rightarrow> ('a core_scheme) handler" where
  "setup_create jl bl secret dr r s =
     (let req = decode_struct loginRequest (rq_JSON r) in
      if dec_err req then (jsonError ''invalid request'' 400, s)
      else if dec_str req ''username'' = [] \<or> dec_str req ''password'' = []
      then (jsonError ''username and password required'' 400, s)
      else case bc_generate bl (dec_str req ''password'') of
        None \<Rightarrow> (jsonError ''internal error'' 500, s)
      | Some hash \<Rightarrow>
          (case CreateUser (st_db s) (dr_id dr) (dr_now dr) (dec_str req ''username'') hash RoleAdmin of
             Inl _ \<Rightarrow> (jsonError ''failed to create user'' 500, s)
           | Inr (u, d') \<Rightarrow>
               (case issue_session jl secret dr u SameSiteStrict empty_response of
                  Inl rs \<Rightarrow> (rs, s\<lparr>st_db := d'\<rparr>)
                | Inr rs \<Rightarrow> (rs\<lparr>rs_Body := login_body u\<rparr>, s\<lparr>st_db := d'\<rparr>))))"

definition HandleSetup :: "jwt_lib \<Rightarrow> bcrypt_lib \<Rightarrow> string \<Rightarrow> draws \<Rightarrow> ('a core_scheme) handler" where
  "HandleSetup jl bl secret dr r s =
     (if \<not> SetupNeeded s then (jsonError ''setup already completed'' 403, s)
      else setup_create jl bl secret dr r s)"

section \<open>Hypotheses on the libraries\<close>

text \<open>
  \<open>jwt_genuine\<close>: a token the library accepts was made with the key that the key function
  returns for its signing method, and has not expired; \<open>made tok meth k c\<close> says that \<open>tok\<close> is
  \<open>c\<close> signed by method \<open>meth\<close> with key \<open>k\<close>. \<open>jwt_roundtrip\<close>: a token it signed is accepted
  under the same key until it expires, with the same claims.
\<close>

definition jwt_genuine :: "jwt_lib \<Rightarrow> (string \<Rightarrow> jwt_method \<Rightarrow> string \<Rightarrow> claims \<Rightarrow> bool) \<Rightarrow> bool" where
  "jwt_genuine jl made \<longleftrightarrow> (\<forall>tok kf now c. jwt_parse jl tok kf now = Inr (c, True) \<longrightarrow>
     (\<exists>meth k. kf meth = Some k \<and> made tok meth k c) \<and> (\<forall>e. cl_ExpiresAt c = Some e \<longrightarrow> now < e))"

definition jwt_roundtrip :: "jwt_lib \<Rightarrow> bool" where
  "jwt_roundtrip jl \<longleftrightarrow> (\<forall>c k tok kf now e. jwt_sign jl c k = Some tok \<longrightarrow> kf HMAC = Some k \<longrightarrow>
     cl_ExpiresAt c = Some e \<longrightarrow> now < e \<longrightarrow> jwt_parse jl tok kf now = Inr (c, True))"

text \<open>bcrypt accepts the password it hashed, and nothing for the empty string as a hash.\<close>

definition bcrypt_ok :: "bcrypt_lib \<Rightarrow> bool" where
  "bcrypt_ok bl \<longleftrightarrow> (\<forall>pw h. bc_generate bl pw = Some h \<longrightarrow> bc_compare bl h pw) \<and> (\<forall>pw. \<not> bc_compare bl [] pw)"

section \<open>Facts\<close>

text \<open>What an audit write leaves alone: everything but the log, to which it appends at most one entry.\<close>

lemma LogAudit_frame:
  "LogAudit d now rnd e = Inr d' \<Longrightarrow>
    \<exists>e'. d' = d\<lparr>audit_log := audit_log d @ [e']\<rparr> \<and> aud_Action e' = aud_Action e \<and> aud_UserID e' = aud_UserID e \<and>
      aud_Username e' = aud_Username e \<and> aud_TargetID e' = aud_TargetID e \<and> aud_IPAddress e' = aud_IPAddress e"
  by (fastforce simp: LogAudit_def Let_def split: if_splits)

lemma write_audit_frame [frame_simps]:
  "users (st_db (write_audit dr e s)) = users (st_db s)"
  "servers (st_db (write_audit dr e s)) = servers (st_db s)"
  "ssh_keys (st_db (write_audit dr e s)) = ssh_keys (st_db s)"
  "host_keys (st_db (write_audit dr e s)) = host_keys (st_db s)"
  "settings (st_db (write_audit dr e s)) = settings (st_db s)"
  "fault (st_db (write_audit dr e s)) = fault (st_db s)"
  "m_auth_failures (write_audit dr e s) = m_auth_failures s"
  by (auto simp: write_audit_def after_def dest!: LogAudit_frame split: sum.splits)

lemma write_audit_log:
  "\<exists>new. audit_log (st_db (write_audit dr e s)) = audit_log (st_db s) @ new \<and> length new \<le> 1 \<and>
     (\<forall>x \<in> set new. aud_Action x = aud_Action e \<and> aud_UserID x = aud_UserID e \<and> aud_Username x = aud_Username e)"
proof (cases "LogAudit (st_db s) (dr_now dr) (dr_audit dr) e")
  case (Inl _)
  then show ?thesis by (simp add: write_audit_def after_def)
next
  case (Inr d')
  from LogAudit_frame [OF this] Inr show ?thesis by (auto simp: write_audit_def after_def)
qed

lemma count_auth_failure_db [simp]: "st_db (count_auth_failure x s) = st_db s"
  by (simp add: count_auth_failure_def)

lemma issue_session_Inr:
  assumes "issue_session jl secret dr u ss rs = Inr rs'"
  shows "\<exists>token csrf. SignJWT jl (user_claims u) secret SessionTTL (dr_now dr) = Some token \<and> rs_Code rs' = rs_Code rs \<and>
    rs_Cookies rs' = rs_Cookies rs @
      [\<lparr>ck_Name = ''session'', ck_Value = token, ck_Path = ''/'', ck_HttpOnly = True, ck_Secure = True,
        ck_SameSite = ss, ck_MaxAge = sessionCookieMaxAge\<rparr>,
       \<lparr>ck_Name = ''csrf'', ck_Value = csrf, ck_Path = ''/'', ck_HttpOnly = False, ck_Secure = True,
        ck_SameSite = SameSiteStrict, ck_MaxAge = sessionCookieMaxAge\<rparr>]"
  using assms
  by (auto simp: issue_session_def SetCSRFCookie_def SetSessionCookie_def Let_def split: option.splits)

lemma issue_session_Inl: "issue_session jl secret dr u ss rs = Inl rs' \<Longrightarrow> rs_Code rs' = 500"
  by (auto simp: issue_session_def split: option.splits prod.splits)

text \<open>A token \<open>SignJWT\<close> made is accepted with the same identity until a second before its end.\<close>

lemma VerifyJWT_SignJWT:
  assumes "jwt_roundtrip jl" and "SignJWT jl c secret ttl now = Some tok" and "now' + 1000000000 \<le> now + ttl"
  shows "VerifyJWT jl tok secret now' = Inr (c\<lparr>cl_ExpiresAt := Some (NewNumericDate (now + ttl)),
           cl_IssuedAt := Some (NewNumericDate now)\<rparr>)"
proof -
  have "now' < NewNumericDate (now + ttl)"
    using assms(3) pos_mod_bound [of 1000000000 "now + ttl"] by (simp add: NewNumericDate_def)
  then have "jwt_parse jl tok (hmac_key secret) now' =
      Inr (c\<lparr>cl_ExpiresAt := Some (NewNumericDate (now + ttl)), cl_IssuedAt := Some (NewNumericDate now)\<rparr>, True)"
    using assms(1,2) unfolding jwt_roundtrip_def SignJWT_def by (auto simp: hmac_key_def)
  then show ?thesis by (simp add: VerifyJWT_def)
qed

lemma VerifyJWT_genuine:
  assumes "jwt_genuine jl made" and "VerifyJWT jl tok secret now = Inr c"
  shows "made tok HMAC secret c \<and> (\<forall>e. cl_ExpiresAt c = Some e \<longrightarrow> now < e)"
proof -
  have "jwt_parse jl tok (hmac_key secret) now = Inr (c, True)"
    using assms(2) by (auto simp: VerifyJWT_def split: sum.splits prod.splits if_splits)
  then obtain meth k where "hmac_key secret meth = Some k" "made tok meth k c"
      "\<forall>e. cl_ExpiresAt c = Some e \<longrightarrow> now < e"
    using assms(1) unfolding jwt_genuine_def by meson
  then show ?thesis by (auto simp: hmac_key_def split: if_splits)
qed

section \<open>Properties\<close>

subsection \<open>Protected routes\<close>

text \<open>The libraries of the witnesses: one token, for the user \<open>u1\<close> under the secret \<open>k\<close>.\<close>

definition demo_claims :: "string \<Rightarrow> claims" where
  "demo_claims role = \<lparr>cl_UserID = ''u1'', cl_Username = ''ann'', cl_Role = role,
     cl_ExpiresAt = Some 86400000000000, cl_IssuedAt = Some 0\<rparr>"

definition demo_jwt :: jwt_lib where
  "demo_jwt = \<lparr>jwt_sign = (\<lambda>c k. if c = demo_claims ''admin'' \<and> k = ''k'' then Some ''tok'' else None),
     jwt_parse = (\<lambda>tok kf now.
       if tok = ''tok'' \<and> kf HMAC = Some ''k'' \<and> now < 86400000000000 then Inr (demo_claims ''admin'', True)
       else Inl ErrTokenOther)\<rparr>"

definition demo_made :: "string \<Rightarrow> jwt_method \<Rightarrow> string \<Rightarrow> claims \<Rightarrow> bool" where
  "demo_made tok meth k c \<longleftrightarrow> tok = ''tok'' \<and> meth = HMAC \<and> k = ''k'' \<and> c = demo_claims ''admin''"

lemma demo_jwt_ok: "jwt_genuine demo_jwt demo_made" "jwt_roundtrip demo_jwt"
  by (auto simp: jwt_genuine_def jwt_roundtrip_def demo_jwt_def demo_made_def demo_claims_def split: if_splits)

definition demo_request :: "(string \<times> string) list \<Rightarrow> json option \<Rightarrow> request" where
  "demo_request cookies body = \<lparr>rq_Method = ''POST'', rq_Path = ''/api/x'', rq_Query = (\<lambda>_. []),
     rq_Header = (\<lambda>_. []), rq_Cookies = cookies, rq_RemoteAddr = ''10.0.0.1:4000'', rq_Host = ''h'',
     rq_PathValue = (\<lambda>_. []), rq_Body = [], rq_JSON = body, rq_User = None\<rparr>"

definition demo_core :: core where
  "demo_core = \<lparr>st_db = demo_db, m_auth_failures = Some (\<lambda>_. 0)\<rparr>"

text \<open>C8. A route behind \<open>RequireAuth\<close> or \<open>RequireAdmin\<close> runs its handler only for a request
  whose session cookie is an unexpired token that was made with the HMAC method and the
  server's secret (so not with another algorithm the token names), with exactly the token's
  claims as the user, and for \<open>RequireAdmin\<close> only with the admin role. Every other request
  gets 401, or 403 for a valid token without the role, no cookie, and leaves the database.\<close>

theorem protected_routes:
  assumes "jwt_genuine jl made"
  shows "((\<exists>tok c. get_cookie r ''session'' = Some tok \<and> made tok HMAC secret c \<and>
        (\<forall>e. cl_ExpiresAt c = Some e \<longrightarrow> now < e) \<and>
        RequireAuth jl secret now nxt r s = nxt (r\<lparr>rq_User := Some c\<rparr>) s) \<or>
      (\<exists>rs s'. RequireAuth jl secret now nxt r s = (rs, s') \<and> rs_Code rs = 401 \<and> rs_Cookies rs = [] \<and> st_db s' = st_db s)) \<and>
    ((\<exists>tok c. get_cookie r ''session'' = Some tok \<and> made tok HMAC secret c \<and>
        (\<forall>e. cl_ExpiresAt c = Some e \<longrightarrow> now < e) \<and> cl_Role c = RoleAdmin \<and>
        RequireAdmin jl secret now nxt r s = nxt (r\<lparr>rq_User := Some c\<rparr>) s) \<or>
      (\<exists>rs s'. RequireAdmin jl secret now nxt r s = (rs, s') \<and> (rs_Code rs = 401 \<or> rs_Code rs = 403) \<and>
         rs_Cookies rs = [] \<and> st_db s' = st_db s))"
proof (cases "get_cookie r ''session''")
  case None
  then show ?thesis by (simp add: RequireAuth_def RequireAdmin_def)
next
  case (Some tok)
  show ?thesis
  proof (cases "VerifyJWT jl tok secret now")
    case (Inl e)
    with Some show ?thesis by (simp add: RequireAuth_def RequireAdmin_def)
  next
    case (Inr c)
    with Some VerifyJWT_genuine [OF assms Inr] show ?thesis
      by (cases "cl_Role c = RoleAdmin") (simp_all add: RequireAuth_def RequireAdmin_def SetUser_def, blast+)
  qed
qed

theorem protected_routes_witness:
  "RequireAdmin demo_jwt ''k'' 5 (\<lambda>r s. (reply 200 status_ok, s)) (demo_request [(''session'', ''tok'')] None) demo_core =
     (reply 200 status_ok, demo_core) \<and>
   (let rs = fst (RequireAuth demo_jwt ''k'' 5 (\<lambda>r s. (reply 200 status_ok, s)) (demo_request [(''session'', ''bad'')] None) demo_core)
    in rs_Code rs = 401)"
proof -
  let ?h = "\<lambda>(r :: request) (s :: core). (reply 200 status_ok, s)"
  have "rs_Code (fst (RequireAuth demo_jwt ''k'' 5 ?h (demo_request [(''session'', ''bad'')] None) demo_core)) = 401"
    using protected_routes [OF demo_jwt_ok(1), of "demo_request [(''session'', ''bad'')] None" "''k''" 5 ?h demo_core]
    by (auto simp: demo_made_def get_cookie_def demo_request_def)
  then show ?thesis
    by (simp add: RequireAdmin_def get_cookie_def demo_request_def VerifyJWT_def demo_jwt_def hmac_key_def
        demo_claims_def RoleAdmin_def)
qed

text \<open>C7. Cross-site requests do nothing: with a session cookie, on a path that is not exempt, a
  request reaches the handler only if it is a GET, HEAD or OPTIONS outside \<open>/ws/\<close>, or carries
  the non-empty value of the CSRF cookie in the header \<open>X-CSRF-Token\<close> (in the query parameter
  \<open>csrf\<close> for \<open>/ws/\<close>). Otherwise it is answered 403 and the state is unchanged.\<close>

theorem csrf_guard:
  assumes "get_cookie r ''session'' \<noteq> None" and "\<not> list_ex (HasPrefix (rq_Path r)) exempt"
  shows "let sent = (if HasPrefix (rq_Path r) ''/ws/'' then rq_Query r ''csrf'' else rq_Header r ''X-CSRF-Token'');
      safe = (rq_Method r \<in> {''GET'', ''HEAD'', ''OPTIONS''} \<and> \<not> HasPrefix (rq_Path r) ''/ws/'') in
    (if safe \<or> sent \<noteq> [] \<and> get_cookie r ''csrf'' = Some sent then CSRFProtect exempt nxt r s = nxt r s
     else CSRFProtect exempt nxt r s = (jsonError ''csrf token mismatch'' 403, s))"
  using assms
  by (auto simp: CSRFProtect_def Let_def csrf_mismatch_def ReadCSRFCookie_def split: option.splits)

theorem csrf_guard_witness:
  "CSRFProtect [''/healthz''] (\<lambda>r s. (reply 200 status_ok, Suc s)) (demo_request [(''session'', ''tok''), (''csrf'', ''t'')] None) 0 =
     (jsonError ''csrf token mismatch'' 403, 0)"
  using csrf_guard [of "demo_request [(''session'', ''tok''), (''csrf'', ''t'')] None" "[''/healthz'']"
      "\<lambda>r s. (reply 200 status_ok, Suc s)" 0]
  by (simp add: demo_request_def get_cookie_def HasPrefix_def)

subsection \<open>Login\<close>

text \<open>The user query for a login request works and returns this user, whose password it is.\<close>

definition credentials_of :: "bcrypt_lib \<Rightarrow> request \<Rightarrow> db \<Rightarrow> user \<Rightarrow> bool" where
  "credentials_of bl r d u \<longleftrightarrow>
     GetUserByUsername d (dec_str (decode_struct loginRequest (rq_JSON r)) ''username'') = Inr u \<and>
     bc_compare bl (usr_PasswordHash u) (dec_str (decode_struct loginRequest (rq_JSON r)) ''password'')"

lemma HandleLogin_cases:
  obtains (bad) "dec_err (decode_struct loginRequest (rq_JSON r))"
      "HandleLogin jl bl secret dr r s = (jsonError ''invalid request'' 400, s)"
  | (denied) uid name where "\<not> dec_err (decode_struct loginRequest (rq_JSON r))" "\<forall>u. \<not> credentials_of bl r (st_db s) u"
      "HandleLogin jl bl secret dr r s = (jsonError ''invalid credentials'' 401,
         logAuthAudit dr r AuditAuthLoginFailed uid name (count_auth_failure ''invalid_credentials'' s))"
  | (failed) u rs where "\<not> dec_err (decode_struct loginRequest (rq_JSON r))" "credentials_of bl r (st_db s) u"
      "issue_session jl secret dr u SameSiteStrict empty_response = Inl rs" "HandleLogin jl bl secret dr r s = (rs, s)"
  | (granted) u rs where "\<not> dec_err (decode_struct loginRequest (rq_JSON r))" "credentials_of bl r (st_db s) u"
      "issue_session jl secret dr u SameSiteStrict empty_response = Inr rs"
      "HandleLogin jl bl secret dr r s =
         (rs\<lparr>rs_Body := login_body u\<rparr>, logAuthAudit dr r AuditAuthLogin (usr_ID u) (usr_Username u) s)"
proof (cases "dec_err (decode_struct loginRequest (rq_JSON r))")
  case True
  then show thesis by (intro bad) (simp_all add: HandleLogin_def)
next
  case ok: False
  let ?name = "dec_str (decode_struct loginRequest (rq_JSON r)) ''username''"
  let ?pw = "dec_str (decode_struct loginRequest (rq_JSON r)) ''password''"
  show thesis
  proof (cases "GetUserByUsername (st_db s) ?name")
    case (Inl e)
    with ok show thesis by (intro denied [of "[]" ?name]) (simp_all add: HandleLogin_def credentials_of_def Let_def)
  next
    case (Inr u)
    show thesis
    proof (cases "bc_compare bl (usr_PasswordHash u) ?pw")
      case False
      with ok Inr show thesis
        by (intro denied [of "usr_ID u" "usr_Username u"]) (simp_all add: HandleLogin_def credentials_of_def Let_def)
    next
      case True
      with Inr have cred: "credentials_of bl r (st_db s) u" by (simp add: credentials_of_def)
      show thesis
        by (cases "issue_session jl secret dr u SameSiteStrict empty_response")
           (use ok Inr True in \<open>auto intro: failed [OF ok cred] granted [OF ok cred] simp: HandleLogin_def Let_def\<close>)
    qed
  qed
qed

text \<open>C17. A successful login gives the session of the account whose password was given: answer
  200 comes with a session cookie (HttpOnly, Secure, SameSite=Strict) and a CSRF cookie, and
  until a second before 24 hours have passed every request with this session cookie passes
  \<open>RequireAuth\<close> as that account, with its id, name and role.\<close>

theorem login_grants_session:
  assumes "jwt_roundtrip jl" and "rs_Code (fst (HandleLogin jl bl secret dr r s)) = 200"
  shows "\<exists>u tok csrf. credentials_of bl r (st_db s) u \<and>
    rs_Cookies (fst (HandleLogin jl bl secret dr r s)) =
      [\<lparr>ck_Name = ''session'', ck_Value = tok, ck_Path = ''/'', ck_HttpOnly = True, ck_Secure = True,
        ck_SameSite = SameSiteStrict, ck_MaxAge = sessionCookieMaxAge\<rparr>,
       \<lparr>ck_Name = ''csrf'', ck_Value = csrf, ck_Path = ''/'', ck_HttpOnly = False, ck_Secure = True,
        ck_SameSite = SameSiteStrict, ck_MaxAge = sessionCookieMaxAge\<rparr>] \<and>
    (\<forall>now' nxt r' s'. get_cookie r' ''session'' = Some tok \<and> now' + 1000000000 \<le> dr_now dr + SessionTTL \<longrightarrow>
      (\<exists>c. cl_UserID c = usr_ID u \<and> cl_Username c = usr_Username u \<and> cl_Role c = usr_Role u \<and>
         RequireAuth jl secret now' nxt r' (s' :: 'a core_scheme) = nxt (r'\<lparr>rq_User := Some c\<rparr>) s'))"
proof (cases rule: HandleLogin_cases [of r jl bl secret dr s])
  case (granted u rs)
  from issue_session_Inr [OF granted(3)] obtain tok csrf where
    tok: "SignJWT jl (user_claims u) secret SessionTTL (dr_now dr) = Some tok" and
    ck: "rs_Cookies rs =
      [\<lparr>ck_Name = ''session'', ck_Value = tok, ck_Path = ''/'', ck_HttpOnly = True, ck_Secure = True,
        ck_SameSite = SameSiteStrict, ck_MaxAge = sessionCookieMaxAge\<rparr>,
       \<lparr>ck_Name = ''csrf'', ck_Value = csrf, ck_Path = ''/'', ck_HttpOnly = False, ck_Secure = True,
        ck_SameSite = SameSiteStrict, ck_MaxAge = sessionCookieMaxAge\<rparr>]"
    by (auto simp: empty_response_def)
  have "\<exists>c. cl_UserID c = usr_ID u \<and> cl_Username c = usr_Username u \<and> cl_Role c = usr_Role u \<and>
         RequireAuth jl secret now' nxt r' (s' :: 'a core_scheme) = nxt (r'\<lparr>rq_User := Some c\<rparr>) s'"
    if "get_cookie r' ''session'' = Some tok" "now' + 1000000000 \<le> dr_now dr + SessionTTL" for now' nxt r' s'
    using VerifyJWT_SignJWT [OF assms(1) tok that(2)] that(1)
    by (intro exI [of _ "(user_claims u)\<lparr>cl_ExpiresAt := Some (NewNumericDate (dr_now dr + SessionTTL)),
          cl_IssuedAt := Some (NewNumericDate (dr_now dr))\<rparr>"])
       (simp add: RequireAuth_def SetUser_def user_claims_def)
  then show ?thesis using granted ck by auto
qed (use assms issue_session_Inl in auto)

definition demo_bcrypt :: bcrypt_lib where
  "demo_bcrypt = \<lparr>bc_generate = (\<lambda>pw. Some (CHR ''h'' # pw)), bc_compare = (\<lambda>h pw. h = CHR ''h'' # pw)\<rparr>"

definition demo_login :: "string \<Rightarrow> request" where
  "demo_login name = demo_request [] (Some (JObj [(''username'', JStr name), (''Password'', JStr [])]))"

definition demo_draws :: draws where
  "demo_draws = \<lparr>dr_now = 0, dr_id = ''id'', dr_audit = 7, dr_csrf = Some ''abc''\<rparr>"

lemma demo_login_ok:
  "rs_Code (fst (HandleLogin demo_jwt demo_bcrypt ''k'' demo_draws (demo_login ''ann'') demo_core)) = 200"
  by code_simp

theorem login_grants_session_witness:
  "\<exists>u. usr_ID u = ''u1'' \<and> credentials_of demo_bcrypt (demo_login ''ann'') demo_db u"
proof -
  obtain u where "credentials_of demo_bcrypt (demo_login ''ann'') (st_db demo_core) u"
    using login_grants_session [OF demo_jwt_ok(2) demo_login_ok] by blast
  moreover have "GetUserByUsername demo_db ''ann'' = Inr (hd demo_users)"
    by (simp add: GetUserByUsername_def query_user_def demo_defs)
  moreover have "dec_str (decode_struct loginRequest (rq_JSON (demo_login ''ann''))) ''username'' = ''ann''"
    by code_simp
  ultimately show ?thesis
    by (intro exI [of _ u]) (auto simp: credentials_of_def demo_core_def demo_users_def)
qed

text \<open>When an audit entry can be written, and the entry of a login.\<close>

abbreviation audit_id :: "draws \<Rightarrow> string" where
  "audit_id dr \<equiv> fmt_x (dr_now dr) @ ''-'' @ fmt_x (dr_audit dr)"

definition audit_writable :: "draws \<Rightarrow> db \<Rightarrow> bool" where
  "audit_writable dr d \<longleftrightarrow> \<not> fault d XLogAudit \<and> (\<forall>x \<in> set (audit_log d). aud_ID x \<noteq> audit_id dr)"

lemma logAuthAudit_eq:
  "logAuthAudit dr r a uid name s = s\<lparr>st_db := (st_db s)\<lparr>audit_log := audit_log (st_db s) @
     (if audit_writable dr (st_db s)
      then [\<lparr>aud_ID = audit_id dr, aud_Timestamp = dr_now dr, aud_UserID = uid, aud_Username = name, aud_Action = a,
             aud_TargetType = [], aud_TargetID = [], aud_Details = [], aud_IPAddress = clientIPFromRequest r\<rparr>]
      else [])\<rparr>\<rparr>"
  by (auto simp: logAuthAudit_def write_audit_def LogAudit_def Let_def empty_entry_def audit_writable_def after_def list_ex_iff)

text \<open>C31. What a login does in every case. A malformed request is answered with 400. The answer is
  401, the same for an unknown name, a wrong password and a failed user query, exactly when the
  request is well-formed and the query fails, finds no user of that name or one with another
  password; otherwise it is 200, or 500 where no session can be issued. The failure counter goes
  up by one exactly for 401. Where it can be written, exactly one audit entry is added for 200 and
  for 401, with the action, the user found (the name alone where none was) and the client's
  address; nothing else changes.\<close>

theorem login_outcomes:
  "let req = decode_struct loginRequest (rq_JSON r); d = st_db s; user = GetUserByUsername d (dec_str req ''username'');
      wrong = (\<lambda>u. \<not> bc_compare bl (usr_PasswordHash u) (dec_str req ''password''));
      (uid, name) = (case user of Inr u \<Rightarrow> (usr_ID u, usr_Username u) | Inl _ \<Rightarrow> ([], dec_str req ''username''));
      (rs, s') = HandleLogin jl bl secret dr r s;
      new = (if rs_Code rs \<in> {200, 401} \<and> audit_writable dr d
             then [\<lparr>aud_ID = audit_id dr, aud_Timestamp = dr_now dr, aud_UserID = uid, aud_Username = name,
                    aud_Action = (if rs_Code rs = 200 then AuditAuthLogin else AuditAuthLoginFailed),
                    aud_TargetType = [], aud_TargetID = [], aud_Details = [], aud_IPAddress = clientIPFromRequest r\<rparr>]
             else []) in
    rs_Code rs \<in> {200, 400, 401, 500} \<and> (rs_Code rs = 400 \<longleftrightarrow> dec_err req) \<and>
    (rs_Code rs = 401 \<longleftrightarrow> rs = jsonError ''invalid credentials'' 401) \<and>
    (rs_Code rs = 401 \<longleftrightarrow> \<not> dec_err req \<and>
       (user = Inl IOError \<or> user = Inl NotFound \<or> (\<exists>u. user = Inr u \<and> wrong u))) \<and>
    s' = (if rs_Code rs = 401 then count_auth_failure ''invalid_credentials'' s else s)\<lparr>st_db := d\<lparr>audit_log := audit_log d @ new\<rparr>\<rparr>"
proof -
  let ?req = "decode_struct loginRequest (rq_JSON r)"
  let ?user = "GetUserByUsername (st_db s) (dec_str ?req ''username'')"
  note code = jsonError_def reply_def empty_response_def
  show ?thesis
  proof (cases "dec_err ?req")
    case True
    then show ?thesis by (simp add: HandleLogin_def Let_def code split: sum.splits)
  next
    case ok: False
    show ?thesis
    proof (cases ?user)
      case (Inl e)
      then have "e = IOError \<or> e = NotFound"
        by (auto simp: GetUserByUsername_def query_user_def split: if_splits option.splits)
      with ok Inl show ?thesis by (auto simp: HandleLogin_def Let_def code logAuthAudit_eq)
    next
      case (Inr u)
      show ?thesis
      proof (cases "bc_compare bl (usr_PasswordHash u) (dec_str ?req ''password'')")
        case False
        with ok Inr show ?thesis by (simp add: HandleLogin_def Let_def code logAuthAudit_eq)
      next
        case True
        have ne: "rs_Code rs \<noteq> 401 \<Longrightarrow> rs \<noteq> jsonError ''invalid credentials'' 401" for rs
          by (auto simp: code)
        show ?thesis
        proof (cases "issue_session jl secret dr u SameSiteStrict empty_response")
          case (Inl rs)
          then have "rs_Code rs = 500" by (simp add: issue_session_Inl)
          with ok Inr True Inl ne [of rs] show ?thesis by (simp add: HandleLogin_def Let_def)
        next
          case issued: (Inr rs)
          then have "rs_Code rs = 200" using issue_session_Inr [OF issued] by (auto simp: empty_response_def)
          with ok Inr True issued ne [of "rs\<lparr>rs_Body := login_body u\<rparr>"] show ?thesis
            by (simp add: HandleLogin_def Let_def logAuthAudit_eq)
        qed
      qed
    qed
  qed
qed

subsection \<open>First-time setup\<close>

abbreviation setup_field :: "request \<Rightarrow> string \<Rightarrow> string" where
  "setup_field r f \<equiv> dec_str (decode_struct loginRequest (rq_JSON r)) f"

lemma SetupNeeded_iff: "SetupNeeded s \<longleftrightarrow> \<not> fault (st_db s) QUserCount \<and> users (st_db s) = []"
  by (auto simp: SetupNeeded_def UserCount_def split: sum.splits if_splits)

text \<open>Success of \<open>setup_create\<close>, and what it depends on besides the state.\<close>

definition setup_ready :: "jwt_lib \<Rightarrow> bcrypt_lib \<Rightarrow> string \<Rightarrow> draws \<Rightarrow> request \<Rightarrow> bool" where
  "setup_ready jl bl secret dr r \<longleftrightarrow> \<not> dec_err (decode_struct loginRequest (rq_JSON r)) \<and>
     setup_field r ''username'' \<noteq> [] \<and> setup_field r ''password'' \<noteq> [] \<and>
     bc_generate bl (setup_field r ''password'') \<noteq> None \<and> dr_csrf dr \<noteq> None \<and>
     SignJWT jl \<lparr>cl_UserID = newID (dr_id dr), cl_Username = setup_field r ''username'', cl_Role = RoleAdmin,
       cl_ExpiresAt = None, cl_IssuedAt = None\<rparr> secret SessionTTL (dr_now dr) \<noteq> None"

definition admin_row :: "bcrypt_lib \<Rightarrow> draws \<Rightarrow> request \<Rightarrow> user" where
  "admin_row bl dr r = \<lparr>usr_ID = newID (dr_id dr), usr_Username = setup_field r ''username'',
     usr_PasswordHash = the (bc_generate bl (setup_field r ''password'')), usr_Role = RoleAdmin,
     usr_OIDCSubject = None, usr_CreatedAt = sql_now (dr_now dr), usr_UpdatedAt = sql_now (dr_now dr)\<rparr>"

lemma setup_create_200:
  "rs_Code (fst (setup_create jl bl secret dr r s)) = 200 \<longleftrightarrow>
    setup_ready jl bl secret dr r \<and> is_ok (insert_user (st_db s) (admin_row bl dr r))"
  by (auto simp: setup_create_def setup_ready_def Let_def CreateUser_def admin_row_def user_claims_def is_ok_iff
      issue_session_def SetCSRFCookie_def SetSessionCookie_def add_cookie_def empty_response_def
      split: option.splits sum.splits)

lemma setup_create_db:
  assumes "rs_Code (fst (setup_create jl bl secret dr r s)) = 200"
  shows "insert_user (st_db s) (admin_row bl dr r) = Inr (st_db (snd (setup_create jl bl secret dr r s)))"
  using assms
  by (auto simp: setup_create_def Let_def CreateUser_def admin_row_def
      dest: issue_session_Inl split: option.splits sum.splits if_splits)

text \<open>C21. Setup answers 200 only while there is no user; it then has made exactly one, an admin
  with the given name, who can log in with the password that was given, and every later setup
  request is refused with 403 and changes nothing as long as a user exists.\<close>

theorem setup_once:
  assumes "bcrypt_ok bl" and "rs_Code (fst (HandleSetup jl bl secret dr r s)) = 200" and "\<not> fault (st_db s) QUser"
  shows "users (st_db s) = [] \<and>
    (\<exists>u. users (st_db (snd (HandleSetup jl bl secret dr r s))) = [u] \<and> usr_Role u = RoleAdmin \<and>
       usr_Username u = setup_field r ''username'' \<and>
       credentials_of bl r (st_db (snd (HandleSetup jl bl secret dr r s))) u) \<and>
    (\<forall>s' dr' r'. users (st_db s') \<noteq> [] \<longrightarrow>
       HandleSetup jl bl secret dr' r' (s' :: 'a core_scheme) = (jsonError ''setup already completed'' 403, s'))"
proof -
  have need: "SetupNeeded s" and ok: "rs_Code (fst (setup_create jl bl secret dr r s)) = 200"
    and eq: "HandleSetup jl bl secret dr r s = setup_create jl bl secret dr r s"
    using assms(2) by (auto simp: HandleSetup_def split: if_splits)
  let ?s = "snd (HandleSetup jl bl secret dr r s)" and ?u = "admin_row bl dr r"
  have d: "insert_user (st_db s) ?u = Inr (st_db ?s)" using setup_create_db [OF ok] eq by simp
  with need have us: "users (st_db ?s) = [?u]" "\<not> fault (st_db ?s) QUser"
    using insert_user_Inr [OF d] assms(3) by (simp_all add: SetupNeeded_iff)
  from ok obtain h where "bc_generate bl (setup_field r ''password'') = Some h"
    by (auto simp: setup_create_200 setup_ready_def)
  with us assms(1) have "credentials_of bl r (st_db ?s) ?u"
    by (simp add: credentials_of_def GetUserByUsername_def query_user_def admin_row_def bcrypt_ok_def)
  with need us show ?thesis
    by (auto simp: SetupNeeded_iff HandleSetup_def admin_row_def)
qed

definition demo_empty :: core where
  "demo_empty = \<lparr>st_db = empty_db no_fault, m_auth_failures = None\<rparr>"

definition demo_any_jwt :: jwt_lib where
  "demo_any_jwt = \<lparr>jwt_sign = (\<lambda>c k. Some (cl_UserID c @ k)), jwt_parse = (\<lambda>tok kf now. Inl ErrTokenOther)\<rparr>"

definition demo_setup :: "string \<Rightarrow> request" where
  "demo_setup name = demo_request [] (Some (JObj [(''username'', JStr name), (''password'', JStr ''pw'')]))"

lemma demo_bcrypt_ok: "bcrypt_ok demo_bcrypt"
  by (simp add: bcrypt_ok_def demo_bcrypt_def)

lemma demo_setup_ok:
  "rs_Code (fst (HandleSetup demo_any_jwt demo_bcrypt ''k'' demo_draws (demo_setup ''root'') demo_empty)) = 200"
  by code_simp

theorem setup_once_witness:
  "\<exists>u. users (st_db (snd (HandleSetup demo_any_jwt demo_bcrypt ''k'' demo_draws (demo_setup ''root'') demo_empty))) = [u] \<and>
     usr_Role u = RoleAdmin"
proof -
  have "\<not> fault (st_db demo_empty) QUser" by (simp add: demo_empty_def empty_db_def no_fault_def)
  from setup_once [OF demo_bcrypt_ok demo_setup_ok this] show ?thesis by blast
qed

text \<open>C32. The check of setup and the creation of its user are not one step: of two requests
  that would each succeed, with different names and ids, both do when both are checked before
  either creates its user, and the installation starts with two admins.\<close>

theorem setup_race:
  assumes "rs_Code (fst (HandleSetup jl bl secret dr1 r1 s)) = 200" and "rs_Code (fst (HandleSetup jl bl secret dr2 r2 s)) = 200"
    and "setup_field r1 ''username'' \<noteq> setup_field r2 ''username''" and "newID (dr_id dr1) \<noteq> newID (dr_id dr2)"
  shows "SetupNeeded s \<and>
    (let (rs1, s1) = setup_create jl bl secret dr1 r1 s; (rs2, s2) = setup_create jl bl secret dr2 r2 s1 in
      rs_Code rs1 = 200 \<and> rs_Code rs2 = 200 \<and> length (filter (\<lambda>u. usr_Role u = RoleAdmin) (users (st_db s2))) = 2)"
proof -
  have need: "SetupNeeded s" and ok1: "rs_Code (fst (setup_create jl bl secret dr1 r1 s)) = 200"
    and ok2: "rs_Code (fst (setup_create jl bl secret dr2 r2 s)) = 200"
    using assms(1,2) by (auto simp: HandleSetup_def split: if_splits)
  let ?s1 = "snd (setup_create jl bl secret dr1 r1 s)"
  let ?s2 = "snd (setup_create jl bl secret dr2 r2 ?s1)"
  have d1: "insert_user (st_db s) (admin_row bl dr1 r1) = Inr (st_db ?s1)" by (rule setup_create_db [OF ok1])
  then have u1: "users (st_db ?s1) = [admin_row bl dr1 r1]" and f1: "fault (st_db ?s1) = fault (st_db s)"
    using insert_user_Inr [OF d1] need by (simp_all add: SetupNeeded_iff)
  have "\<not> fault (st_db s) XInsertUser" using d1 by (auto simp: insert_user_def split: if_splits)
  with u1 f1 assms(3,4) have "is_ok (insert_user (st_db ?s1) (admin_row bl dr2 r2))"
    by (simp add: insert_user_def admin_row_def)
  with ok2 have ok: "rs_Code (fst (setup_create jl bl secret dr2 r2 ?s1)) = 200" by (simp add: setup_create_200)
  from setup_create_db [OF this] have "users (st_db ?s2) = [admin_row bl dr1 r1, admin_row bl dr2 r2]"
    using insert_user_Inr u1 by fastforce
  then show ?thesis using need ok ok1 by (simp add: case_prod_beta Let_def admin_row_def)
qed

theorem setup_race_witness:
  "let (rs1, s1) = setup_create demo_any_jwt demo_bcrypt ''k'' demo_draws (demo_setup ''root'') demo_empty;
       (rs2, s2) = setup_create demo_any_jwt demo_bcrypt ''k'' (demo_draws\<lparr>dr_id := ''xx''\<rparr>) (demo_setup ''eve'') s1 in
     rs_Code rs2 = 200 \<and> length (filter (\<lambda>u. usr_Role u = RoleAdmin) (users (st_db s2))) = 2"
proof -
  have b: "rs_Code (fst (HandleSetup demo_any_jwt demo_bcrypt ''k'' (demo_draws\<lparr>dr_id := ''xx''\<rparr>) (demo_setup ''eve'') demo_empty)) = 200"
    by code_simp
  have n: "setup_field (demo_setup ''root'') ''username'' \<noteq> setup_field (demo_setup ''eve'') ''username''" by code_simp
  have i: "newID (dr_id demo_draws) \<noteq> newID (dr_id (demo_draws\<lparr>dr_id := ''xx''\<rparr>))" by code_simp
  show ?thesis using setup_race [OF demo_setup_ok b n i] by (auto simp: case_prod_beta Let_def)
qed

end
