(* ===== verification/KeyStore.thy ===== *)
theory KeyStore
  imports Auth
begin

text \<open>
  The key stores, \<open>internal/keystore\<close>: SSH keys encrypted in the database (\<open>local.go\<close>), in
  Vault (\<open>vault.go\<close>), and behind a wrapper that can be switched while the server runs
  (\<open>swappable.go\<close>). The interface \<open>KeyStore\<close> is the locale \<open>keystore\<close> below: what a Get
  returns after a Put or a Delete; each of the three implementations is an interpretation.

  Argon2, AES-GCM and the Vault client are not part of the repository: they are the records
  \<open>crypto_lib\<close> and \<open>vault_lib\<close>, and \<open>crypto_ok\<close> and \<open>kv_laws\<close> say what is relied on. The
  Vault server's contents are part of an opaque outside world of type \<open>'w\<close>.
\<close>

section \<open>Libraries\<close>

record crypto_lib =
  argon2_IDKey :: "string \<Rightarrow> bytes \<Rightarrow> nat \<Rightarrow> nat \<Rightarrow> nat \<Rightarrow> nat \<Rightarrow> bytes"
  gcm_seal :: "bytes \<Rightarrow> bytes \<Rightarrow> bytes \<Rightarrow> bytes"
  gcm_open :: "bytes \<Rightarrow> bytes \<Rightarrow> bytes \<Rightarrow> bytes option"

record vault_client =
  vc_addr :: string
  vc_token :: string

text \<open>The client's \<open>KVv2(mount)\<close> calls: a write says whether it succeeded.\<close>

record 'w vault_lib =
  va_new :: "string \<Rightarrow> bool"
  kv_put :: "vault_client \<Rightarrow> string \<Rightarrow> string \<Rightarrow> (string \<times> string) list \<Rightarrow> 'w \<Rightarrow> bool \<times> 'w"
  kv_get :: "vault_client \<Rightarrow> string \<Rightarrow> string \<Rightarrow> 'w \<Rightarrow> (string \<rightharpoonup> json) option"
  kv_delete :: "vault_client \<Rightarrow> string \<Rightarrow> string \<Rightarrow> 'w \<Rightarrow> bool \<times> 'w"

datatype ks_error = KsNotFound | KsStore store_error | KsRandom | KsCipher | KsDecrypt | KsVault | KsNoKey | KsUnsupported

text \<open>The random bytes of a Put; \<open>None\<close> where the source fails.\<close>

record ks_rnd =
  kr_salt :: "bytes option"
  kr_nonce :: "bytes option"

section \<open>The local key store (local.go)\<close>

definition deriveKey :: "crypto_lib \<Rightarrow> string \<Rightarrow> bytes \<Rightarrow> bytes" where
  "deriveKey cl secret salt = argon2_IDKey cl secret salt 1 (64 * 1024) 4 32"

text \<open>\<open>aes.NewCipher\<close> accepts keys of 16, 24 and 32 bytes.\<close>

definition cipher_key_ok :: "bytes \<Rightarrow> bool" where
  "cipher_key_ok k \<longleftrightarrow> length k \<in> {16, 24, 32}"

definition Local_Put :: "crypto_lib \<Rightarrow> string \<Rightarrow> ks_rnd \<Rightarrow> db \<Rightarrow> string \<Rightarrow> bytes \<Rightarrow> ks_error option \<times> db" where
  "Local_Put cl secret rnd d serverID key =
     (case kr_salt rnd of
        None \<Rightarrow> (Some KsRandom, d)
      | Some s \<Rightarrow>
          (let salt = take 16 s; encKey = deriveKey cl secret salt in
           if \<not> cipher_key_ok encKey then (Some KsCipher, d)
           else case kr_nonce rnd of
             None \<Rightarrow> (Some KsRandom, d)
           | Some n \<Rightarrow>
               (let nonce = take 12 n; encrypted = gcm_seal cl encKey nonce key in
                case put_ssh_key d \<lparr>key_server = serverID, key_encrypted = encrypted, key_salt = salt, key_nonce = nonce\<rparr> of
                  Inl e \<Rightarrow> (Some (KsStore e), d)
                | Inr d' \<Rightarrow> (None, d'))))"

definition Local_Get :: "crypto_lib \<Rightarrow> string \<Rightarrow> db \<Rightarrow> string \<Rightarrow> ks_error + bytes" where
  "Local_Get cl secret d serverID =
     (case get_ssh_key d serverID of
        Inl NotFound \<Rightarrow> Inl KsNotFound
      | Inl e \<Rightarrow> Inl (KsStore e)
      | Inr row \<Rightarrow>
          (let encKey = deriveKey cl secret (key_salt row) in
           if \<not> cipher_key_ok encKey then Inl KsCipher
           else case gcm_open cl encKey (key_nonce row) (key_encrypted row) of
             None \<Rightarrow> Inl KsDecrypt
           | Some plaintext \<Rightarrow> Inr plaintext))"

definition Local_GetFromPath :: "string \<Rightarrow> ks_error + bytes" where
  "Local_GetFromPath p = Inl KsUnsupported"

definition Local_Delete :: "db \<Rightarrow> string \<Rightarrow> ks_error option \<times> db" where
  "Local_Delete d serverID =
     (case delete_ssh_key d serverID of Inl e \<Rightarrow> (Some (KsStore e), d) | Inr d' \<Rightarrow> (None, d'))"

section \<open>The Vault key store (vault.go)\<close>

record vault_ks =
  vk_client :: vault_client
  vk_secretPath :: string

definition NewVault :: "'w vault_lib \<Rightarrow> string \<Rightarrow> string \<Rightarrow> string \<Rightarrow> vault_ks option" where
  "NewVault vl addr token secretPath =
     (if \<not> va_new vl addr then None
      else Some \<lparr>vk_client = \<lparr>vc_addr = addr, vc_token = token\<rparr>, vk_secretPath = secretPath\<rparr>)"

definition keyPath :: "vault_ks \<Rightarrow> string \<Rightarrow> string" where
  "keyPath v serverID = vk_secretPath v @ ''/'' @ serverID"

definition Vault_Put :: "'w vault_lib \<Rightarrow> vault_ks \<Rightarrow> 'w \<Rightarrow> string \<Rightarrow> bytes \<Rightarrow> ks_error option \<times> 'w" where
  "Vault_Put vl v w serverID key =
     (case kv_put vl (vk_client v) ''secret'' (keyPath v serverID) [(''private_key'', key)] w of
        (ok, w') \<Rightarrow> (if ok then None else Some KsVault, w'))"

text \<open>\<open>GetFromPath\<close>, which \<open>Get\<close> repeats for the path of a server.\<close>

definition Vault_GetFromPath :: "'w vault_lib \<Rightarrow> vault_ks \<Rightarrow> 'w \<Rightarrow> string \<Rightarrow> ks_error + bytes" where
  "Vault_GetFromPath vl v w vaultPath =
     (case kv_get vl (vk_client v) ''secret'' vaultPath w of
        None \<Rightarrow> Inl KsVault
      | Some dat \<Rightarrow> (case dat ''private_key'' of Some (JStr k) \<Rightarrow> Inr k | _ \<Rightarrow> Inl KsNoKey))"

definition Vault_Get :: "'w vault_lib \<Rightarrow> vault_ks \<Rightarrow> 'w \<Rightarrow> string \<Rightarrow> ks_error + bytes" where
  "Vault_Get vl v w serverID = Vault_GetFromPath vl v w (keyPath v serverID)"

definition Vault_Delete :: "'w vault_lib \<Rightarrow> vault_ks \<Rightarrow> 'w \<Rightarrow> string \<Rightarrow> ks_error option \<times> 'w" where
  "Vault_Delete vl v w serverID =
     (case kv_delete vl (vk_client v) ''secret'' (keyPath v serverID) w of
        (ok, w') \<Rightarrow> (if ok then None else Some KsVault, w'))"

section \<open>The exchangeable key store (swappable.go)\<close>

datatype inner_ks = LocalKeyStore string | VaultKeyStore vault_ks

text \<open>The server's state with its key store: the current implementation and the outside world.\<close>

record 'w ks_state = core +
  ks_inner :: inner_ks
  world :: 'w

definition KS_Swap :: "inner_ks \<Rightarrow> ('w, 'a) ks_state_scheme \<Rightarrow> ('w, 'a) ks_state_scheme" where
  "KS_Swap ks s = s\<lparr>ks_inner := ks\<rparr>"

definition KS_Get :: "crypto_lib \<Rightarrow> 'w vault_lib \<Rightarrow> ('w, 'a) ks_state_scheme \<Rightarrow> string \<Rightarrow> ks_error + bytes" where
  "KS_Get cl vl s serverID =
     (case ks_inner s of
        LocalKeyStore secret \<Rightarrow> Local_Get cl secret (st_db s) serverID
      | VaultKeyStore v \<Rightarrow> Vault_Get vl v (world s) serverID)"

definition KS_GetFromPath :: "'w vault_lib \<Rightarrow> ('w, 'a) ks_state_scheme \<Rightarrow> string \<Rightarrow> ks_error + bytes" where
  "KS_GetFromPath vl s vaultPath =
     (case ks_inner s of
        LocalKeyStore _ \<Rightarrow> Local_GetFromPath vaultPath
      | VaultKeyStore v \<Rightarrow> Vault_GetFromPath vl v (world s) vaultPath)"

definition KS_Put ::
  "crypto_lib \<Rightarrow> 'w vault_lib \<Rightarrow> ks_rnd \<Rightarrow> ('w, 'a) ks_state_scheme \<Rightarrow> string \<Rightarrow> bytes
     \<Rightarrow> ks_error option \<times> ('w, 'a) ks_state_scheme" where
  "KS_Put cl vl rnd s serverID key =
     (case ks_inner s of
        LocalKeyStore secret \<Rightarrow>
          (case Local_Put cl secret rnd (st_db s) serverID key of (e, d') \<Rightarrow> (e, s\<lparr>st_db := d'\<rparr>))
      | VaultKeyStore v \<Rightarrow>
          (case Vault_Put vl v (world s) serverID key of (e, w') \<Rightarrow> (e, s\<lparr>world := w'\<rparr>)))"

definition KS_Delete ::
  "'w vault_lib \<Rightarrow> ('w, 'a) ks_state_scheme \<Rightarrow> string \<Rightarrow> ks_error option \<times> ('w, 'a) ks_state_scheme" where
  "KS_Delete vl s serverID =
     (case ks_inner s of
        LocalKeyStore _ \<Rightarrow> (case Local_Delete (st_db s) serverID of (e, d') \<Rightarrow> (e, s\<lparr>st_db := d'\<rparr>))
      | VaultKeyStore v \<Rightarrow> (case Vault_Delete vl v (world s) serverID of (e, w') \<Rightarrow> (e, s\<lparr>world := w'\<rparr>)))"

definition Backend :: "('w, 'a) ks_state_scheme \<Rightarrow> string" where
  "Backend s = (case ks_inner s of VaultKeyStore _ \<Rightarrow> ''vault'' | LocalKeyStore _ \<Rightarrow> ''local'')"

section \<open>Hypotheses on the libraries\<close>

text \<open>Derived keys have the length asked for, and decryption with the key and nonce of an
  encryption gives back its plaintext.\<close>

definition crypto_ok :: "crypto_lib \<Rightarrow> bool" where
  "crypto_ok cl \<longleftrightarrow> (\<forall>p s t m th n. length (argon2_IDKey cl p s t m th n) = n) \<and>
     (\<forall>k n x. gcm_open cl k n (gcm_seal cl k n x) = Some x)"

text \<open>The strings JSON carries unchanged.\<close>

function valid_utf8 :: "string \<Rightarrow> bool" where
  "valid_utf8 s = (case s of
      [] \<Rightarrow> True
    | c # _ \<Rightarrow> (rune_len s \<noteq> 1 \<or> byte_in 0 127 c) \<and> valid_utf8 (drop (rune_len s) s))"
  by pat_completeness auto
termination by (relation "measure length") (auto simp: rune_len_pos)

declare valid_utf8.simps [simp del]

text \<open>A Vault that answers: what was written is read back where it is valid text, a deleted
  path is an error or has no data, and other paths are unaffected.\<close>

definition kv_laws :: "'w vault_lib \<Rightarrow> bool" where
  "kv_laws vl \<longleftrightarrow>
     (\<forall>c m p k w w'. valid_utf8 k \<longrightarrow> kv_put vl c m p [(''private_key'', k)] w = (True, w') \<longrightarrow>
        kv_get vl c m p w' = Some [''private_key'' \<mapsto> JStr k]) \<and>
     (\<forall>c m p x w w'. kv_put vl c m p x w = (True, w') \<longrightarrow> (\<forall>p'. p' \<noteq> p \<longrightarrow> kv_get vl c m p' w' = kv_get vl c m p' w)) \<and>
     (\<forall>c m p w w'. kv_delete vl c m p w = (True, w') \<longrightarrow>
        (\<forall>dat. kv_get vl c m p w' = Some dat \<longrightarrow> dat ''private_key'' = None) \<and>
        (\<forall>p'. p' \<noteq> p \<longrightarrow> kv_get vl c m p' w' = kv_get vl c m p' w))"

section \<open>The interface\<close>

datatype ks_op = KPut ks_rnd string bytes | KDelete string

text \<open>A sequence of operations, stopping at the first error; its meaning on a map of keys.\<close>

fun ks_run :: "(ks_rnd \<Rightarrow> 's \<Rightarrow> string \<Rightarrow> bytes \<Rightarrow> 'e option \<times> 's) \<Rightarrow> ('s \<Rightarrow> string \<Rightarrow> 'e option \<times> 's) \<Rightarrow>
    ks_op list \<Rightarrow> 's \<Rightarrow> 's option" where
  "ks_run put del [] s = Some s"
| "ks_run put del (KPut r sid k # ops) s =
     (case put r s sid k of (None, s') \<Rightarrow> ks_run put del ops s' | (Some _, _) \<Rightarrow> None)"
| "ks_run put del (KDelete sid # ops) s =
     (case del s sid of (None, s') \<Rightarrow> ks_run put del ops s' | (Some _, _) \<Rightarrow> None)"

fun ks_map :: "ks_op \<Rightarrow> (string \<rightharpoonup> bytes) \<Rightarrow> (string \<rightharpoonup> bytes)" where
  "ks_map (KPut r sid k) m = m(sid \<mapsto> k)"
| "ks_map (KDelete sid) m = m(sid := None)"

fun key_of :: "ks_op \<Rightarrow> bytes" where
  "key_of (KPut r sid k) = k"
| "key_of (KDelete sid) = []"

definition ok_part :: "'e + 'a \<Rightarrow> 'a option" where
  "ok_part r = (case r of Inl _ \<Rightarrow> None | Inr a \<Rightarrow> Some a)"

text \<open>
  What the program relies on of a key store: in the states \<open>inv\<close> describes, a Put of a key the
  store can hold is what the next Get of the same server returns, a Delete leaves none, other
  servers' keys stay, and \<open>inv\<close> and \<open>holds\<close> do not change.
\<close>

locale keystore =
  fixes get :: "'s \<Rightarrow> string \<Rightarrow> 'e + bytes"
    and put :: "ks_rnd \<Rightarrow> 's \<Rightarrow> string \<Rightarrow> bytes \<Rightarrow> 'e option \<times> 's"
    and del :: "'s \<Rightarrow> string \<Rightarrow> 'e option \<times> 's"
    and inv :: "'s \<Rightarrow> bool"
    and holds :: "'s \<Rightarrow> bytes \<Rightarrow> bool"
  assumes put_inv: "\<lbrakk>inv s; put r s sid k = (None, s')\<rbrakk> \<Longrightarrow> inv s' \<and> holds s' = holds s"
    and del_inv: "\<lbrakk>inv s; del s sid = (None, s')\<rbrakk> \<Longrightarrow> inv s' \<and> holds s' = holds s"
    and get_put: "\<lbrakk>inv s; holds s k; put r s sid k = (None, s')\<rbrakk> \<Longrightarrow> get s' sid = Inr k"
    and get_put_other: "\<lbrakk>inv s; put r s sid k = (None, s'); sid' \<noteq> sid\<rbrakk> \<Longrightarrow> get s' sid' = get s sid'"
    and get_del: "\<lbrakk>inv s; del s sid = (None, s')\<rbrakk> \<Longrightarrow> ok_part (get s' sid) = None"
    and get_del_other: "\<lbrakk>inv s; del s sid = (None, s'); sid' \<noteq> sid\<rbrakk> \<Longrightarrow> get s' sid' = get s sid'"
begin

lemma map_put:
  assumes "inv s" "holds s k" "put r s sid k = (None, s')"
  shows "(\<lambda>i. ok_part (get s' i)) = (\<lambda>i. ok_part (get s i))(sid \<mapsto> k)"
  using get_put [OF assms] get_put_other [OF assms(1,3)] by (auto simp: ok_part_def)

lemma map_del:
  assumes "inv s" "del s sid = (None, s')"
  shows "(\<lambda>i. ok_part (get s' i)) = (\<lambda>i. ok_part (get s i))(sid := None)"
  using get_del [OF assms] get_del_other [OF assms] by auto

text \<open>Every successful sequence of operations refines the same sequence on a map.\<close>

lemma run_refines:
  "ks_run put del ops s = Some s' \<Longrightarrow> inv s \<Longrightarrow> \<forall>op \<in> set ops. holds s (key_of op) \<Longrightarrow>
    (\<lambda>i. ok_part (get s' i)) = fold ks_map ops (\<lambda>i. ok_part (get s i)) \<and> inv s'"
proof (induction ops arbitrary: s)
  case (Cons op ops)
  show ?case
  proof (cases op)
    case (KPut r sid k)
    with Cons.prems(1) obtain s1 where s1: "put r s sid k = (None, s1)" "ks_run put del ops s1 = Some s'"
      by (auto split: prod.splits option.splits)
    with Cons.prems KPut show ?thesis
      using Cons.IH [OF s1(2)] put_inv [OF Cons.prems(2) s1(1)] map_put [OF Cons.prems(2) _ s1(1)] by simp
  next
    case (KDelete sid)
    with Cons.prems(1) obtain s1 where s1: "del s sid = (None, s1)" "ks_run put del ops s1 = Some s'"
      by (auto split: prod.splits option.splits)
    with Cons.prems KDelete show ?thesis
      using Cons.IH [OF s1(2)] del_inv [OF Cons.prems(2) s1(1)] map_del [OF Cons.prems(2) s1(1)] by simp
  qed
qed simp

end

section \<open>The implementations\<close>

subsection \<open>Local\<close>

lemma put_ssh_key_Inr:
  "put_ssh_key d r = Inr d' \<Longrightarrow> \<not> fault d QSSHKey \<Longrightarrow> fault d' = fault d \<and> get_ssh_key d' (key_server r) = Inr r \<and>
    (\<forall>sid'. sid' \<noteq> key_server r \<longrightarrow> get_ssh_key d' sid' = get_ssh_key d sid')"
  by (auto simp: put_ssh_key_def get_ssh_key_def find_row_replace split: if_splits)

lemma delete_ssh_key_Inr:
  "delete_ssh_key d sid = Inr d' \<Longrightarrow> fault d' = fault d \<and> (\<forall>k. get_ssh_key d' sid \<noteq> Inr k) \<and>
    (\<forall>sid'. sid' \<noteq> sid \<longrightarrow> get_ssh_key d' sid' = get_ssh_key d sid')"
  by (auto simp: delete_ssh_key_def get_ssh_key_def find_row_delete split: if_splits)

lemma Local_Put_None:
  assumes "Local_Put cl secret r d sid k = (None, d')"
  obtains salt nonce where "cipher_key_ok (deriveKey cl secret salt)"
    "put_ssh_key d \<lparr>key_server = sid, key_encrypted = gcm_seal cl (deriveKey cl secret salt) nonce k,
       key_salt = salt, key_nonce = nonce\<rparr> = Inr d'"
  using assms by (auto simp: Local_Put_def Let_def split: option.splits if_splits sum.splits)

lemma Local_Delete_None: "Local_Delete d sid = (None, d') \<Longrightarrow> delete_ssh_key d sid = Inr d'"
  by (auto simp: Local_Delete_def split: sum.splits)

lemma Local_Get_cong: "get_ssh_key d' sid = get_ssh_key d sid \<Longrightarrow> Local_Get cl secret d' sid = Local_Get cl secret d sid"
  by (simp add: Local_Get_def)

lemma Local_Get_none: "\<forall>k. get_ssh_key d sid \<noteq> Inr k \<Longrightarrow> ok_part (Local_Get cl secret d sid) = None"
  by (auto simp: Local_Get_def ok_part_def split: sum.splits store_error.splits)

definition local_inv :: "crypto_lib \<Rightarrow> db \<Rightarrow> bool" where
  "local_inv cl d \<longleftrightarrow> crypto_ok cl \<and> \<not> fault d QSSHKey"

interpretation local_ks: keystore "Local_Get cl secret" "Local_Put cl secret" Local_Delete "local_inv cl" "\<lambda>d k. True"
  for cl secret
proof unfold_locales
  fix d d' :: db and r sid k
  assume inv: "local_inv cl d" and put: "Local_Put cl secret r d sid k = (None, d')"
  from put obtain salt nonce where cip: "cipher_key_ok (deriveKey cl secret salt)"
    and row: "put_ssh_key d \<lparr>key_server = sid, key_encrypted = gcm_seal cl (deriveKey cl secret salt) nonce k,
       key_salt = salt, key_nonce = nonce\<rparr> = Inr d'" by (rule Local_Put_None)
  note eff = put_ssh_key_Inr [OF row]
  show "local_inv cl d' \<and> (\<lambda>k. True) = (\<lambda>k. True)" using inv eff by (simp add: local_inv_def)
  show "Local_Get cl secret d' sid = Inr k"
    using inv eff cip by (simp add: local_inv_def Local_Get_def crypto_ok_def)
  show "Local_Get cl secret d' sid' = Local_Get cl secret d sid'" if "sid' \<noteq> sid" for sid'
    using inv eff that by (intro Local_Get_cong) (simp add: local_inv_def)
next
  fix d d' :: db and sid
  assume inv: "local_inv cl d" and del: "Local_Delete d sid = (None, d')"
  note eff = delete_ssh_key_Inr [OF Local_Delete_None [OF del]]
  show "local_inv cl d' \<and> (\<lambda>k. True) = (\<lambda>k. True)" using inv eff by (simp add: local_inv_def)
  show "ok_part (Local_Get cl secret d' sid) = None" using eff by (intro Local_Get_none) simp
  show "Local_Get cl secret d' sid' = Local_Get cl secret d sid'" if "sid' \<noteq> sid" for sid'
    using eff that by (intro Local_Get_cong) simp
qed

subsection \<open>Vault\<close>

lemma keyPath_inj [simp]: "keyPath v a = keyPath v b \<longleftrightarrow> a = b"
  by (simp add: keyPath_def)

lemma kv_lawsD:
  assumes "kv_laws vl"
  shows "valid_utf8 k \<Longrightarrow> kv_put vl c m p [(''private_key'', k)] w = (True, w') \<Longrightarrow>
      kv_get vl c m p w' = Some [''private_key'' \<mapsto> JStr k]" (is "?A \<Longrightarrow> ?B \<Longrightarrow> ?C")
    and "kv_put vl c m p x w = (True, w') \<Longrightarrow> p' \<noteq> p \<Longrightarrow> kv_get vl c m p' w' = kv_get vl c m p' w"
    and "kv_delete vl c m p w = (True, w') \<Longrightarrow> kv_get vl c m p w' = Some dat \<Longrightarrow> dat ''private_key'' = None"
    and "kv_delete vl c m p w = (True, w') \<Longrightarrow> p' \<noteq> p \<Longrightarrow> kv_get vl c m p' w' = kv_get vl c m p' w"
proof -
  note laws = assms [unfolded kv_laws_def]
  show ?C if ?A ?B
    using laws [THEN conjunct1, rule_format, OF that] .
  show "kv_get vl c m p' w' = kv_get vl c m p' w" if "kv_put vl c m p x w = (True, w')" "p' \<noteq> p"
    using laws [THEN conjunct2, THEN conjunct1, rule_format, OF that] .
  show "dat ''private_key'' = None" if "kv_delete vl c m p w = (True, w')" "kv_get vl c m p w' = Some dat"
    using laws [THEN conjunct2, THEN conjunct2, rule_format, OF that(1), THEN conjunct1, rule_format, OF that(2)] .
  show "kv_get vl c m p' w' = kv_get vl c m p' w" if "kv_delete vl c m p w = (True, w')" "p' \<noteq> p"
    using laws [THEN conjunct2, THEN conjunct2, rule_format, OF that(1), THEN conjunct2, rule_format, OF that(2)] .
qed

interpretation vault_ks: keystore "Vault_Get vl v" "\<lambda>r. Vault_Put vl v" "Vault_Delete vl v" "\<lambda>w. kv_laws vl" "\<lambda>w. valid_utf8"
  for vl v
proof unfold_locales
  fix w w' r sid k
  assume laws: "kv_laws vl" and put: "Vault_Put vl v w sid k = (None, w')"
  then have p: "kv_put vl (vk_client v) ''secret'' (keyPath v sid) [(''private_key'', k)] w = (True, w')"
    by (auto simp: Vault_Put_def split: prod.splits if_splits)
  show "kv_laws vl \<and> valid_utf8 = valid_utf8" using laws by simp
  show "Vault_Get vl v w' sid = Inr k" if "valid_utf8 k"
    using kv_lawsD(1) [OF laws that p] by (simp add: Vault_Get_def Vault_GetFromPath_def)
  show "Vault_Get vl v w' sid' = Vault_Get vl v w sid'" if "sid' \<noteq> sid" for sid'
    using kv_lawsD(2) [OF laws p, of "keyPath v sid'"] that by (simp add: Vault_Get_def Vault_GetFromPath_def)
next
  fix w w' sid
  assume laws: "kv_laws vl" and del: "Vault_Delete vl v w sid = (None, w')"
  then have p: "kv_delete vl (vk_client v) ''secret'' (keyPath v sid) w = (True, w')"
    by (auto simp: Vault_Delete_def split: prod.splits if_splits)
  show "kv_laws vl \<and> valid_utf8 = valid_utf8" using laws by simp
  show "ok_part (Vault_Get vl v w' sid) = None"
    using kv_lawsD(3) [OF laws p] by (auto simp: Vault_Get_def Vault_GetFromPath_def ok_part_def split: option.splits)
  show "Vault_Get vl v w' sid' = Vault_Get vl v w sid'" if "sid' \<noteq> sid" for sid'
    using kv_lawsD(4) [OF laws p, of "keyPath v sid'"] that by (simp add: Vault_Get_def Vault_GetFromPath_def)
qed

subsection \<open>Exchangeable\<close>

definition swap_inv :: "crypto_lib \<Rightarrow> 'w vault_lib \<Rightarrow> ('w, 'a) ks_state_scheme \<Rightarrow> bool" where
  "swap_inv cl vl s \<longleftrightarrow> crypto_ok cl \<and> kv_laws vl \<and> \<not> fault (st_db s) QSSHKey"

definition swap_holds :: "('w, 'a) ks_state_scheme \<Rightarrow> bytes \<Rightarrow> bool" where
  "swap_holds s k \<longleftrightarrow> (case ks_inner s of LocalKeyStore _ \<Rightarrow> True | VaultKeyStore _ \<Rightarrow> valid_utf8 k)"

text \<open>The wrapper's operations are those of the inner store on its part of the state.\<close>

lemma KS_Put_cases:
  assumes "KS_Put cl vl r s sid k = (e, s')"
  shows "(\<exists>secret d'. ks_inner s = LocalKeyStore secret \<and> Local_Put cl secret r (st_db s) sid k = (e, d') \<and> s' = s\<lparr>st_db := d'\<rparr>) \<or>
    (\<exists>v w'. ks_inner s = VaultKeyStore v \<and> Vault_Put vl v (world s) sid k = (e, w') \<and> s' = s\<lparr>world := w'\<rparr>)"
  using assms by (auto simp: KS_Put_def split: inner_ks.splits prod.splits)

lemma KS_Delete_cases:
  assumes "KS_Delete vl s sid = (e, s')"
  shows "(\<exists>secret d'. ks_inner s = LocalKeyStore secret \<and> Local_Delete (st_db s) sid = (e, d') \<and> s' = s\<lparr>st_db := d'\<rparr>) \<or>
    (\<exists>v w'. ks_inner s = VaultKeyStore v \<and> Vault_Delete vl v (world s) sid = (e, w') \<and> s' = s\<lparr>world := w'\<rparr>)"
  using assms by (auto simp: KS_Delete_def split: inner_ks.splits prod.splits)

interpretation swap_ks: keystore "KS_Get cl vl" "KS_Put cl vl" "KS_Delete vl" "swap_inv cl vl" swap_holds
  for cl vl
proof unfold_locales
  fix s s' :: "('a, 'b) ks_state_scheme" and r sid k
  assume inv: "swap_inv cl vl s" and put: "KS_Put cl vl r s sid k = (None, s')"
  have l: "local_inv cl (st_db s)" and v: "kv_laws vl" using inv by (simp_all add: swap_inv_def local_inv_def)
  note cases = KS_Put_cases [OF put]
  show "swap_inv cl vl s' \<and> swap_holds s' = swap_holds s"
    using cases inv local_ks.put_inv [OF l] by (fastforce simp: swap_inv_def swap_holds_def local_inv_def)
  show "KS_Get cl vl s' sid = Inr k" if "swap_holds s k"
    using cases that local_ks.get_put [OF l] vault_ks.get_put [OF v]
    by (auto simp: KS_Get_def swap_holds_def)
  show "KS_Get cl vl s' sid' = KS_Get cl vl s sid'" if "sid' \<noteq> sid" for sid'
    using cases that local_ks.get_put_other [OF l] vault_ks.get_put_other [OF v] by (auto simp: KS_Get_def)
next
  fix s s' :: "('a, 'b) ks_state_scheme" and sid
  assume inv: "swap_inv cl vl s" and del: "KS_Delete vl s sid = (None, s')"
  have l: "local_inv cl (st_db s)" and v: "kv_laws vl" using inv by (simp_all add: swap_inv_def local_inv_def)
  note cases = KS_Delete_cases [OF del]
  show "swap_inv cl vl s' \<and> swap_holds s' = swap_holds s"
    using cases inv local_ks.del_inv [OF l] by (fastforce simp: swap_inv_def swap_holds_def local_inv_def)
  show "ok_part (KS_Get cl vl s' sid) = None"
    using cases local_ks.get_del [OF l] vault_ks.get_del [OF v] by (auto simp: KS_Get_def)
  show "KS_Get cl vl s' sid' = KS_Get cl vl s sid'" if "sid' \<noteq> sid" for sid'
    using cases that local_ks.get_del_other [OF l] vault_ks.get_del_other [OF v] by (auto simp: KS_Get_def)
qed

section \<open>Properties\<close>

lemma valid_utf8_Nil [simp]: "valid_utf8 []"
  by (simp add: valid_utf8.simps)

text \<open>C9. The key store behaves as a map from servers to keys, with either backend: after any
  sequence of Puts and Deletes that succeeded, Get returns the last key put for the server
  since its last Delete, and for a server the sequence does not name what it returned before.\<close>

theorem keystore_refines_map:
  assumes "crypto_ok cl" and "kv_laws vl" and "\<not> fault (st_db s) QSSHKey" and "\<forall>op \<in> set ops. valid_utf8 (key_of op)"
    and "ks_run (KS_Put cl vl) (KS_Delete vl) ops s = Some s'"
  shows "(\<lambda>sid. ok_part (KS_Get cl vl s' sid)) = fold ks_map ops (\<lambda>sid. ok_part (KS_Get cl vl s sid))"
proof -
  have "\<forall>op \<in> set ops. swap_holds s (key_of op)"
    using assms(4) by (auto simp: swap_holds_def split: inner_ks.splits)
  then show ?thesis
    using swap_ks.run_refines [OF assms(5)] assms(1,2,3) by (simp add: swap_inv_def)
qed

definition demo_crypto :: crypto_lib where
  "demo_crypto = \<lparr>argon2_IDKey = (\<lambda>p s t m th n. replicate n (CHR ''k'')), gcm_seal = (\<lambda>k n x. CHR ''#'' # x),
     gcm_open = (\<lambda>k n x. case x of [] \<Rightarrow> None | c # y \<Rightarrow> Some y)\<rparr>"

type_synonym demo_world = "(string \<times> string \<times> string) \<rightharpoonup> (string \<rightharpoonup> json)"

definition demo_vault :: "demo_world vault_lib" where
  "demo_vault = \<lparr>va_new = (\<lambda>a. a \<noteq> []),
     kv_put = (\<lambda>c m p x w. (True, w((vc_addr c, m, p) \<mapsto> map_of (map (\<lambda>(k, v). (k, JStr v)) x)))),
     kv_get = (\<lambda>c m p w. w (vc_addr c, m, p)),
     kv_delete = (\<lambda>c m p w. (True, w((vc_addr c, m, p) := None)))\<rparr>"

lemma demo_crypto_ok: "crypto_ok demo_crypto"
  by (simp add: crypto_ok_def demo_crypto_def)

lemma demo_vault_laws: "kv_laws demo_vault"
  by (auto simp: kv_laws_def demo_vault_def)

definition demo_ks :: "inner_ks \<Rightarrow> demo_world ks_state" where
  "demo_ks k = \<lparr>st_db = demo_db, m_auth_failures = None, ks_inner = k, world = Map.empty\<rparr>"

definition demo_rnd :: ks_rnd where
  "demo_rnd = \<lparr>kr_salt = Some ''salt'', kr_nonce = Some ''nonce''\<rparr>"

theorem keystore_refines_map_witness:
  "\<exists>s'. ks_run (KS_Put demo_crypto demo_vault) (KS_Delete demo_vault)
       [KPut demo_rnd ''s1'' ''key1'', KPut demo_rnd ''s2'' ''key2'', KDelete ''s1''] (demo_ks (LocalKeyStore ''x'')) = Some s' \<and>
     ok_part (KS_Get demo_crypto demo_vault s' ''s2'') = Some ''key2''"
proof -
  let ?ops = "[KPut demo_rnd ''s1'' ''key1'', KPut demo_rnd ''s2'' ''key2'', KDelete ''s1'']"
  let ?run = "ks_run (KS_Put demo_crypto demo_vault) (KS_Delete demo_vault) ?ops (demo_ks (LocalKeyStore ''x''))"
  have "?run \<noteq> None"
    by (simp add: KS_Put_def KS_Delete_def Local_Put_def Local_Delete_def demo_rnd_def demo_ks_def demo_crypto_def
        deriveKey_def cipher_key_ok_def put_ssh_key_def delete_ssh_key_def server_exists_def demo_defs Let_def)
  then obtain s' where s': "?run = Some s'" by blast
  have ok: "\<not> fault (st_db (demo_ks (LocalKeyStore ''x''))) QSSHKey" by (simp add: demo_ks_def demo_defs)
  have v: "\<forall>op \<in> set ?ops. valid_utf8 (key_of op)" by code_simp
  have "ok_part (KS_Get demo_crypto demo_vault s' ''s2'') = Some ''key2''"
    using fun_cong [OF keystore_refines_map [OF demo_crypto_ok demo_vault_laws ok v s'], of "''s2''"] by simp
  with s' show ?thesis by blast
qed

end
