(* ===== verification/SshPool.thy ===== *)
theory SshPool
  imports KeyStore
begin

text \<open>
  The pool of SSH connections, \<open>internal/sshpool/pool.go\<close>: one cached client per server, made
  with the server's key and checked against the host key pinned at the first connection
  (trust on first use), with one reconnection when a cached client turns out dead.

  The SSH library and the hosts behind it are the record \<open>ssh_lib\<close> on the outside world: the
  key exchange, in which the host presents its key; the authentication that follows where the
  host key callback accepts that key; opening a session, running a command and closing. A
  client is a number, its handle.
\<close>

section \<open>Library and state\<close>

record 'w ssh_lib =
  ParsePrivateKey :: "bytes \<Rightarrow> string option"
  FingerprintSHA256 :: "bytes \<Rightarrow> string"
  ssh_kex :: "string \<Rightarrow> 'w \<Rightarrow> bytes option \<times> 'w"
  ssh_auth :: "string \<Rightarrow> string \<Rightarrow> string \<Rightarrow> bytes \<Rightarrow> 'w \<Rightarrow> nat option \<times> 'w"
  ssh_new_session :: "nat \<Rightarrow> 'w \<Rightarrow> bool \<times> 'w"
  ssh_run :: "nat \<Rightarrow> string \<Rightarrow> 'w \<Rightarrow> (string \<times> string \<times> bool) \<times> 'w"
  ssh_close :: "nat \<Rightarrow> 'w \<Rightarrow> 'w"

datatype pool_error =
    PGetServer store_error | PGetKey ks_error | PParseKey | PDial | PHostKeyStore | PHostKeyMismatch | PAuth
  | PReconnect pool_error | PNewSession | PRun

text \<open>\<open>Pool\<close>: the cache, and the metrics \<open>SSHConnectionsActive\<close> and \<open>SSHErrorsTotal\<close>.\<close>

record 'w pool_state = "'w ks_state" +
  conns :: "string \<rightharpoonup> nat"
  m_ssh_conns :: "int option"
  m_ssh_errors :: "(string \<Rightarrow> nat) option"

text \<open>The libraries a connection uses.\<close>

record 'w libs =
  lib_crypto :: crypto_lib
  lib_vault :: "'w vault_lib"
  lib_ssh :: "'w ssh_lib"

section \<open>Connecting\<close>

definition getKey :: "'w libs \<Rightarrow> ('w, 'a) pool_state_scheme \<Rightarrow> server \<Rightarrow> ks_error + bytes" where
  "getKey L s srv =
     (if srv_KeySource srv = ''vault_ref'' \<and> srv_VaultKeyPath srv \<noteq> []
      then KS_GetFromPath (lib_vault L) s (srv_VaultKeyPath srv)
      else KS_Get (lib_crypto L) (lib_vault L) s (srv_ID srv))"

text \<open>
  The callback of \<open>connect\<close> after its lookup, whose result it is given: every error of the lookup
  counts as a first connection. The lookup and the store are two statements, so that other
  goroutines may act between them; \<open>hostKeyCallback\<close> is the callback of a goroutine that is alone,
  and \<open>PoolRace\<close> interleaves the two parts.
\<close>

definition hostKey_decide ::
  "'w libs \<Rightarrow> time \<Rightarrow> string \<Rightarrow> bytes \<Rightarrow> store_error + bytes \<times> string \<Rightarrow> ('w, 'a) pool_state_scheme
     \<Rightarrow> pool_error option \<times> ('w, 'a) pool_state_scheme" where
  "hostKey_decide L now serverID presented found s =
     (case found of
        Inl _ \<Rightarrow>
          (case StoreHostKey (st_db s) serverID presented (FingerprintSHA256 (lib_ssh L) presented) of
             Inl _ \<Rightarrow> (Some PHostKeyStore, s)
           | Inr d' \<Rightarrow> (None, s\<lparr>st_db := d'\<rparr>))
      | Inr (storedKey, storedFP) \<Rightarrow>
          if storedKey = presented then (None, s)
          else (Some PHostKeyMismatch,
                s\<lparr>st_db := after (st_db s) (UpdateServerStatus (st_db s) now serverID StatusKeyMismatch)\<rparr>))"

definition hostKeyCallback ::
  "'w libs \<Rightarrow> time \<Rightarrow> string \<Rightarrow> bytes \<Rightarrow> ('w, 'a) pool_state_scheme \<Rightarrow> pool_error option \<times> ('w, 'a) pool_state_scheme" where
  "hostKeyCallback L now serverID presented s =
     hostKey_decide L now serverID presented (GetHostKey (st_db s) serverID) s"

text \<open>\<open>ssh.Dial\<close>: key exchange, host key callback, authentication.\<close>

definition ssh_Dial ::
  "'w libs \<Rightarrow> time \<Rightarrow> string \<Rightarrow> string \<Rightarrow> string \<Rightarrow> string \<Rightarrow> ('w, 'a) pool_state_scheme
     \<Rightarrow> (pool_error + nat) \<times> ('w, 'a) pool_state_scheme" where
  "ssh_Dial L now serverID addr user signer s =
     (case ssh_kex (lib_ssh L) addr (world s) of
        (None, w1) \<Rightarrow> (Inl PDial, s\<lparr>world := w1\<rparr>)
      | (Some presented, w1) \<Rightarrow>
          (case hostKeyCallback L now serverID presented (s\<lparr>world := w1\<rparr>) of
             (Some e, s1) \<Rightarrow> (Inl e, s1)
           | (None, s1) \<Rightarrow>
               (case ssh_auth (lib_ssh L) addr user signer presented (world s1) of
                  (None, w2) \<Rightarrow> (Inl PAuth, s1\<lparr>world := w2\<rparr>)
                | (Some c, w2) \<Rightarrow> (Inr c, s1\<lparr>world := w2\<rparr>))))"

definition connect ::
  "'w libs \<Rightarrow> time \<Rightarrow> string \<Rightarrow> ('w, 'a) pool_state_scheme \<Rightarrow> (pool_error + nat) \<times> ('w, 'a) pool_state_scheme" where
  "connect L now serverID s =
     (case GetServer (st_db s) serverID [] of
        Inl e \<Rightarrow> (Inl (PGetServer e), s)
      | Inr srv \<Rightarrow>
          (case getKey L s srv of
             Inl e \<Rightarrow> (Inl (PGetKey e), s)
           | Inr keyBytes \<Rightarrow>
               (case ParsePrivateKey (lib_ssh L) keyBytes of
                  None \<Rightarrow> (Inl PParseKey, s)
                | Some signer \<Rightarrow>
                    ssh_Dial L now serverID (srv_Host srv @ '':'' @ Itoa (srv_Port srv)) (srv_SSHUser srv) signer s)))"

section \<open>The cache\<close>

definition gauge_add :: "int \<Rightarrow> ('w, 'a) pool_state_scheme \<Rightarrow> ('w, 'a) pool_state_scheme" where
  "gauge_add n s = s\<lparr>m_ssh_conns := map_option (\<lambda>g. g + n) (m_ssh_conns s)\<rparr>"

definition count_ssh_error :: "string \<Rightarrow> ('w, 'a) pool_state_scheme \<Rightarrow> ('w, 'a) pool_state_scheme" where
  "count_ssh_error sid s = s\<lparr>m_ssh_errors := map_option (\<lambda>m. m(sid := Suc (m sid))) (m_ssh_errors s)\<rparr>"

definition close_client :: "'w libs \<Rightarrow> nat \<Rightarrow> ('w, 'a) pool_state_scheme \<Rightarrow> ('w, 'a) pool_state_scheme" where
  "close_client L c s = s\<lparr>world := ssh_close (lib_ssh L) c (world s)\<rparr>"

text \<open>
  The sections under the pool's lock, and what follows the unlock: storing a new client unless there
  is one already, then closing the surplus client or counting the new one; and forgetting a dead
  one, which changes the gauge under the lock.
\<close>

definition store_client :: "string \<Rightarrow> nat \<Rightarrow> ('w, 'a) pool_state_scheme \<Rightarrow> ('w, 'a) pool_state_scheme" where
  "store_client serverID client s = s\<lparr>conns := (conns s)(serverID \<mapsto> client)\<rparr>"

definition publish_locked ::
  "string \<Rightarrow> nat \<Rightarrow> ('w, 'a) pool_state_scheme \<Rightarrow> nat option \<times> ('w, 'a) pool_state_scheme" where
  "publish_locked serverID client s =
     (case conns s serverID of
        Some existing \<Rightarrow> (Some existing, s)
      | None \<Rightarrow> (None, store_client serverID client s))"

definition publish ::
  "'w libs \<Rightarrow> string \<Rightarrow> nat \<Rightarrow> ('w, 'a) pool_state_scheme \<Rightarrow> nat \<times> ('w, 'a) pool_state_scheme" where
  "publish L serverID client s =
     (case publish_locked serverID client s of
        (Some existing, s1) \<Rightarrow> (existing, close_client L client s1)
      | (None, s1) \<Rightarrow> (client, gauge_add 1 s1))"

definition evict :: "string \<Rightarrow> ('w, 'a) pool_state_scheme \<Rightarrow> ('w, 'a) pool_state_scheme" where
  "evict serverID s =
     (if conns s serverID = None then s
      else gauge_add (- 1) (s\<lparr>conns := (conns s)(serverID := None)\<rparr>))"

text \<open>After a reconnection \<open>Exec\<close> stores the client under the lock without looking whether there is
  one, and counts it after the unlock.\<close>

definition overwrite :: "string \<Rightarrow> nat \<Rightarrow> ('w, 'a) pool_state_scheme \<Rightarrow> ('w, 'a) pool_state_scheme" where
  "overwrite serverID client s = gauge_add 1 (store_client serverID client s)"

definition getOrConnect ::
  "'w libs \<Rightarrow> time \<Rightarrow> string \<Rightarrow> ('w, 'a) pool_state_scheme \<Rightarrow> (pool_error + nat) \<times> ('w, 'a) pool_state_scheme" where
  "getOrConnect L now serverID s =
     (case conns s serverID of
        Some c \<Rightarrow> (Inr c, s)
      | None \<Rightarrow>
          (case connect L now serverID s of
             (Inl e, s1) \<Rightarrow> (Inl e, s1)
           | (Inr c, s1) \<Rightarrow> (case publish L serverID c s1 of (c', s2) \<Rightarrow> (Inr c', s2))))"

definition new_session :: "'w libs \<Rightarrow> nat \<Rightarrow> ('w, 'a) pool_state_scheme \<Rightarrow> bool \<times> ('w, 'a) pool_state_scheme" where
  "new_session L c s =
     (case ssh_new_session (lib_ssh L) c (world s) of (ok, w') \<Rightarrow> (ok, s\<lparr>world := w'\<rparr>))"

text \<open>The session a command runs in: from the cached client, else after one reconnection.\<close>

definition session_for ::
  "'w libs \<Rightarrow> time \<Rightarrow> string \<Rightarrow> ('w, 'a) pool_state_scheme \<Rightarrow> (pool_error + nat) \<times> ('w, 'a) pool_state_scheme" where
  "session_for L now serverID s =
     (case getOrConnect L now serverID s of
        (Inl e, s1) \<Rightarrow> (Inl e, count_ssh_error serverID s1)
      | (Inr c, s1) \<Rightarrow>
          (case new_session L c s1 of
             (True, s2) \<Rightarrow> (Inr c, s2)
           | (False, s2) \<Rightarrow>
               (case connect L now serverID (evict serverID s2) of
                  (Inl e, s3) \<Rightarrow> (Inl (PReconnect e), count_ssh_error serverID s3)
                | (Inr c', s3) \<Rightarrow>
                    (case new_session L c' (overwrite serverID c' s3) of
                       (False, s4) \<Rightarrow> (Inl PNewSession, count_ssh_error serverID s4)
                     | (True, s4) \<Rightarrow> (Inr c', s4)))))"

definition Exec ::
  "'w libs \<Rightarrow> time \<Rightarrow> string \<Rightarrow> string \<Rightarrow> ('w, 'a) pool_state_scheme
     \<Rightarrow> (string \<times> string \<times> pool_error option) \<times> ('w, 'a) pool_state_scheme" where
  "Exec L now serverID cmd s =
     (case session_for L now serverID s of
        (Inl e, s1) \<Rightarrow> (([], [], Some e), s1)
      | (Inr c, s1) \<Rightarrow>
          (case ssh_run (lib_ssh L) c cmd (world s1) of
             ((out, err, ok), w') \<Rightarrow> ((out, err, if ok then None else Some PRun), s1\<lparr>world := w'\<rparr>)))"

text \<open>\<open>Session\<close>, for terminals: no second attempt with a new client.\<close>

definition Pool_Session ::
  "'w libs \<Rightarrow> time \<Rightarrow> string \<Rightarrow> ('w, 'a) pool_state_scheme \<Rightarrow> (pool_error + nat) \<times> ('w, 'a) pool_state_scheme" where
  "Pool_Session L now serverID s =
     (case getOrConnect L now serverID s of
        (Inl e, s1) \<Rightarrow> (Inl e, s1)
      | (Inr c, s1) \<Rightarrow>
          (case new_session L c s1 of
             (False, s2) \<Rightarrow> (Inl PNewSession, s2)
           | (True, s2) \<Rightarrow> (Inr c, s2)))"

definition Pool_Remove :: "'w libs \<Rightarrow> string \<Rightarrow> ('w, 'a) pool_state_scheme \<Rightarrow> ('w, 'a) pool_state_scheme" where
  "Pool_Remove L serverID s =
     (case conns s serverID of
        None \<Rightarrow> s
      | Some c \<Rightarrow> gauge_add (- 1) ((close_client L c s)\<lparr>conns := (conns s)(serverID := None)\<rparr>))"

text \<open>\<open>Close\<close> visits the entries of the cache in some order.\<close>

definition Pool_Close :: "'w libs \<Rightarrow> string list \<Rightarrow> ('w, 'a) pool_state_scheme \<Rightarrow> ('w, 'a) pool_state_scheme" where
  "Pool_Close L order s = fold (Pool_Remove L) order s"

section \<open>Invariants of the pool's operations\<close>

text \<open>The cache is not touched by connecting.\<close>

lemma hostKeyCallback_conns:
  "hostKeyCallback L now sid key s = (e, s') \<Longrightarrow> conns s' = conns s"
  by (auto simp: hostKeyCallback_def hostKey_decide_def split: sum.splits if_splits)

lemma ssh_Dial_conns: "ssh_Dial L now sid addr user signer s = (r, s') \<Longrightarrow> conns s' = conns s"
  by (auto simp: ssh_Dial_def dest!: hostKeyCallback_conns split: option.splits prod.splits)

lemma connect_conns: "connect L now sid s = (r, s') \<Longrightarrow> conns s' = conns s"
  by (auto simp: connect_def dest: ssh_Dial_conns split: sum.splits option.splits)

lemma new_session_conns: "new_session L c s = (ok, s') \<Longrightarrow> conns s' = conns s"
  by (auto simp: new_session_def split: prod.splits)

lemma evict_conns [simp]: "conns (evict sid s) sid = None"
  by (simp add: evict_def gauge_add_def)

text \<open>
  Every operation of the pool is made of a few changes of the state: of the outside world by one
  call of the SSH library, of the error counter, by the host key callback, adding an absent client and dropping a present
  one, each with its change of the gauge. What these keep for a server, every operation on this
  server keeps.
\<close>

inductive ssh_call :: "'w libs \<Rightarrow> 'w \<Rightarrow> 'w \<Rightarrow> bool" for L where
  kex: "ssh_kex (lib_ssh L) addr w = (k, w') \<Longrightarrow> ssh_call L w w'"
| auth: "ssh_auth (lib_ssh L) addr user signer key w = (c, w') \<Longrightarrow> ssh_call L w w'"
| new_session: "ssh_new_session (lib_ssh L) c w = (ok, w') \<Longrightarrow> ssh_call L w w'"
| run: "ssh_run (lib_ssh L) c cmd w = (x, w') \<Longrightarrow> ssh_call L w w'"
| close: "ssh_call L w (ssh_close (lib_ssh L) c w)"

locale pool_invariant_at =
  fixes L :: "'w libs" and I :: "('w, 'a) pool_state_scheme \<Rightarrow> bool" and sid :: string
  assumes world: "I s \<Longrightarrow> ssh_call L (world s) w \<Longrightarrow> I (s\<lparr>world := w\<rparr>)"
    and errors: "I s \<Longrightarrow> I (count_ssh_error sid s)"
    and callback: "I s \<Longrightarrow> I (snd (hostKeyCallback L now sid key s))"
    and add: "I s \<Longrightarrow> conns s sid = None \<Longrightarrow> I (gauge_add 1 (s\<lparr>conns := (conns s)(sid \<mapsto> c)\<rparr>))"
    and drop: "I s \<Longrightarrow> conns s sid \<noteq> None \<Longrightarrow> I (gauge_add (- 1) (s\<lparr>conns := (conns s)(sid := None)\<rparr>))"
begin

lemma ssh_Dial: "I s \<Longrightarrow> I (snd (ssh_Dial L now sid addr user signer s))"
proof -
  assume I: "I s"
  obtain k w1 where kex: "ssh_kex (lib_ssh L) addr (world s) = (k, w1)" by fastforce
  show ?thesis
  proof (cases k)
    case None
    with I kex show ?thesis by (simp add: ssh_Dial_def world ssh_call.kex)
  next
    case (Some key)
    obtain e s1 where cb: "hostKeyCallback L now sid key (s\<lparr>world := w1\<rparr>) = (e, s1)" by fastforce
    with callback [OF world [OF I ssh_call.kex [OF kex]]] have "I s1" by (metis snd_conv)
    with Some kex cb show ?thesis
      by (auto simp: ssh_Dial_def intro: world ssh_call.auth split: option.splits prod.splits)
  qed
qed

lemma connect: "I s \<Longrightarrow> I (snd (connect L now sid s))"
  by (auto simp: connect_def ssh_Dial split: sum.splits option.splits)

lemma publish: "I s \<Longrightarrow> I (snd (publish L sid c s))"
  by (auto simp: publish_def publish_locked_def store_client_def close_client_def add intro: world ssh_call.close split: option.splits)

lemma evict: "I s \<Longrightarrow> I (evict sid s)"
  using drop [of s] by (auto simp: evict_def)

lemma new_session: "I s \<Longrightarrow> I (snd (new_session L c s))"
  by (auto simp: new_session_def intro: world ssh_call.new_session split: prod.splits)

lemma overwrite: "I s \<Longrightarrow> conns s sid = None \<Longrightarrow> I (overwrite sid c s)"
  using add [of s c] by (simp add: overwrite_def store_client_def)

lemma getOrConnect: "I s \<Longrightarrow> I (snd (getOrConnect L now sid s))"
  using connect [of s now] publish
  by (auto simp: getOrConnect_def split: option.splits sum.splits prod.splits) (metis snd_conv)

lemma session_for: "I s \<Longrightarrow> I (snd (session_for L now sid s))"
proof -
  assume I: "I s"
  obtain r s1 where g: "getOrConnect L now sid s = (r, s1)" by fastforce
  with getOrConnect [OF I, of now] have I1: "I s1" by simp
  show ?thesis
  proof (cases r)
    case (Inl e)
    with g I1 show ?thesis by (simp add: session_for_def errors)
  next
    case (Inr c)
    obtain ok s2 where n: "new_session L c s1 = (ok, s2)" by fastforce
    with new_session [OF I1, of c] have I2: "I s2" by simp
    obtain r3 s3 where k: "connect L now sid (evict sid s2) = (r3, s3)" by fastforce
    with connect [OF evict [OF I2], of now] have I3: "I s3" by simp
    have "conns s3 sid = None" using connect_conns [OF k] by simp
    then have I4: "I (snd (new_session L c' (overwrite sid c' s3)))" for c'
      using I3 by (intro new_session overwrite)
    show ?thesis
    proof (cases "\<exists>c'. \<not> ok \<and> r3 = Inr c'")
      case True
      then obtain c' where "\<not> ok" "r3 = Inr c'" by blast
      with g Inr n k I4 [of c'] show ?thesis
        by (auto simp: session_for_def errors split: prod.splits bool.splits)
    next
      case False
      with g Inr n k I2 I3 show ?thesis
        by (cases ok; cases r3) (auto simp: session_for_def errors)
    qed
  qed
qed

lemma exec: "I s \<Longrightarrow> I (snd (Exec L now sid cmd s))"
  using session_for [of s now] by (auto simp: Exec_def intro: world ssh_call.run split: sum.splits prod.splits)

lemma session: "I s \<Longrightarrow> I (snd (Pool_Session L now sid s))"
  using getOrConnect [of s now] new_session
  by (auto simp: Pool_Session_def split: sum.splits prod.splits bool.splits) (metis snd_conv)+

lemma remove: "I s \<Longrightarrow> I (Pool_Remove L sid s)"
proof -
  assume I: "I s"
  have "I (gauge_add (- 1) ((close_client L c s)\<lparr>conns := (conns (close_client L c s))(sid := None)\<rparr>))"
    if "conns s sid = Some c" for c
    by (rule drop) (use I that in \<open>auto simp: close_client_def intro: world ssh_call.close\<close>)
  then show ?thesis using I by (auto simp: Pool_Remove_def close_client_def split: option.splits)
qed

end

section \<open>Sequences of operations\<close>

datatype pool_op = OpExec time string string | OpSession time string | OpRemove string | OpClose "string list"

fun pool_exec :: "'w libs \<Rightarrow> pool_op \<Rightarrow> ('w, 'a) pool_state_scheme \<Rightarrow> ('w, 'a) pool_state_scheme" where
  "pool_exec L (OpExec now sid cmd) s = snd (Exec L now sid cmd s)"
| "pool_exec L (OpSession now sid) s = snd (Pool_Session L now sid s)"
| "pool_exec L (OpRemove sid) s = Pool_Remove L sid s"
| "pool_exec L (OpClose order) s = Pool_Close L order s"

text \<open>What they keep for every server, every sequence of operations keeps.\<close>

locale pool_invariant =
  fixes L :: "'w libs" and I :: "('w, 'a) pool_state_scheme \<Rightarrow> bool"
  assumes each: "pool_invariant_at L I sid"
begin

lemmas ssh_Dial = pool_invariant_at.ssh_Dial [OF each]
lemmas connect = pool_invariant_at.connect [OF each]
lemmas publish = pool_invariant_at.publish [OF each]
lemmas evict = pool_invariant_at.evict [OF each]
lemmas new_session = pool_invariant_at.new_session [OF each]
lemmas exec = pool_invariant_at.exec [OF each]
lemmas session = pool_invariant_at.session [OF each]
lemmas remove = pool_invariant_at.remove [OF each]

lemma close: "I s \<Longrightarrow> I (Pool_Close L order s)"
proof (induction order arbitrary: s)
  case (Cons sid order)
  from Cons.IH [OF remove [OF Cons.prems]] show ?case by (simp add: Pool_Close_def)
qed (simp add: Pool_Close_def)

lemma run: "I s \<Longrightarrow> I (fold (pool_exec L) ops s)"
proof (induction ops arbitrary: s)
  case (Cons op ops)
  have "I (pool_exec L op s)"
    using Cons.prems by (cases op) (simp_all add: exec session remove close)
  from Cons.IH [OF this] show ?case by simp
qed simp

end

section \<open>Three invariants\<close>

lemma hostKeyCallback_db:
  "st_db (snd (hostKeyCallback L now sid key s)) =
    (case GetHostKey (st_db s) sid of
       Inl _ \<Rightarrow> after (st_db s) (StoreHostKey (st_db s) sid key (FingerprintSHA256 (lib_ssh L) key))
     | Inr (k, fp) \<Rightarrow> if k = key then st_db s
         else after (st_db s) (UpdateServerStatus (st_db s) now sid StatusKeyMismatch))"
  by (auto simp: hostKeyCallback_def hostKey_decide_def after_def split: sum.splits)

lemma hostKeyCallback_metrics [simp]:
  "m_ssh_conns (snd (hostKeyCallback L now sid key s)) = m_ssh_conns s"
  "conns (snd (hostKeyCallback L now sid key s)) = conns s"
  by (auto simp: hostKeyCallback_def hostKey_decide_def split: sum.splits)

lemma metrics_db [simp]: "st_db (gauge_add n s) = st_db s" "st_db (count_ssh_error sid s) = st_db s"
  "conns (gauge_add n s) = conns s" "conns (count_ssh_error sid s) = conns s"
  "m_ssh_conns (count_ssh_error sid s) = m_ssh_conns s"
  by (simp_all add: gauge_add_def count_ssh_error_def)

text \<open>The schema.\<close>

interpretation pool_schema: pool_invariant L "\<lambda>s. db_inv (st_db s)" for L
  by unfold_locales
     (auto simp: hostKeyCallback_db intro!: after_inv intro: inv_intros split: sum.splits)

text \<open>The gauge counts the cached clients.\<close>

definition gauge_exact :: "('w, 'a) pool_state_scheme \<Rightarrow> bool" where
  "gauge_exact s \<longleftrightarrow> finite (dom (conns s)) \<and> (\<forall>g. m_ssh_conns s = Some g \<longrightarrow> g = int (card (dom (conns s))))"

interpretation pool_gauge: pool_invariant L gauge_exact for L
proof unfold_locales
  fix s :: "('a, 'b) pool_state_scheme" and sid c
  assume I: "gauge_exact s"
  show "gauge_exact (gauge_add 1 (s\<lparr>conns := (conns s)(sid \<mapsto> c)\<rparr>))" if "conns s sid = None"
    using I that by (auto simp: gauge_exact_def gauge_add_def card_insert_if)
  show "gauge_exact (gauge_add (- 1) (s\<lparr>conns := (conns s)(sid := None)\<rparr>))" if "conns s sid \<noteq> None"
  proof -
    have "finite (dom (conns s))" "sid \<in> dom (conns s)" using I that by (auto simp: gauge_exact_def)
    from card.remove [OF this] show ?thesis using I by (auto simp: gauge_exact_def gauge_add_def)
  qed
qed (auto simp: gauge_exact_def)

text \<open>A pinned host key stays, as long as it can be read.\<close>

definition pinned :: "string \<Rightarrow> bytes \<times> string \<Rightarrow> ('w, 'a) pool_state_scheme \<Rightarrow> bool" where
  "pinned sid kf s \<longleftrightarrow> GetHostKey (st_db s) sid = Inr kf"

lemma GetHostKey_Inr_fault: "GetHostKey d sid = Inr kf \<Longrightarrow> \<not> fault d QHostKey"
  by (auto simp: GetHostKey_def split: if_splits)

lemma GetHostKey_StoreHostKey:
  "StoreHostKey d sid k fp = Inr d' \<Longrightarrow> \<not> fault d QHostKey \<Longrightarrow>
    GetHostKey d' sid' = (if sid' = sid then Inr (k, fp) else GetHostKey d sid')"
  by (auto simp: StoreHostKey_def GetHostKey_def find_row_replace split: if_splits)

lemma GetHostKey_UpdateServerStatus [simp]:
  "GetHostKey (after d (UpdateServerStatus d now sid st)) sid' = GetHostKey d sid'"
  by (simp add: UpdateServerStatus_def GetHostKey_def after_def)

lemma hostKeyCallback_pinned: "pinned sid kf s \<Longrightarrow> pinned sid kf (snd (hostKeyCallback L now sid' key s))"
proof -
  assume p: "pinned sid kf s"
  have "GetHostKey (after (st_db s) (StoreHostKey (st_db s) sid' key fp)) sid = Inr kf"
    if "GetHostKey (st_db s) sid' = Inl e" for e fp
    using p that GetHostKey_StoreHostKey [of "st_db s" sid' key fp _ sid] GetHostKey_Inr_fault [of "st_db s" sid kf]
    by (cases "StoreHostKey (st_db s) sid' key fp") (auto simp: pinned_def after_def split: if_splits)
  then show ?thesis using p by (auto simp: pinned_def hostKeyCallback_db split: sum.splits)
qed

interpretation pool_pinned: pool_invariant L "pinned sid kf" for L sid kf
  by unfold_locales (auto simp: hostKeyCallback_pinned, auto simp: pinned_def)

section \<open>Properties\<close>

abbreviation server_addr :: "server \<Rightarrow> string" where
  "server_addr srv \<equiv> srv_Host srv @ '':'' @ Itoa (srv_Port srv)"

lemma callback_None:
  assumes "hostKeyCallback L now sid key s = (None, s')" and "\<not> fault (st_db s) QHostKey"
  shows "(\<exists>fp. GetHostKey (st_db s') sid = Inr (key, fp)) \<and> (\<forall>k fp. GetHostKey (st_db s) sid = Inr (k, fp) \<longrightarrow> k = key)"
proof (cases "GetHostKey (st_db s) sid")
  case (Inl e)
  with assms(1) obtain d' where "StoreHostKey (st_db s) sid key (FingerprintSHA256 (lib_ssh L) key) = Inr d'"
      and "s' = s\<lparr>st_db := d'\<rparr>"
    by (auto simp: hostKeyCallback_def hostKey_decide_def split: sum.splits)
  with Inl GetHostKey_StoreHostKey assms(2) show ?thesis by auto
next
  case (Inr kf)
  with assms(1) show ?thesis by (cases kf) (auto simp: hostKeyCallback_def hostKey_decide_def split: if_splits)
qed

lemma ssh_Dial_Inr:
  assumes "ssh_Dial L now sid addr user signer s = (Inr c, s')" and "\<not> fault (st_db s) QHostKey"
  shows "\<exists>key fp. fst (ssh_kex (lib_ssh L) addr (world s)) = Some key \<and> GetHostKey (st_db s') sid = Inr (key, fp) \<and>
    (\<forall>k f. GetHostKey (st_db s) sid = Inr (k, f) \<longrightarrow> k = key)"
proof -
  obtain key w1 s1 where kex: "ssh_kex (lib_ssh L) addr (world s) = (Some key, w1)"
    and cb: "hostKeyCallback L now sid key (s\<lparr>world := w1\<rparr>) = (None, s1)" and "st_db s' = st_db s1"
    using assms(1) by (auto simp: ssh_Dial_def split: option.splits prod.splits)
  with callback_None [OF cb] assms(2) show ?thesis by auto
qed

lemma connect_Inr:
  assumes "connect L now sid s = (Inr c, s')"
  obtains srv signer where "GetServer (st_db s) sid [] = Inr srv"
    "ssh_Dial L now sid (server_addr srv) (srv_SSHUser srv) signer s = (Inr c, s')"
  using assms by (auto simp: connect_def split: sum.splits option.splits)

lemma status_updated:
  assumes "\<not> fault d (XUpdateServerStatus sid)"
  shows "\<forall>srv \<in> set (servers (after d (UpdateServerStatus d now sid st))). srv_ID srv = sid \<longrightarrow> srv_Status srv = st"
  using assms by (simp add: UpdateServerStatus_def after_def ball_Un)

text \<open>The status the callback leaves on a mismatch.\<close>

lemma connect_mismatch:
  assumes "connect L now sid s = (Inl PHostKeyMismatch, s')"
  shows "st_db s' = after (st_db s) (UpdateServerStatus (st_db s) now sid StatusKeyMismatch)"
proof -
  from assms obtain srv signer where
    dial: "ssh_Dial L now sid (server_addr srv) (srv_SSHUser srv) signer s = (Inl PHostKeyMismatch, s')"
    by (auto simp: connect_def split: sum.splits option.splits)
  then obtain key w1 where "hostKeyCallback L now sid key (s\<lparr>world := w1\<rparr>) = (Some PHostKeyMismatch, s')"
    by (auto simp: ssh_Dial_def split: option.splits prod.splits)
  then show ?thesis by (auto simp: hostKeyCallback_def hostKey_decide_def split: sum.splits if_splits)
qed

text \<open>C5. Trust on first use, for connections made one at a time and as long as reading host keys does
  not fail. A connection is made only to a host that presents the pinned host key of the server,
  or, where none is pinned yet, its key is pinned by this connection. Under these two conditions
  no sequence of the pool's operations, on whatever servers, changes a pinned key. A mismatch
  keeps the pin and sets the server's status to \<open>key_mismatch\<close>.\<close>

theorem host_key_pinning:
  assumes "\<not> fault (st_db s) QHostKey"
  shows "(\<forall>c s'. connect L now sid s = (Inr c, s') \<longrightarrow>
      (\<exists>srv key fp. GetServer (st_db s) sid [] = Inr srv \<and>
         fst (ssh_kex (lib_ssh L) (server_addr srv) (world s)) = Some key \<and> GetHostKey (st_db s') sid = Inr (key, fp) \<and>
         (\<forall>k f. GetHostKey (st_db s) sid = Inr (k, f) \<longrightarrow> k = key))) \<and>
    (\<forall>kf. GetHostKey (st_db s) sid = Inr kf \<longrightarrow> GetHostKey (st_db (fold (pool_exec L) ops s)) sid = Inr kf) \<and>
    (\<forall>s'. connect L now sid s = (Inl PHostKeyMismatch, s') \<longrightarrow> GetHostKey (st_db s') sid = GetHostKey (st_db s) sid \<and>
       (\<not> fault (st_db s) (XUpdateServerStatus sid) \<longrightarrow>
          (\<forall>srv \<in> set (servers (st_db s')). srv_ID srv = sid \<longrightarrow> srv_Status srv = StatusKeyMismatch)))"
proof (intro conjI allI impI)
  fix c s'
  assume "connect L now sid s = (Inr c, s')"
  then obtain srv signer where srv: "GetServer (st_db s) sid [] = Inr srv" and
    dial: "ssh_Dial L now sid (server_addr srv) (srv_SSHUser srv) signer s = (Inr c, s')" by (rule connect_Inr)
  from ssh_Dial_Inr [OF dial assms] srv show "\<exists>srv key fp. GetServer (st_db s) sid [] = Inr srv \<and>
         fst (ssh_kex (lib_ssh L) (server_addr srv) (world s)) = Some key \<and> GetHostKey (st_db s') sid = Inr (key, fp) \<and>
         (\<forall>k f. GetHostKey (st_db s) sid = Inr (k, f) \<longrightarrow> k = key)" by blast
next
  fix kf
  assume "GetHostKey (st_db s) sid = Inr kf"
  then show "GetHostKey (st_db (fold (pool_exec L) ops s)) sid = Inr kf"
    using pool_pinned.run [of sid kf s] by (simp add: pinned_def)
next
  fix s' assume m: "connect L now sid s = (Inl PHostKeyMismatch, s')"
  note d = connect_mismatch [OF m]
  show "GetHostKey (st_db s') sid = GetHostKey (st_db s) sid" by (simp add: d)
  assume f: "\<not> fault (st_db s) (XUpdateServerStatus sid)"
  show "\<forall>srv \<in> set (servers (st_db s')). srv_ID srv = sid \<longrightarrow> srv_Status srv = StatusKeyMismatch"
    unfolding d by (rule status_updated [OF f])
qed

text \<open>The outside world of the witnesses: the key every host presents, and the next handle.\<close>

record demo_net =
  net_hostkey :: bytes
  net_handle :: nat
  net_alive :: "nat set"

definition demo_ssh :: "demo_net ssh_lib" where
  "demo_ssh = \<lparr>ParsePrivateKey = (\<lambda>k. if k = [] then None else Some k), FingerprintSHA256 = (\<lambda>k. ''SHA256:'' @ k),
     ssh_kex = (\<lambda>addr w. (Some (net_hostkey w), w)),
     ssh_auth = (\<lambda>addr user sig k w. (Some (net_handle w), w\<lparr>net_handle := Suc (net_handle w),
        net_alive := insert (net_handle w) (net_alive w)\<rparr>)),
     ssh_new_session = (\<lambda>c w. (c \<in> net_alive w, w)), ssh_run = (\<lambda>c cmd w. (([], [], True), w)),
     ssh_close = (\<lambda>c w. w\<lparr>net_alive := net_alive w - {c}\<rparr>)\<rparr>"

definition demo_netvault :: "demo_net vault_lib" where
  "demo_netvault = \<lparr>va_new = (\<lambda>a. a \<noteq> []), kv_put = (\<lambda>c m p x w. (False, w)), kv_get = (\<lambda>c m p w. None),
     kv_delete = (\<lambda>c m p w. (False, w))\<rparr>"

definition demo_libs :: "demo_net libs" where
  "demo_libs = \<lparr>lib_crypto = demo_crypto, lib_vault = demo_netvault, lib_ssh = demo_ssh\<rparr>"

definition demo_pool :: "bytes \<Rightarrow> demo_net pool_state" where
  "demo_pool hk = \<lparr>st_db = demo_db\<lparr>ssh_keys := [\<lparr>key_server = ''s1'', key_encrypted = ''#PEM'', key_salt = [], key_nonce = []\<rparr>]\<rparr>,
     m_auth_failures = None, ks_inner = LocalKeyStore ''x'',
     world = \<lparr>net_hostkey = hk, net_handle = 0, net_alive = {}\<rparr>, conns = Map.empty, m_ssh_conns = Some 0, m_ssh_errors = None\<rparr>"

lemmas demo_exec_defs = connect_def demo_pool_def demo_libs_def demo_defs GetServer_def visible_def getKey_def KS_Get_def
  Local_Get_def get_ssh_key_def demo_crypto_def deriveKey_def cipher_key_ok_def demo_ssh_def ssh_Dial_def
  hostKeyCallback_def hostKey_decide_def GetHostKey_def Let_def Exec_def session_for_def getOrConnect_def publish_def publish_locked_def store_client_def
  new_session_def Pool_Session_def gauge_add_def

theorem host_key_pinning_witness:
  "\<exists>s'. connect demo_libs 0 ''s1'' (demo_pool ''k'') = (Inr 0, s') \<and> (\<exists>fp. GetHostKey (st_db s') ''s1'' = Inr (''k'', fp))"
proof -
  have "\<not> fault (st_db (demo_pool ''k'')) QHostKey" by (simp add: demo_pool_def demo_defs)
  moreover have "\<exists>s'. connect demo_libs 0 ''s1'' (demo_pool ''k'') = (Inr 0, s')"
    by (simp add: demo_exec_defs)
  ultimately show ?thesis
    using host_key_pinning [of "demo_pool ''k''" demo_libs 0 "''s1''"]
    by (fastforce simp: demo_libs_def demo_ssh_def demo_pool_def)
qed

text \<open>C33. The pin is lost when it cannot be read: the callback takes every error of the lookup
  for a missing pin, so that while reading host keys fails it accepts any key a host presents
  and, where writing works, replaces the pinned key by it.\<close>

theorem host_key_read_error_trusts:
  assumes "fault (st_db s) QHostKey" and "\<not> fault (st_db s) XStoreHostKey" and "server_exists (st_db s) sid"
  shows "\<exists>s'. hostKeyCallback L now sid key s = (None, s') \<and>
    (\<exists>row \<in> set (host_keys (st_db s')). hk_server row = sid \<and> hk_key row = key) \<and>
    (\<forall>row \<in> set (host_keys (st_db s')). hk_server row = sid \<longrightarrow> hk_key row = key)"
  using assms by (auto simp: hostKeyCallback_def hostKey_decide_def GetHostKey_def StoreHostKey_def)

theorem host_key_read_error_trusts_witness:
  "\<exists>s'. hostKeyCallback demo_libs 0 ''s1'' ''evil''
      ((demo_pool ''k'')\<lparr>st_db := demo_db\<lparr>fault := (\<lambda>q. q = QHostKey)\<rparr>\<rparr>) = (None, s') \<and>
    (\<exists>row \<in> set (host_keys (st_db s')). hk_server row = ''s1'' \<and> hk_key row = ''evil'')"
proof -
  let ?s = "(demo_pool ''k'')\<lparr>st_db := demo_db\<lparr>fault := (\<lambda>q. q = QHostKey)\<rparr>\<rparr>"
  have "fault (st_db ?s) QHostKey" "\<not> fault (st_db ?s) XStoreHostKey" "server_exists (st_db ?s) ''s1''"
    by (simp_all add: server_exists_def demo_defs)
  from host_key_read_error_trusts [OF this, of demo_libs 0 "''evil''"] show ?thesis by blast
qed

lemma Pool_Remove_conns: "conns (Pool_Remove L sid s) = (conns s)(sid := None)"
  by (auto simp: Pool_Remove_def close_client_def split: option.splits)

lemma Pool_Close_conns: "conns (Pool_Close L order s) i = (if i \<in> set order then None else conns s i)"
  by (induction order arbitrary: s) (auto simp: Pool_Close_def Pool_Remove_conns)

text \<open>Closing the pool calls \<open>Close\<close> on each cached client, in the order the map is visited.\<close>

lemma Pool_Close_world:
  assumes "distinct order" and "set order \<subseteq> dom (conns s)"
  shows "world (Pool_Close L order s) = fold (\<lambda>i. ssh_close (lib_ssh L) (the (conns s i))) order (world s)"
  using assms
proof (induction order arbitrary: s)
  case (Cons sid order)
  let ?s = "Pool_Remove L sid s"
  from Cons.prems obtain c where c: "conns s sid = Some c" by auto
  have w: "world ?s = ssh_close (lib_ssh L) c (world s)" by (simp add: Pool_Remove_def c close_client_def gauge_add_def)
  have same: "fold (\<lambda>i. ssh_close (lib_ssh L) (the (conns ?s i))) order v = fold (\<lambda>i. ssh_close (lib_ssh L) (the (conns s i))) order v"
    for v using Cons.prems(1) by (intro fold_cong) (auto simp: Pool_Remove_conns)
  have "set order \<subseteq> dom (conns ?s)" using Cons.prems by (auto simp: Pool_Remove_conns)
  with Cons.IH [of ?s] Cons.prems(1) show ?case by (simp add: Pool_Close_def w c same)
qed (simp add: Pool_Close_def)

text \<open>Closing the pool, in whatever order, leaves no client.\<close>

lemma Pool_Close_empties:
  assumes "gauge_exact s" and "dom (conns s) \<subseteq> set order"
  shows "conns (Pool_Close L order s) = Map.empty \<and> (\<forall>g. m_ssh_conns (Pool_Close L order s) = Some g \<longrightarrow> g = 0)"
proof -
  have "conns (Pool_Close L order s) i = None" for i using assms(2) by (auto simp: Pool_Close_conns)
  then have "conns (Pool_Close L order s) = Map.empty" by blast
  with pool_gauge.close [OF assms(1), of L order] show ?thesis by (simp add: gauge_exact_def)
qed

text \<open>In any sequence of the pool's operations the gauge of active connections is the number of
  cached clients, and closing the pool sets it to 0.\<close>

lemma pool_gauge_sequential:
  assumes "gauge_exact s" and "dom (conns (fold (pool_exec L) ops s)) \<subseteq> set order"
  shows "gauge_exact (fold (pool_exec L) ops s) \<and>
    conns (Pool_Close L order (fold (pool_exec L) ops s)) = Map.empty \<and>
    (\<forall>g. m_ssh_conns (Pool_Close L order (fold (pool_exec L) ops s)) = Some g \<longrightarrow> g = 0)"
  using pool_gauge.run [OF assms(1)] Pool_Close_empties [OF _ assms(2)] by blast

lemma pool_gauge_example:
  "let s = fold (pool_exec demo_libs) [OpExec 0 ''s1'' ''ls'', OpSession 0 ''s1''] (demo_pool ''k'') in
     m_ssh_conns (Pool_Close demo_libs [''s1''] s) = Some 0"
proof -
  let ?s = "fold (pool_exec demo_libs) [OpExec 0 ''s1'' ''ls'', OpSession 0 ''s1''] (demo_pool ''k'')"
  have g: "gauge_exact (demo_pool ''k'')" by (simp add: gauge_exact_def demo_pool_def)
  have d: "dom (conns ?s) \<subseteq> set [''s1'']" by (simp add: demo_exec_defs)
  have m: "m_ssh_conns (Pool_Close demo_libs [''s1''] ?s) \<noteq> None"
    by (simp add: demo_exec_defs Pool_Close_def Pool_Remove_def close_client_def)
  from pool_gauge_sequential [OF g d] m show ?thesis by (auto simp: Let_def)
qed

end
