(* ===== verification/PoolRace.thy ===== *)
theory PoolRace
  imports SshPool
begin

text \<open>
  The SSH pool under concurrency: goroutines that run \<open>Exec\<close> or \<open>Session\<close> at the same time. Each
  goroutine is in one of the phases between two accesses of what they share, the cache, its gauge
  and the database; a step is one locked section of \<open>pool.go\<close>, the update of the gauge or the
  \<open>Close\<close> after an unlock, one statement of the host key callback, the key exchange, the
  authentication or one attempt to open a session. \<open>Remove\<close> can happen any time. The counter of
  failed commands and the commands themselves are left out: no other step depends on them.
\<close>

section \<open>The parts of a connection attempt\<close>

text \<open>What \<open>connect\<close> knows when the host has presented its key.\<close>

record dialling =
  dl_addr :: string
  dl_user :: string
  dl_signer :: string
  dl_key :: bytes

definition dial_begin ::
  "'w libs \<Rightarrow> string \<Rightarrow> ('w, 'a) pool_state_scheme \<Rightarrow> (pool_error + dialling) \<times> ('w, 'a) pool_state_scheme" where
  "dial_begin L serverID s =
     (case GetServer (st_db s) serverID [] of
        Inl e \<Rightarrow> (Inl (PGetServer e), s)
      | Inr srv \<Rightarrow>
          (case getKey L s srv of
             Inl e \<Rightarrow> (Inl (PGetKey e), s)
           | Inr keyBytes \<Rightarrow>
               (case ParsePrivateKey (lib_ssh L) keyBytes of
                  None \<Rightarrow> (Inl PParseKey, s)
                | Some signer \<Rightarrow>
                    (let addr = srv_Host srv @ '':'' @ Itoa (srv_Port srv) in
                     case ssh_kex (lib_ssh L) addr (world s) of
                       (None, w') \<Rightarrow> (Inl PDial, s\<lparr>world := w'\<rparr>)
                     | (Some key, w') \<Rightarrow>
                         (Inr \<lparr>dl_addr = addr, dl_user = srv_SSHUser srv, dl_signer = signer, dl_key = key\<rparr>, s\<lparr>world := w'\<rparr>)))))"

definition dial_auth ::
  "'w libs \<Rightarrow> dialling \<Rightarrow> ('w, 'a) pool_state_scheme \<Rightarrow> (pool_error + nat) \<times> ('w, 'a) pool_state_scheme" where
  "dial_auth L d s =
     (case ssh_auth (lib_ssh L) (dl_addr d) (dl_user d) (dl_signer d) (dl_key d) (world s) of
        (None, w') \<Rightarrow> (Inl PAuth, s\<lparr>world := w'\<rparr>)
      | (Some c, w') \<Rightarrow> (Inr c, s\<lparr>world := w'\<rparr>))"

text \<open>One after the other they are \<open>connect\<close>.\<close>

lemma connect_parts:
  "connect L now sid s =
     (case dial_begin L sid s of
        (Inl e, s1) \<Rightarrow> (Inl e, s1)
      | (Inr d, s1) \<Rightarrow>
          (case hostKey_decide L now sid (dl_key d) (GetHostKey (st_db s1) sid) s1 of
             (Some e, s2) \<Rightarrow> (Inl e, s2)
           | (None, s2) \<Rightarrow> dial_auth L d s2))"
  by (auto simp: connect_def dial_begin_def ssh_Dial_def hostKeyCallback_def dial_auth_def Let_def
      split: sum.splits option.splits prod.splits)

section \<open>The machine\<close>

text \<open>
  The phases; the flag of a connection attempt says that it is the reconnection of \<open>Exec\<close>.
  \<open>Counting\<close>: the client is in the cache and the gauge not yet incremented. \<open>Surplus\<close>: another
  goroutine's client is used and the own one not yet closed.
\<close>

datatype phase =
    Idle | Dialling bool string | Offered bool string dialling
  | LookedUp bool string dialling "store_error + bytes \<times> string" | Accepted bool string dialling
  | Connected string nat | Reconnected string nat | Surplus string nat nat | Counting bool string nat
  | Using string nat | Dead string | Retrying string nat

text \<open>With \<open>flaky\<close> a lookup of a host key may fail at any time.\<close>

inductive pool_step ::
  "'w libs \<Rightarrow> bool \<Rightarrow> ('w, 'a) pool_state_scheme \<times> (nat \<Rightarrow> phase) \<Rightarrow> ('w, 'a) pool_state_scheme \<times> (nat \<Rightarrow> phase) \<Rightarrow> bool"
  for L flaky where
  hit: "\<lbrakk>gs i = Idle; conns s sid = Some c\<rbrakk> \<Longrightarrow> pool_step L flaky (s, gs) (s, gs(i := Using sid c))"
| miss: "\<lbrakk>gs i = Idle; conns s sid = None\<rbrakk> \<Longrightarrow> pool_step L flaky (s, gs) (s, gs(i := Dialling False sid))"
| begun: "\<lbrakk>gs i = Dialling re sid; dial_begin L sid s = (Inr d, s')\<rbrakk> \<Longrightarrow> pool_step L flaky (s, gs) (s', gs(i := Offered re sid d))"
| not_begun: "\<lbrakk>gs i = Dialling re sid; dial_begin L sid s = (Inl e, s')\<rbrakk> \<Longrightarrow> pool_step L flaky (s, gs) (s', gs(i := Idle))"
| looked_up: "gs i = Offered re sid d \<Longrightarrow> pool_step L flaky (s, gs) (s, gs(i := LookedUp re sid d (GetHostKey (st_db s) sid)))"
| lookup_failed: "\<lbrakk>flaky; gs i = Offered re sid d\<rbrakk> \<Longrightarrow> pool_step L flaky (s, gs) (s, gs(i := LookedUp re sid d (Inl IOError)))"
| accepted: "\<lbrakk>gs i = LookedUp re sid d f; hostKey_decide L now sid (dl_key d) f s = (None, s')\<rbrakk> \<Longrightarrow>
    pool_step L flaky (s, gs) (s', gs(i := Accepted re sid d))"
| rejected: "\<lbrakk>gs i = LookedUp re sid d f; hostKey_decide L now sid (dl_key d) f s = (Some e, s')\<rbrakk> \<Longrightarrow>
    pool_step L flaky (s, gs) (s', gs(i := Idle))"
| authenticated: "\<lbrakk>gs i = Accepted re sid d; dial_auth L d s = (Inr c, s')\<rbrakk> \<Longrightarrow>
    pool_step L flaky (s, gs) (s', gs(i := if re then Reconnected sid c else Connected sid c))"
| not_authenticated: "\<lbrakk>gs i = Accepted re sid d; dial_auth L d s = (Inl e, s')\<rbrakk> \<Longrightarrow> pool_step L flaky (s, gs) (s', gs(i := Idle))"
| published: "\<lbrakk>gs i = Connected sid c; publish_locked sid c s = (None, s')\<rbrakk> \<Longrightarrow>
    pool_step L flaky (s, gs) (s', gs(i := Counting False sid c))"
| surplus: "\<lbrakk>gs i = Connected sid c; publish_locked sid c s = (Some c', s')\<rbrakk> \<Longrightarrow>
    pool_step L flaky (s, gs) (s', gs(i := Surplus sid c' c))"
| closed: "gs i = Surplus sid c' c \<Longrightarrow> pool_step L flaky (s, gs) (close_client L c s, gs(i := Using sid c'))"
| counted: "gs i = Counting re sid c \<Longrightarrow>
    pool_step L flaky (s, gs) (gauge_add 1 s, gs(i := if re then Retrying sid c else Using sid c))"
| alive: "\<lbrakk>gs i = Using sid c; new_session L c s = (True, s')\<rbrakk> \<Longrightarrow> pool_step L flaky (s, gs) (s', gs(i := Idle))"
| dead: "\<lbrakk>gs i = Using sid c; new_session L c s = (False, s')\<rbrakk> \<Longrightarrow> pool_step L flaky (s, gs) (s', gs(i := Dead sid))"
| no_session: "\<lbrakk>gs i = Using sid c; new_session L c s = (False, s')\<rbrakk> \<Longrightarrow> pool_step L flaky (s, gs) (s', gs(i := Idle))"
| evicted: "gs i = Dead sid \<Longrightarrow> pool_step L flaky (s, gs) (evict sid s, gs(i := Dialling True sid))"
| overwritten: "gs i = Reconnected sid c \<Longrightarrow> pool_step L flaky (s, gs) (store_client sid c s, gs(i := Counting True sid c))"
| retried: "\<lbrakk>gs i = Retrying sid c; new_session L c s = (ok, s')\<rbrakk> \<Longrightarrow> pool_step L flaky (s, gs) (s', gs(i := Idle))"
| removed: "pool_step L flaky (s, gs) (Pool_Remove L sid s, gs)"

inductive_cases pool_stepE: "pool_step L flaky x y"

abbreviation pool_steps ::
  "'w libs \<Rightarrow> bool \<Rightarrow> ('w, 'a) pool_state_scheme \<times> (nat \<Rightarrow> phase) \<Rightarrow> ('w, 'a) pool_state_scheme \<times> (nat \<Rightarrow> phase) \<Rightarrow> bool" where
  "pool_steps L flaky \<equiv> (pool_step L flaky)\<^sup>*\<^sup>*"

lemma pool_steps_step: "pool_steps L flaky x y \<Longrightarrow> pool_step L flaky y z \<Longrightarrow> pool_steps L flaky x z"
  by (rule rtranclp.rtrancl_into_rtrancl)

text \<open>A goroutine that is not interrupted connects as \<open>connect\<close> does.\<close>

lemma connect_steps:
  assumes "gs i = Dialling re sid" and "connect L now sid s = (Inr c, s')"
  shows "pool_steps L flaky (s, gs) (s', gs(i := if re then Reconnected sid c else Connected sid c))"
proof -
  from assms(2) obtain d s1 s2 where d: "dial_begin L sid s = (Inr d, s1)"
    and k: "hostKey_decide L now sid (dl_key d) (GetHostKey (st_db s1) sid) s1 = (None, s2)" and a: "dial_auth L d s2 = (Inr c, s')"
    by (auto simp: connect_parts split: sum.splits option.splits prod.splits)
  have "pool_steps L flaky (s, gs) (s1, gs(i := Offered re sid d))" using pool_step.begun [of gs i re sid L s d s1 flaky] assms(1) d by blast
  also have "pool_step L flaky (s1, gs(i := Offered re sid d)) (s1, gs(i := LookedUp re sid d (GetHostKey (st_db s1) sid)))"
    using pool_step.looked_up [of "gs(i := Offered re sid d)" i re sid d L flaky s1] by simp
  also (pool_steps_step) have "pool_step L flaky (s1, gs(i := LookedUp re sid d (GetHostKey (st_db s1) sid))) (s2, gs(i := Accepted re sid d))"
    using pool_step.accepted [of "gs(i := LookedUp re sid d (GetHostKey (st_db s1) sid))" i, OF _ k] by simp
  also (pool_steps_step) have "pool_step L flaky (s2, gs(i := Accepted re sid d)) (s', gs(i := if re then Reconnected sid c else Connected sid c))"
    using pool_step.authenticated [of "gs(i := Accepted re sid d)" i, OF _ a] by simp
  finally (pool_steps_step) show ?thesis .
qed

section \<open>What the parts leave unchanged\<close>

lemma dial_begin_frame:
  "dial_begin L sid s = (r, s') \<Longrightarrow> conns s' = conns s \<and> m_ssh_conns s' = m_ssh_conns s \<and> st_db s' = st_db s"
  by (auto simp: dial_begin_def Let_def split: sum.splits option.splits prod.splits)

lemma hostKey_decide_frame:
  "hostKey_decide L now sid key f s = (e, s') \<Longrightarrow> conns s' = conns s \<and> m_ssh_conns s' = m_ssh_conns s \<and> world s' = world s"
  by (auto simp: hostKey_decide_def split: sum.splits if_splits)

lemma dial_auth_frame:
  "dial_auth L d s = (r, s') \<Longrightarrow> conns s' = conns s \<and> m_ssh_conns s' = m_ssh_conns s \<and> st_db s' = st_db s"
  by (auto simp: dial_auth_def split: option.splits prod.splits)

lemma new_session_frame:
  "new_session L c s = (ok, s') \<Longrightarrow> conns s' = conns s \<and> m_ssh_conns s' = m_ssh_conns s \<and> st_db s' = st_db s"
  by (auto simp: new_session_def split: prod.splits)

lemma connect_frame:
  assumes "connect L now sid s = (r, s')"
  shows "conns s' = conns s \<and> m_ssh_conns s' = m_ssh_conns s"
  using assms
  by (auto simp: connect_parts dest!: dial_begin_frame hostKey_decide_frame dial_auth_frame split: sum.splits option.splits prod.splits)

lemma pool_ops_db [simp]: "st_db (evict sid s) = st_db s" "st_db (store_client sid c s) = st_db s"
  "st_db (close_client L c s) = st_db s" "st_db (Pool_Remove L sid s) = st_db s"
  by (simp_all add: evict_def store_client_def close_client_def Pool_Remove_def split: option.splits)

section \<open>The gauge\<close>

text \<open>The goroutines that have stored a client and not yet counted it.\<close>

definition uncounted :: "(nat \<Rightarrow> phase) \<Rightarrow> nat set" where
  "uncounted gs = {i. \<exists>re sid c. gs i = Counting re sid c}"

lemma uncounted_upd:
  "uncounted (gs(i := p)) = (if \<exists>re sid c. p = Counting re sid c then insert i (uncounted gs) else uncounted gs - {i})"
  by (auto simp: uncounted_def)

lemma uncounted_idle [simp]: "uncounted (\<lambda>_. Idle) = {}"
  by (simp add: uncounted_def)

text \<open>The gauge is at least \<open>k\<close> above the number of clients that are counted.\<close>

definition covers :: "int \<Rightarrow> ('w, 'a) pool_state_scheme \<times> (nat \<Rightarrow> phase) \<Rightarrow> bool" where
  "covers k x \<longleftrightarrow> finite (dom (conns (fst x))) \<and> finite (uncounted (snd x)) \<and>
     (\<forall>g. m_ssh_conns (fst x) = Some g \<longrightarrow> int (card (dom (conns (fst x)))) + k \<le> g + int (card (uncounted (snd x))))"

text \<open>A step that stores and counts nothing.\<close>

lemma covers_same:
  assumes "covers k (s, gs)" and "conns s' = conns s \<and> m_ssh_conns s' = m_ssh_conns s"
    and "i \<notin> uncounted gs" and "\<nexists>re sid c. p = Counting re sid c"
  shows "covers k (s', gs(i := p))"
  using assms by (simp add: covers_def uncounted_upd)

lemma covers_store:
  assumes "covers k (s, gs)" and "i \<notin> uncounted gs"
  shows "covers k (store_client sid c s, gs(i := Counting re sid c))"
  using assms by (auto simp: covers_def store_client_def uncounted_upd card_insert_if)

lemma covers_count:
  assumes "covers k (s, gs)" and "i \<in> uncounted gs" and "\<nexists>re sid c. p = Counting re sid c"
  shows "covers k (gauge_add 1 s, gs(i := p))"
proof -
  have "finite (uncounted gs)" using assms(1) by (simp add: covers_def)
  from card.remove [OF this assms(2)] show ?thesis
    using assms by (auto simp: covers_def gauge_add_def uncounted_upd)
qed

lemma covers_drop:
  assumes "covers k (s, gs)" and "uncounted gs' = uncounted gs"
    and "conns s' = (conns s)(sid := None)" and "conns s sid \<noteq> None" and "m_ssh_conns s' = map_option (\<lambda>g. g - 1) (m_ssh_conns s)"
  shows "covers k (s', gs')"
proof -
  have "finite (dom (conns s))" "sid \<in> dom (conns s)" using assms by (auto simp: covers_def)
  from card.remove [OF this] show ?thesis using assms by (auto simp: covers_def)
qed

lemma covers_evict:
  assumes "covers k (s, gs)" and "uncounted gs' = uncounted gs"
  shows "covers k (evict sid s, gs')"
proof (cases "conns s sid")
  case None
  with assms show ?thesis by (simp add: evict_def covers_def)
next
  case (Some c)
  then show ?thesis by (intro covers_drop [OF assms, of _ sid]) (auto simp: evict_def gauge_add_def)
qed

lemma covers_remove:
  assumes "covers k (s, gs)"
  shows "covers k (Pool_Remove L sid s, gs)"
proof (cases "conns s sid")
  case None
  with assms show ?thesis by (simp add: Pool_Remove_def)
next
  case (Some c)
  then show ?thesis by (intro covers_drop [OF assms refl, of _ sid]) (auto simp: Pool_Remove_def close_client_def gauge_add_def)
qed

lemma not_uncounted: "gs i = p \<Longrightarrow> \<nexists>re sid c. p = Counting re sid c \<Longrightarrow> i \<notin> uncounted gs"
  by (simp add: uncounted_def)

lemma pool_step_covers: "pool_step L flaky x y \<Longrightarrow> covers k x \<Longrightarrow> covers k y"
proof (induction rule: pool_step.induct)
  case (published gs i sid c s s')
  then have "s' = store_client sid c s" by (auto simp: publish_locked_def split: option.splits)
  with published show ?case by (simp add: covers_store not_uncounted)
next
  case (surplus gs i sid c s c' s')
  then have "s' = s" by (auto simp: publish_locked_def split: option.splits)
  with surplus show ?case by (auto intro!: covers_same simp: uncounted_def)
next
  case (counted gs i re sid c s)
  then show ?case by (auto intro!: covers_count simp: uncounted_def)
next
  case (evicted gs i sid s)
  then show ?case by (auto intro!: covers_evict simp: uncounted_def split: if_splits)
next
  case (overwritten gs i sid c s)
  then show ?case by (simp add: covers_store not_uncounted)
qed (auto intro!: covers_same covers_remove simp: close_client_def uncounted_def
    dest: dial_begin_frame hostKey_decide_frame dial_auth_frame new_session_frame)

lemma pool_steps_covers: "pool_steps L flaky x y \<Longrightarrow> covers k x \<Longrightarrow> covers k y"
  by (induction rule: rtranclp_induct) (auto intro: pool_step_covers)

lemma covers_exact: "gauge_exact s \<Longrightarrow> covers 0 (s, \<lambda>_. Idle)"
  by (simp add: gauge_exact_def covers_def)

section \<open>Pinned host keys\<close>

text \<open>The pin of a server, and every lookup of it that a goroutine still holds.\<close>

definition pin_known :: "string \<Rightarrow> bytes \<times> string \<Rightarrow> ('w, 'a) pool_state_scheme \<times> (nat \<Rightarrow> phase) \<Rightarrow> bool" where
  "pin_known sid kf x \<longleftrightarrow> GetHostKey (st_db (fst x)) sid = Inr kf \<and>
     (\<forall>i re d f. snd x i = LookedUp re sid d f \<longrightarrow> f = Inr kf)"

lemma hostKey_decide_pinned:
  assumes "hostKey_decide L now sid' key f s = (e, s')" and "GetHostKey (st_db s) sid = Inr kf" and "sid' = sid \<longrightarrow> f = Inr kf"
  shows "GetHostKey (st_db s') sid = Inr kf"
proof (cases f)
  case (Inl x)
  with assms(3) have ne: "sid' \<noteq> sid" by auto
  have "GetHostKey d' sid = Inr kf" if "StoreHostKey (st_db s) sid' key fp = Inr d'" for d' fp
    using GetHostKey_StoreHostKey [OF that GetHostKey_Inr_fault [OF assms(2)]] assms(2) ne by simp
  with Inl assms(1,2) show ?thesis by (auto simp: hostKey_decide_def split: sum.splits)
next
  case (Inr y)
  with assms(1,2) show ?thesis by (auto simp: hostKey_decide_def split: prod.splits if_splits)
qed

lemma pin_known_same:
  assumes "pin_known sid kf (s, gs)" and "st_db s' = st_db s" and "\<nexists>re d f. p = LookedUp re sid d f"
  shows "pin_known sid kf (s', gs(i := p))"
  using assms by (auto simp: pin_known_def)

lemma pool_step_pinned: "pool_step L False x y \<Longrightarrow> pin_known sid kf x \<Longrightarrow> pin_known sid kf y"
proof (induction rule: pool_step.induct)
  case (looked_up gs i re sid' d s)
  then show ?case by (auto simp: pin_known_def)
next
  case (accepted gs i re sid' d f now s s')
  then have "GetHostKey (st_db s') sid = Inr kf"
    by (intro hostKey_decide_pinned [OF accepted(2)]) (auto simp: pin_known_def)
  with accepted show ?case by (auto simp: pin_known_def)
next
  case (rejected gs i re sid' d f now s e s')
  then have "GetHostKey (st_db s') sid = Inr kf"
    by (intro hostKey_decide_pinned [OF rejected(2)]) (auto simp: pin_known_def)
  with rejected show ?case by (auto simp: pin_known_def)
next
  case (removed s gs sid')
  then show ?case by (simp add: pin_known_def)
qed (auto intro!: pin_known_same simp: publish_locked_def split: option.splits
    dest: dial_begin_frame dial_auth_frame new_session_frame)

lemma pool_steps_pinned: "pool_steps L False x y \<Longrightarrow> pin_known sid kf x \<Longrightarrow> pin_known sid kf y"
  by (induction rule: rtranclp_induct) (auto intro: pool_step_pinned)

text \<open>Storing over a pin that another goroutine has just stored.\<close>

lemma decide_stores:
  assumes "\<not> fault (st_db s) XStoreHostKey" and "\<not> fault (st_db s) QHostKey" and "server_exists (st_db s) sid"
  shows "\<exists>s' fp. hostKey_decide L now sid key (Inl e) s = (None, s') \<and> GetHostKey (st_db s') sid = Inr (key, fp) \<and>
    fault (st_db s') = fault (st_db s) \<and> server_exists (st_db s') sid"
proof -
  obtain d' where d': "StoreHostKey (st_db s) sid key (FingerprintSHA256 (lib_ssh L) key) = Inr d'"
    using assms(1,3) by (simp add: StoreHostKey_def)
  have "fault d' = fault (st_db s)" "server_exists d' sid"
    using d' assms(3) by (auto simp: StoreHostKey_def server_exists_def split: if_splits)
  with d' GetHostKey_StoreHostKey [OF d' assms(2)] show ?thesis by (simp add: hostKey_decide_def)
qed

section \<open>Clients that nobody closes\<close>

text \<open>
  What the pool relies on of the SSH library's clients, for a predicate \<open>up\<close> that says that a client
  was made and not closed: only \<open>Close\<close> of the client itself ends it, and an authentication makes a
  new one.
\<close>

definition client_law :: "'w libs \<Rightarrow> (nat \<Rightarrow> 'w \<Rightarrow> bool) \<Rightarrow> bool" where
  "client_law L up \<longleftrightarrow>
     (\<forall>c w. up c w \<longrightarrow> (\<forall>addr. up c (snd (ssh_kex (lib_ssh L) addr w))) \<and>
        (\<forall>c'. up c (snd (ssh_new_session (lib_ssh L) c' w))) \<and>
        (\<forall>addr user signer key. up c (snd (ssh_auth (lib_ssh L) addr user signer key w)) \<and>
           fst (ssh_auth (lib_ssh L) addr user signer key w) \<noteq> Some c) \<and>
        (\<forall>c'. c' \<noteq> c \<longrightarrow> up c (ssh_close (lib_ssh L) c' w))) \<and>
     (\<forall>addr user signer key w c w'. ssh_auth (lib_ssh L) addr user signer key w = (Some c, w') \<longrightarrow> up c w')"

lemma dial_begin_up: "client_law L up \<Longrightarrow> dial_begin L sid s = (r, s') \<Longrightarrow> up c (world s) \<Longrightarrow> up c (world s')"
  unfolding client_law_def dial_begin_def
  by (auto simp: Let_def split: sum.splits option.splits prod.splits) (metis snd_conv)+

lemma dial_auth_up:
  assumes "client_law L up" and "dial_auth L d s = (r, s')"
  shows "up c (world s) \<Longrightarrow> up c (world s') \<and> r \<noteq> Inr c" and "r = Inr c' \<Longrightarrow> up c' (world s')"
  using assms unfolding client_law_def dial_auth_def
  by (auto split: option.splits prod.splits) (metis fst_conv snd_conv)+

lemma new_session_up: "client_law L up \<Longrightarrow> new_session L c' s = (ok, s') \<Longrightarrow> up c (world s) \<Longrightarrow> up c (world s')"
  unfolding client_law_def new_session_def by (auto split: prod.splits) (metis snd_conv)

lemma close_client_up: "client_law L up \<Longrightarrow> c' \<noteq> c \<Longrightarrow> up c (world s) \<Longrightarrow> up c (world (close_client L c' s))"
  unfolding client_law_def close_client_def by simp

lemma connect_up:
  assumes "client_law L up" and "connect L now sid s = (r, s')"
  shows "up c (world s) \<Longrightarrow> up c (world s') \<and> r \<noteq> Inr c" and "r = Inr c' \<Longrightarrow> up c' (world s')"
proof -
  obtain x s1 where b: "dial_begin L sid s = (x, s1)" by fastforce
  show "up c (world s) \<Longrightarrow> up c (world s') \<and> r \<noteq> Inr c"
    using assms(2) b dial_begin_up [OF assms(1) b, of c]
    by (cases x) (auto simp: connect_parts dest!: hostKey_decide_frame dest: dial_auth_up(1) [OF assms(1), where c = c]
        split: option.splits prod.splits)
  show "r = Inr c' \<Longrightarrow> up c' (world s')"
    using assms(2) b dial_auth_up(2) [OF assms(1)]
    by (cases x) (auto simp: connect_parts split: option.splits prod.splits)
qed

text \<open>The clients a goroutine holds.\<close>

fun held :: "phase \<Rightarrow> nat set" where
  "held (Connected sid c) = {c}"
| "held (Reconnected sid c) = {c}"
| "held (Surplus sid c' c) = {c', c}"
| "held (Counting re sid c) = {c}"
| "held (Using sid c) = {c}"
| "held (Retrying sid c) = {c}"
| "held _ = {}"

text \<open>A client that is open but neither cached nor held.\<close>

definition leaked :: "(nat \<Rightarrow> 'w \<Rightarrow> bool) \<Rightarrow> nat \<Rightarrow> ('w, 'a) pool_state_scheme \<times> (nat \<Rightarrow> phase) \<Rightarrow> bool" where
  "leaked up c x \<longleftrightarrow> up c (world (fst x)) \<and> c \<notin> ran (conns (fst x)) \<and> (\<forall>i. c \<notin> held (snd x i))"

lemma leaked_held: "leaked up c (s, gs) \<Longrightarrow> c \<notin> held (gs i)"
  by (simp add: leaked_def)

lemma leaked_same:
  assumes "leaked up c (s, gs)" and "up c (world s')" and "conns s' = conns s \<and> P" and "c \<notin> held p"
  shows "leaked up c (s', gs(i := p))"
  using assms by (simp add: leaked_def)

lemma ran_upd_None: "c \<notin> ran m \<Longrightarrow> c \<notin> ran (m(k := None))"
  by (auto simp: ran_def)

lemma ran_upd_Some: "c \<notin> ran m \<Longrightarrow> c' \<noteq> c \<Longrightarrow> c \<notin> ran (m(k \<mapsto> c'))"
  by (auto simp: ran_def)

lemma pool_step_leaked:
  assumes law: "client_law L up"
  shows "pool_step L flaky x y \<Longrightarrow> leaked up c0 x \<Longrightarrow> leaked up c0 y"
proof (induction rule: pool_step.induct)
  case (hit gs i s sid c)
  then have "c \<noteq> c0" by (auto simp: leaked_def ran_def)
  with hit show ?case by (auto simp: leaked_def)
next
  case (begun gs i re sid s d s')
  then show ?case using dial_begin_up [OF law begun(2), of c0]
    by (intro leaked_same [OF begun(3) _ dial_begin_frame [OF begun(2)]]) (auto simp: leaked_def)
next
  case (not_begun gs i re sid s e s')
  then show ?case using dial_begin_up [OF law not_begun(2), of c0]
    by (intro leaked_same [OF not_begun(3) _ dial_begin_frame [OF not_begun(2)]]) (auto simp: leaked_def)
next
  case (accepted gs i re sid d f now s s')
  from hostKey_decide_frame [OF accepted(2)] accepted(3) show ?case by (auto simp: leaked_def)
next
  case (rejected gs i re sid d f now s e s')
  from hostKey_decide_frame [OF rejected(2)] rejected(3) show ?case by (auto simp: leaked_def)
next
  case (authenticated gs i re sid d s c s')
  with dial_auth_up(1) [OF law authenticated(2), of c0] have "up c0 (world s')" "c \<noteq> c0" by (auto simp: leaked_def)
  then show ?case by (intro leaked_same [OF authenticated(3) _ dial_auth_frame [OF authenticated(2)]]) auto
next
  case (not_authenticated gs i re sid d s e s')
  with dial_auth_up(1) [OF law not_authenticated(2), of c0] show ?case
    by (intro leaked_same [OF not_authenticated(3) _ dial_auth_frame [OF not_authenticated(2)]]) (auto simp: leaked_def)
next
  case (published gs i sid c s s')
  then have "s' = store_client sid c s" by (auto simp: publish_locked_def split: option.splits)
  moreover have "c \<noteq> c0" using published(1,3) by (auto simp: leaked_def dest: spec [of _ i])
  ultimately show ?case using published(3) by (auto simp: leaked_def store_client_def ran_upd_Some)
next
  case (surplus gs i sid c s c' s')
  then have "s' = s" "c' \<noteq> c0" by (auto simp: publish_locked_def leaked_def ran_def split: option.splits)
  moreover have "c \<noteq> c0" using surplus(1,3) by (auto simp: leaked_def dest: spec [of _ i])
  ultimately show ?case using surplus(3) by (auto simp: leaked_def)
next
  case (closed gs i sid c' c s)
  then have "c0 \<notin> held (gs i)" by (intro leaked_held)
  with closed close_client_up [OF law, of c c0 s] show ?case by (auto simp: leaked_def close_client_def)
next
  case (counted gs i re sid c s)
  then have "c0 \<notin> held (gs i)" by (intro leaked_held)
  with counted show ?case by (auto simp: leaked_def gauge_add_def)
next
  case (alive gs i sid c s s')
  with new_session_up [OF law alive(2), of c0] show ?case
    by (intro leaked_same [OF alive(3) _ new_session_frame [OF alive(2)]]) (auto simp: leaked_def)
next
  case (dead gs i sid c s s')
  with new_session_up [OF law dead(2), of c0] show ?case
    by (intro leaked_same [OF dead(3) _ new_session_frame [OF dead(2)]]) (auto simp: leaked_def)
next
  case (no_session gs i sid c s s')
  with new_session_up [OF law no_session(2), of c0] show ?case
    by (intro leaked_same [OF no_session(3) _ new_session_frame [OF no_session(2)]]) (auto simp: leaked_def)
next
  case (evicted gs i sid s)
  then show ?case by (auto simp: leaked_def evict_def gauge_add_def ran_upd_None)
next
  case (overwritten gs i sid c s)
  then have "c0 \<notin> held (gs i)" by (intro leaked_held)
  with overwritten show ?case by (auto simp: leaked_def store_client_def ran_upd_Some)
next
  case (retried gs i sid c s ok s')
  with new_session_up [OF law retried(2), of c0] show ?case
    by (intro leaked_same [OF retried(3) _ new_session_frame [OF retried(2)]]) (auto simp: leaked_def)
next
  case (removed s gs sid)
  have "c \<noteq> c0" if "conns s sid = Some c" for c using removed that by (auto simp: leaked_def ran_def)
  with removed close_client_up [OF law] show ?case
    by (auto simp: leaked_def Pool_Remove_def gauge_add_def ran_upd_None split: option.splits)
qed (auto simp: leaked_def)

lemma pool_steps_leaked:
  assumes "client_law L up" and "pool_steps L flaky x y" and "leaked up c x"
  shows "leaked up c y"
  using assms(2,3) by (induction rule: rtranclp_induct) (auto intro: pool_step_leaked [OF assms(1)])

section \<open>Two reconnections at once\<close>

text \<open>Both find the client dead, the first forgets it, both reconnect, both store and count.\<close>

lemma both_reconnect:
  assumes "conns s sid = Some c" and "new_session L c s = (False, s1)" and "new_session L c s1 = (False, s2)"
    and "connect L now sid (evict sid s2) = (Inr c1, s3)" and "connect L now sid s3 = (Inr c2, s4)"
  shows "pool_steps L flaky (s, \<lambda>_. Idle)
    (gauge_add 1 (gauge_add 1 (store_client sid c2 (store_client sid c1 s4))),
     (\<lambda>_. Idle)(0 := Retrying sid c1, 1 := Retrying sid c2))"
proof -
  let ?gs = "\<lambda>a b. (\<lambda>_. Idle)(0 := a, 1 := b) :: nat \<Rightarrow> phase"
  have fst_upd: "(?gs a b)(0 := a') = ?gs a' b" and snd_upd: "(?gs a b)(1 := b') = ?gs a b'" for a b a' b'
    by (auto simp: fun_eq_iff)
  have at: "?gs a b 0 = a" "?gs a b 1 = b" for a b by simp_all
  note gs = fst_upd snd_upd
  let ?t1 = "store_client sid c1 s4" and ?t2 = "store_client sid c2 (store_client sid c1 s4)"
  have e: "evict sid (evict sid s2) = evict sid s2" by (simp add: evict_def gauge_add_def)
  have "pool_steps L flaky (s, ?gs Idle Idle) (s, ?gs (Using sid c) Idle)"
    using pool_step.hit [of "?gs Idle Idle" 0 s sid c L flaky] assms(1) unfolding gs by (simp add: r_into_rtranclp)
  also have "pool_step L flaky (s, ?gs (Using sid c) Idle) (s, ?gs (Using sid c) (Using sid c))"
    using pool_step.hit [of "?gs (Using sid c) Idle" 1 s sid c L flaky] assms(1) unfolding gs by simp
  also (pool_steps_step) have "pool_step L flaky (s, ?gs (Using sid c) (Using sid c)) (s1, ?gs (Dead sid) (Using sid c))"
    using pool_step.dead [of "?gs (Using sid c) (Using sid c)" 0 sid c L s s1 flaky] assms(2) unfolding gs by simp
  also (pool_steps_step) have "pool_step L flaky (s1, ?gs (Dead sid) (Using sid c)) (s2, ?gs (Dead sid) (Dead sid))"
    using pool_step.dead [of "?gs (Dead sid) (Using sid c)" 1 sid c L s1 s2 flaky] assms(3) unfolding gs by simp
  also (pool_steps_step) have "pool_step L flaky (s2, ?gs (Dead sid) (Dead sid)) (evict sid s2, ?gs (Dialling True sid) (Dead sid))"
    using pool_step.evicted [of "?gs (Dead sid) (Dead sid)" 0 sid L flaky s2] unfolding gs by simp
  also (pool_steps_step) have "pool_step L flaky (evict sid s2, ?gs (Dialling True sid) (Dead sid))
      (evict sid s2, ?gs (Dialling True sid) (Dialling True sid))"
    using pool_step.evicted [of "?gs (Dialling True sid) (Dead sid)" 1 sid L flaky "evict sid s2"] unfolding gs e by simp
  finally (pool_steps_step) have "pool_steps L flaky (s, ?gs Idle Idle) (evict sid s2, ?gs (Dialling True sid) (Dialling True sid))" .
  also have "pool_steps L flaky (evict sid s2, ?gs (Dialling True sid) (Dialling True sid)) (s3, ?gs (Reconnected sid c1) (Dialling True sid))"
    using connect_steps [of "?gs (Dialling True sid) (Dialling True sid)" 0 True sid, OF _ assms(4), of flaky] unfolding gs by simp
  also have "pool_steps L flaky (s3, ?gs (Reconnected sid c1) (Dialling True sid)) (s4, ?gs (Reconnected sid c1) (Reconnected sid c2))"
    using connect_steps [of "?gs (Reconnected sid c1) (Dialling True sid)" 1 True sid, OF _ assms(5), of flaky] unfolding gs by simp
  also have "pool_step L flaky (s4, ?gs (Reconnected sid c1) (Reconnected sid c2)) (?t1, ?gs (Counting True sid c1) (Reconnected sid c2))"
    using pool_step.overwritten [of "?gs (Reconnected sid c1) (Reconnected sid c2)" 0 sid c1 L flaky s4] unfolding gs by simp
  also (pool_steps_step) have "pool_step L flaky (?t1, ?gs (Counting True sid c1) (Reconnected sid c2)) (?t2, ?gs (Counting True sid c1) (Counting True sid c2))"
    using pool_step.overwritten [of "?gs (Counting True sid c1) (Reconnected sid c2)" 1 sid c2 L flaky ?t1] unfolding gs by simp
  also (pool_steps_step) have "pool_step L flaky (?t2, ?gs (Counting True sid c1) (Counting True sid c2))
      (gauge_add 1 ?t2, ?gs (Retrying sid c1) (Counting True sid c2))"
    using pool_step.counted [of "?gs (Counting True sid c1) (Counting True sid c2)" 0 True sid c1 L flaky ?t2] unfolding gs by simp
  also (pool_steps_step) have "pool_step L flaky (gauge_add 1 ?t2, ?gs (Retrying sid c1) (Counting True sid c2))
      (gauge_add 1 (gauge_add 1 ?t2), ?gs (Retrying sid c1) (Retrying sid c2))"
    using pool_step.counted [of "?gs (Retrying sid c1) (Counting True sid c2)" 1 True sid c2 L flaky "gauge_add 1 ?t2"] unfolding gs by simp
  finally (pool_steps_step) show ?thesis by (simp add: fun_upd_idem)
qed

text \<open>Then both use their clients.\<close>

lemma both_retry:
  assumes "new_session L c1 s = (ok1, s1)" and "new_session L c2 s1 = (ok2, s2)"
  shows "pool_steps L flaky (s, (\<lambda>_. Idle)(0 := Retrying sid c1, 1 := Retrying sid c2)) (s2, \<lambda>_. Idle)"
proof -
  have "pool_step L flaky (s, (\<lambda>_. Idle)(0 := Retrying sid c1, 1 := Retrying sid c2)) (s1, (\<lambda>_. Idle)(1 := Retrying sid c2))"
    using pool_step.retried [of "(\<lambda>_. Idle)(0 := Retrying sid c1, 1 := Retrying sid c2)" 0 sid c1 L s ok1 s1 flaky] assms(1)
    by (simp add: fun_upd_twist fun_upd_idem)
  moreover have "pool_step L flaky (s1, (\<lambda>_. Idle)(1 := Retrying sid c2)) (s2, \<lambda>_. Idle)"
    using pool_step.retried [of "(\<lambda>_. Idle)(1 := Retrying sid c2)" 1 sid c2 L s1 ok2 s2 flaky] assms(2)
    by (simp add: fun_upd_idem)
  ultimately show ?thesis by (meson r_into_rtranclp rtranclp.rtrancl_into_rtrancl)
qed

section \<open>Properties\<close>

text \<open>C22. However the goroutines interleave, from a pool at rest whose gauge counts its clients, the
  gauge of active connections and the increments that are still to come (a client is counted only
  after the lock is released) are together never below the number of cached clients; so where no
  increment is outstanding the gauge is not below it.\<close>

theorem pool_gauge_interleaved:
  assumes "pool_steps L flaky (s, \<lambda>_. Idle) (s', gs')" and "gauge_exact s" and "m_ssh_conns s' = Some g"
  shows "finite (dom (conns s')) \<and> finite (uncounted gs') \<and> int (card (dom (conns s'))) \<le> g + int (card (uncounted gs')) \<and>
    ((\<forall>i re sid c. gs' i \<noteq> Counting re sid c) \<longrightarrow> int (card (dom (conns s'))) \<le> g)"
proof -
  have "covers 0 (s', gs')" using pool_steps_covers [OF assms(1) covers_exact [OF assms(2)]] .
  moreover have "(\<forall>i re sid c. gs' i \<noteq> Counting re sid c) \<Longrightarrow> uncounted gs' = {}" by (auto simp: uncounted_def)
  ultimately show ?thesis using assms(3) by (auto simp: covers_def)
qed

definition demo_dead_pool :: "demo_net pool_state" where
  "demo_dead_pool = (demo_pool ''k'')\<lparr>conns := [''s1'' \<mapsto> 7], m_ssh_conns := Some 1,
     world := \<lparr>net_hostkey = ''k'', net_handle = 8, net_alive = {}\<rparr>\<rparr>"

lemma demo_dead_exact: "gauge_exact demo_dead_pool"
  by (simp add: gauge_exact_def demo_dead_pool_def)

theorem pool_gauge_interleaved_witness:
  "\<exists>s'. pool_steps demo_libs False (demo_dead_pool, \<lambda>_. Idle) (s', \<lambda>_. Idle) \<and>
     finite (dom (conns s')) \<and> int (card (dom (conns s'))) \<le> 0"
proof -
  let ?s' = "Pool_Remove demo_libs ''s1'' demo_dead_pool"
  have st: "pool_steps demo_libs False (demo_dead_pool, \<lambda>_. Idle) (?s', \<lambda>_. Idle)"
    by (intro r_into_rtranclp pool_step.removed)
  have m: "m_ssh_conns ?s' = Some 0"
    by (simp add: Pool_Remove_def demo_dead_pool_def gauge_add_def close_client_def)
  from pool_gauge_interleaved [OF st demo_dead_exact m] st show ?thesis by auto
qed

text \<open>C34. Two goroutines that find the cached client of a server dead and both reconnect leak a
  client: of their two clients, which are different, only the last is in the cache when both are
  done. The other one is open and in no goroutine's hands, and whatever the pool does afterwards
  it stays open and out of the cache, so that nobody closes it; and the gauge, with the increments
  still to come, stays at least one above the number of cached clients for good.\<close>

theorem pool_reconnect_race:
  assumes "client_law L up" and "\<forall>x \<in> ran (conns s). up x (world s)"
    and "conns s sid = Some c" and "new_session L c s = (False, s1)" and "new_session L c s1 = (False, s2)"
    and "connect L now sid (evict sid s2) = (Inr c1, s3)" and "connect L now sid s3 = (Inr c2, s4)"
    and "gauge_exact s" and "m_ssh_conns s = Some g"
  shows "c1 \<noteq> c2 \<and> (\<exists>s'. pool_steps L False (s, \<lambda>_. Idle) (s', \<lambda>_. Idle) \<and> conns s' = (conns s)(sid \<mapsto> c2) \<and>
    up c1 (world s') \<and> m_ssh_conns s' = Some (int (card (dom (conns s'))) + 1) \<and>
    (\<forall>flaky s'' gs''. pool_steps L flaky (s', \<lambda>_. Idle) (s'', gs'') \<longrightarrow> up c1 (world s'') \<and> c1 \<notin> ran (conns s'') \<and>
       (\<forall>g''. m_ssh_conns s'' = Some g'' \<longrightarrow> int (card (dom (conns s''))) + 1 \<le> g'' + int (card (uncounted gs'')))))"
proof -
  let ?o = "gauge_add 1 (gauge_add 1 (store_client sid c2 (store_client sid c1 s4)))"
  obtain ok1 s5 where r1: "new_session L c1 ?o = (ok1, s5)" by fastforce
  obtain ok2 s6 where r2: "new_session L c2 s5 = (ok2, s6)" by fastforce
  have steps: "pool_steps L False (s, \<lambda>_. Idle) (s6, \<lambda>_. Idle)"
    using both_reconnect [OF assms(3-7)] both_retry [OF r1 r2] by (rule rtranclp_trans)
  note fr = new_session_frame [OF r2] new_session_frame [OF r1] connect_frame [OF assms(7)] connect_frame [OF assms(6)]
    new_session_frame [OF assms(5)] new_session_frame [OF assms(4)]
  have c6: "conns s6 = (conns s)(sid \<mapsto> c2)" using fr assms(3) by (simp add: store_client_def evict_def)
  have m6: "m_ssh_conns s6 = Some (g + 1)"
    using fr assms(3,9) by (simp add: store_client_def evict_def gauge_add_def)
  have up3: "up c1 (world s3)" using connect_up(2) [OF assms(1,6)] by simp
  with connect_up(1) [OF assms(1,7)] have up4: "up c1 (world s4)" and ne: "c1 \<noteq> c2" by auto
  then have up6: "up c1 (world s6)"
    using new_session_up [OF assms(1) r2] new_session_up [OF assms(1) r1, of c1] by (simp add: store_client_def gauge_add_def)
  have old: "c1 \<noteq> x" if "x \<in> ran (conns s)" for x
  proof -
    have "up x (world (evict sid s2))"
      using that assms(2) new_session_up [OF assms(1,5)] new_session_up [OF assms(1,4)] by (simp add: evict_def gauge_add_def)
    with connect_up(1) [OF assms(1,6)] show ?thesis by auto
  qed
  have "c1 \<notin> ran (conns s)" using old by blast
  from ran_upd_Some [OF this, of c2 sid] have leak: "leaked up c1 (s6, \<lambda>_. Idle)" using up6 ne c6 by (simp add: leaked_def)
  have dom: "dom (conns s6) = dom (conns s)" using c6 assms(3) by auto
  have exact: "m_ssh_conns s6 = Some (int (card (dom (conns s6))) + 1)" using assms(8,9) m6 dom by (simp add: gauge_exact_def)
  have "finite (dom (conns s6))" using assms(8) dom by (simp add: gauge_exact_def)
  with exact have cov: "covers 1 (s6, \<lambda>_. Idle)" by (simp add: covers_def)
  have "up c1 (world s'') \<and> c1 \<notin> ran (conns s'') \<and>
       (\<forall>g''. m_ssh_conns s'' = Some g'' \<longrightarrow> int (card (dom (conns s''))) + 1 \<le> g'' + int (card (uncounted gs'')))"
    if "pool_steps L flaky (s6, \<lambda>_. Idle) (s'', gs'')" for flaky s'' gs''
    using pool_steps_leaked [OF assms(1) that leak] pool_steps_covers [OF that cov] by (simp add: leaked_def covers_def)
  with steps c6 up6 exact ne show ?thesis by blast
qed

text \<open>In the witness client 7 is not closed, but its host is gone.\<close>

definition demo_up :: "nat \<Rightarrow> demo_net \<Rightarrow> bool" where
  "demo_up c w \<longleftrightarrow> c < net_handle w \<and> (c = 7 \<or> c \<in> net_alive w)"

lemma demo_client_law: "client_law demo_libs demo_up"
  by (auto simp: client_law_def demo_libs_def demo_ssh_def demo_up_def)

theorem pool_reconnect_race_witness:
  "\<exists>s'. pool_steps demo_libs False (demo_dead_pool, \<lambda>_. Idle) (s', \<lambda>_. Idle) \<and> conns s' = [''s1'' \<mapsto> 9] \<and>
     demo_up 8 (world s') \<and> m_ssh_conns s' = Some 2"
proof -
  note defs = demo_exec_defs demo_dead_pool_def evict_def
  have d: "new_session demo_libs 7 demo_dead_pool = (False, demo_dead_pool)" by (simp add: defs)
  obtain s3 where c1: "connect demo_libs 0 ''s1'' (evict ''s1'' demo_dead_pool) = (Inr 8, s3)" by (simp add: defs)
  then obtain s4 where c2: "connect demo_libs 0 ''s1'' s3 = (Inr 9, s4)" by (auto simp: defs)
  have r: "\<forall>x \<in> ran (conns demo_dead_pool). demo_up x (world demo_dead_pool)"
    by (auto simp: demo_dead_pool_def demo_up_def ran_def split: if_splits)
  have "conns demo_dead_pool ''s1'' = Some 7" "m_ssh_conns demo_dead_pool = Some 1" by (simp_all add: demo_dead_pool_def)
  from pool_reconnect_race [OF demo_client_law r this(1) d d c1 c2 demo_dead_exact this(2)] obtain s' where
    "pool_steps demo_libs False (demo_dead_pool, \<lambda>_. Idle) (s', \<lambda>_. Idle)" "demo_up 8 (world s')"
    "conns s' = (conns demo_dead_pool)(''s1'' \<mapsto> 9)" "m_ssh_conns s' = Some (int (card (dom (conns s'))) + 1)" by blast
  then show ?thesis by (intro exI [of _ s']) (simp add: demo_dead_pool_def)
qed

text \<open>Two first connections that both look for the pin before either has stored it.\<close>

lemma both_first:
  assumes "conns s sid = None" and "dial_begin L sid s = (Inr d1, s1)" and "dial_begin L sid s1 = (Inr d2, s2)"
    and "GetHostKey (st_db s) sid = Inl NotFound"
  shows "pool_steps L flaky (s, \<lambda>_. Idle)
    (s2, (\<lambda>_. Idle)(0 := LookedUp False sid d1 (Inl NotFound), 1 := LookedUp False sid d2 (Inl NotFound)))"
proof -
  let ?gs = "\<lambda>a b. (\<lambda>_. Idle)(0 := a, 1 := b) :: nat \<Rightarrow> phase"
  have gs: "(?gs a b)(0 := a') = ?gs a' b" "(?gs a b)(1 := b') = ?gs a b'" for a b a' b'
    by (auto simp: fun_eq_iff)
  have k: "GetHostKey (st_db s2) sid = Inl NotFound" "conns s1 sid = None"
    using dial_begin_frame [OF assms(2)] dial_begin_frame [OF assms(3)] assms(1,4) by auto
  have "pool_steps L flaky (s, ?gs Idle Idle) (s, ?gs (Dialling False sid) Idle)"
    using pool_step.miss [of "?gs Idle Idle" 0 s sid L flaky] assms(1) unfolding gs by (simp add: r_into_rtranclp)
  also have "pool_step L flaky (s, ?gs (Dialling False sid) Idle) (s1, ?gs (Offered False sid d1) Idle)"
    using pool_step.begun [of "?gs (Dialling False sid) Idle" 0 False sid L s d1 s1 flaky] assms(2) unfolding gs by simp
  also (pool_steps_step) have "pool_step L flaky (s1, ?gs (Offered False sid d1) Idle) (s1, ?gs (Offered False sid d1) (Dialling False sid))"
    using pool_step.miss [of "?gs (Offered False sid d1) Idle" 1 s1 sid L flaky] k(2) unfolding gs by simp
  also (pool_steps_step) have "pool_step L flaky (s1, ?gs (Offered False sid d1) (Dialling False sid)) (s2, ?gs (Offered False sid d1) (Offered False sid d2))"
    using pool_step.begun [of "?gs (Offered False sid d1) (Dialling False sid)" 1 False sid L s1 d2 s2 flaky] assms(3) unfolding gs by simp
  also (pool_steps_step) have "pool_step L flaky (s2, ?gs (Offered False sid d1) (Offered False sid d2))
      (s2, ?gs (LookedUp False sid d1 (Inl NotFound)) (Offered False sid d2))"
    using pool_step.looked_up [of "?gs (Offered False sid d1) (Offered False sid d2)" 0 False sid d1 L flaky s2] k(1) unfolding gs by simp
  also (pool_steps_step) have "pool_step L flaky (s2, ?gs (LookedUp False sid d1 (Inl NotFound)) (Offered False sid d2))
      (s2, ?gs (LookedUp False sid d1 (Inl NotFound)) (LookedUp False sid d2 (Inl NotFound)))"
    using pool_step.looked_up [of "?gs (LookedUp False sid d1 (Inl NotFound)) (Offered False sid d2)" 1 False sid d2 L flaky s2] k(1)
    unfolding gs by simp
  finally (pool_steps_step) show ?thesis by (simp add: fun_upd_idem)
qed

lemma dial_begin_exists: "dial_begin L sid s = (Inr d, s') \<Longrightarrow> server_exists (st_db s) sid"
  by (auto simp: dial_begin_def GetServer_def server_exists_def list_ex_iff dest!: find_row_Some
      split: sum.splits if_splits option.splits)

text \<open>C40. Pinned host keys under concurrency. However connections to whatever servers interleave, a key
  that is pinned when they start stays pinned, as long as reading host keys does not fail. But the
  first connections of a server may race: when two look for the pin before either has stored it,
  both are accepted, and the key pinned by the first is replaced by the key that the second host
  presented, whatever it is, instead of being checked against it.\<close>

theorem pins_interleaved:
  "(GetHostKey (st_db s) sid = Inr kf \<longrightarrow> pool_steps L False (s, \<lambda>_. Idle) (s', gs') \<longrightarrow> GetHostKey (st_db s') sid = Inr kf) \<and>
   (\<forall>d1 s1 d2 s2. conns s sid = None \<longrightarrow> GetHostKey (st_db s) sid = Inl NotFound \<longrightarrow> \<not> fault (st_db s) XStoreHostKey \<longrightarrow>
      dial_begin L sid s = (Inr d1, s1) \<longrightarrow> dial_begin L sid s1 = (Inr d2, s2) \<longrightarrow>
      (\<exists>t t' fp fp'. let gs = (\<lambda>_. Idle)(0 := Accepted False sid d1, 1 := LookedUp False sid d2 (Inl NotFound)) in
         pool_steps L False (s, \<lambda>_. Idle) (t, gs) \<and> GetHostKey (st_db t) sid = Inr (dl_key d1, fp) \<and>
         pool_step L False (t, gs) (t', gs(1 := Accepted False sid d2)) \<and> GetHostKey (st_db t') sid = Inr (dl_key d2, fp')))"
proof (intro conjI impI allI)
  assume p: "GetHostKey (st_db s) sid = Inr kf" and st: "pool_steps L False (s, \<lambda>_. Idle) (s', gs')"
  have "pin_known sid kf (s, \<lambda>_. Idle)" using p by (simp add: pin_known_def)
  from pool_steps_pinned [OF st this] show "GetHostKey (st_db s') sid = Inr kf" by (simp add: pin_known_def)
next
  fix d1 s1 d2 s2
  assume a: "conns s sid = None" "GetHostKey (st_db s) sid = Inl NotFound" "\<not> fault (st_db s) XStoreHostKey"
    "dial_begin L sid s = (Inr d1, s1)" "dial_begin L sid s1 = (Inr d2, s2)"
  let ?l = "\<lambda>d. LookedUp False sid d (Inl NotFound)"
  let ?both = "(\<lambda>_. Idle)(0 := ?l d1, 1 := ?l d2) :: nat \<Rightarrow> phase"
  let ?gs = "(\<lambda>_. Idle)(0 := Accepted False sid d1, 1 := ?l d2) :: nat \<Rightarrow> phase"
  have db: "st_db s2 = st_db s" using dial_begin_frame [OF a(4)] dial_begin_frame [OF a(5)] by simp
  have f: "\<not> fault (st_db s2) QHostKey" using a(2) db by (auto simp: GetHostKey_def split: if_splits option.splits)
  from decide_stores [of s2 sid L 0 "dl_key d1" NotFound] a(3) f db dial_begin_exists [OF a(4)] obtain t fp where
    t: "hostKey_decide L 0 sid (dl_key d1) (Inl NotFound) s2 = (None, t)" "GetHostKey (st_db t) sid = Inr (dl_key d1, fp)"
      "fault (st_db t) = fault (st_db s2)" "server_exists (st_db t) sid" by auto
  from decide_stores [of t sid L 0 "dl_key d2" NotFound] a(3) f db t(3,4) obtain t' fp' where
    t': "hostKey_decide L 0 sid (dl_key d2) (Inl NotFound) t = (None, t')" "GetHostKey (st_db t') sid = Inr (dl_key d2, fp')" by auto
  have "pool_step L False (s2, ?both) (t, ?both(0 := Accepted False sid d1))" 
    using pool_step.accepted [of ?both 0 False sid d1 "Inl NotFound" L 0 s2 t False] t(1) by simp
  also have "?both(0 := Accepted False sid d1) = ?gs" by (auto simp: fun_eq_iff)
  finally have "pool_steps L False (s, \<lambda>_. Idle) (t, ?gs)"
    using both_first [OF a(1,4,5,2), of False] by (rule pool_steps_step [rotated])
  moreover have "pool_step L False (t, ?gs) (t', ?gs(1 := Accepted False sid d2))" 
    using pool_step.accepted [of ?gs 1 False sid d2 "Inl NotFound" L 0 t t' False] t'(1) by simp
  ultimately show "\<exists>t t' fp fp'. let gs = (\<lambda>_. Idle)(0 := Accepted False sid d1, 1 := ?l d2) in
         pool_steps L False (s, \<lambda>_. Idle) (t, gs) \<and> GetHostKey (st_db t) sid = Inr (dl_key d1, fp) \<and>
         pool_step L False (t, gs) (t', gs(1 := Accepted False sid d2)) \<and> GetHostKey (st_db t') sid = Inr (dl_key d2, fp')"
    using t(2) t'(2) unfolding Let_def by blast
qed

text \<open>A network in which the second connection reaches another host than the first.\<close>

definition demo_mitm :: "demo_net libs" where
  "demo_mitm = demo_libs\<lparr>lib_ssh := demo_ssh\<lparr>ssh_kex := (\<lambda>addr w. (Some (net_hostkey w), w\<lparr>net_hostkey := ''evil''\<rparr>))\<rparr>\<rparr>"

definition demo_unpinned :: "demo_net pool_state" where
  "demo_unpinned = (demo_pool ''k'')\<lparr>st_db := (st_db (demo_pool ''k''))\<lparr>host_keys := []\<rparr>\<rparr>"

theorem pins_interleaved_witness:
  "\<exists>t t' gs gs' fp fp'. pool_steps demo_mitm False (demo_unpinned, \<lambda>_. Idle) (t, gs) \<and>
     GetHostKey (st_db t) ''s1'' = Inr (''k'', fp) \<and> pool_step demo_mitm False (t, gs) (t', gs') \<and>
     GetHostKey (st_db t') ''s1'' = Inr (''evil'', fp')"
proof -
  note defs = demo_unpinned_def demo_mitm_def dial_begin_def demo_exec_defs
  have p: "conns demo_unpinned ''s1'' = None" "GetHostKey (st_db demo_unpinned) ''s1'' = Inl NotFound"
    "\<not> fault (st_db demo_unpinned) XStoreHostKey"
    by (simp_all add: demo_unpinned_def demo_pool_def demo_defs GetHostKey_def)
  let ?s1 = "demo_unpinned\<lparr>world := (world demo_unpinned)\<lparr>net_hostkey := ''evil''\<rparr>\<rparr>"
  have "\<exists>d1. dial_begin demo_mitm ''s1'' demo_unpinned = (Inr d1, ?s1) \<and> dl_key d1 = ''k''" by (simp add: defs)
  then obtain d1 where d1: "dial_begin demo_mitm ''s1'' demo_unpinned = (Inr d1, ?s1)" "dl_key d1 = ''k''" by blast
  have "\<exists>d2 s2. dial_begin demo_mitm ''s1'' ?s1 = (Inr d2, s2) \<and> dl_key d2 = ''evil''" by (simp add: defs)
  then obtain d2 s2 where d2: "dial_begin demo_mitm ''s1'' ?s1 = (Inr d2, s2)" "dl_key d2 = ''evil''" by blast
  from pins_interleaved [of demo_unpinned "''s1''" undefined demo_mitm demo_unpinned "\<lambda>_. Idle"] p d1 d2 show ?thesis
    unfolding Let_def by metis
qed

end
