(* ===== verification/SessionNames.thy ===== *)
theory SessionNames
  imports GoLib
begin

text \<open>
  The names and shell commands of tmux sessions: the two regular expressions, the name
  sanitiser, the shell quoting and the commands that \<open>internal/session/manager.go\<close> and
  \<open>internal/terminal/bridge.go\<close> send to the remote shell. The remote shell is specified by
  the POSIX quoting rules on the fragment of its grammar that these commands stay in.
\<close>

section \<open>Names and quoting\<close>

definition safe_char :: "char \<Rightarrow> bool" where
  "safe_char c \<longleftrightarrow> byte_in 97 122 c \<or> byte_in 65 90 c \<or> byte_in 48 57 c \<or> c = CHR ''_'' \<or> c = CHR ''-''"

text \<open>\<open>safeNameRe\<close> and \<open>safeSessionNameRe\<close>, both \<open>^[a-zA-Z0-9_-]+$\<close>.\<close>

definition safeNameRe :: "string \<Rightarrow> bool" where
  "safeNameRe s \<longleftrightarrow> s \<noteq> [] \<and> list_all safe_char s"

text \<open>
  \<open>sanitizeName\<close>: \<open>unsafeNameRe.ReplaceAllLiteralString(s, "_")\<close> replaces one rune, not
  one byte, at a time.
\<close>

function sanitizeName :: "string \<Rightarrow> string" where
  "sanitizeName s =
     (case s of
        [] \<Rightarrow> []
      | c # r \<Rightarrow> if safe_char c then c # sanitizeName r
                 else CHR ''_'' # sanitizeName (drop (rune_len s) s))"
  by pat_completeness auto
termination
  by (relation "measure length") (auto simp: rune_len_pos)

declare sanitizeName.simps [simp del]

text \<open>\<open>shellEscape\<close>: every quote becomes quote, backslash, quote, quote.\<close>

abbreviation quote_char :: char where
  "quote_char \<equiv> CHR 0x27"

abbreviation backslash_char :: char where
  "backslash_char \<equiv> CHR 0x5C"

definition shellEscape :: "string \<Rightarrow> string" where
  "shellEscape s =
     [quote_char] @ ReplaceAll s quote_char [quote_char, backslash_char, quote_char, quote_char] @ [quote_char]"

text \<open>\<open>randomShortID\<close> on the three random bytes it draws.\<close>

definition randomShortID :: "bytes \<Rightarrow> string" where
  "randomShortID b = hex_encode (take 3 b)"

text \<open>The name and the command line of \<open>CreateSession\<close>.\<close>

definition session_name :: "string \<Rightarrow> string \<Rightarrow> string \<Rightarrow> string" where
  "session_name user label shortID = sanitizeName user @ ''-'' @ sanitizeName label @ ''-'' @ shortID"

definition create_command :: "string \<Rightarrow> string \<Rightarrow> string \<Rightarrow> string" where
  "create_command name workdir command =
     ''tmux new-session -d -s '' @ name
       @ (if workdir \<noteq> [] then '' -c '' @ shellEscape workdir else [])
       @ (if command \<noteq> [] then '' '' @ shellEscape command else [])"

text \<open>The command lines of \<open>KillSession\<close> and of the terminal bridge.\<close>

definition kill_command :: "string \<Rightarrow> string" where
  "kill_command sessionName = ''tmux kill-session -t '' @ sessionName"

definition attach_command :: "string \<Rightarrow> string" where
  "attach_command sessionName = ''tmux new -A -s '' @ sessionName"

section \<open>The remote shell's view\<close>

text \<open>
  What a POSIX shell makes of a command line (XCU 2.2 and 2.3), on a fragment: blanks
  separate words, single quotes keep everything up to the next quote, a backslash keeps
  the next character, letters, digits, underscore and hyphen stand for themselves. Every
  other use of a character (expansion, redirection, a control operator, an unclosed
  quote, a NUL byte, which no argument can hold) is outside the fragment: \<open>None\<close>.
\<close>

fun sh_plain :: "string option \<Rightarrow> string \<Rightarrow> string list option"
  and sh_quoted :: "string \<Rightarrow> string \<Rightarrow> string list option" where
  "sh_plain None [] = Some []"
| "sh_plain (Some w) [] = Some [w]"
| "sh_plain cur (c # s) =
     (let w = (case cur of None \<Rightarrow> [] | Some w \<Rightarrow> w) in
      if c = CHR '' '' then
        (case cur of None \<Rightarrow> sh_plain None s | Some w \<Rightarrow> map_option ((#) w) (sh_plain None s))
      else if c = quote_char then sh_quoted w s
      else if c = backslash_char then
        (case s of
           [] \<Rightarrow> None
         | d # s' \<Rightarrow> if d = CHR 0x0A \<or> d = CHR 0x00 then None else sh_plain (Some (w @ [d])) s')
      else if safe_char c then sh_plain (Some (w @ [c])) s
      else None)"
| "sh_quoted w [] = None"
| "sh_quoted w (c # s) =
     (if c = quote_char then sh_plain (Some w) s
      else if c = CHR 0x00 then None
      else sh_quoted (w @ [c]) s)"

definition shell_words :: "string \<Rightarrow> string list option" where
  "shell_words s = sh_plain None s"

section \<open>Facts about names\<close>

lemma sanitizeName_Nil [simp]: "sanitizeName [] = []"
  by (simp add: sanitizeName.simps)

lemma sanitizeName_Cons:
  "sanitizeName (c # r) = (if safe_char c then c # sanitizeName r
     else CHR ''_'' # sanitizeName (drop (rune_len (c # r)) (c # r)))"
  by (subst sanitizeName.simps) simp

lemma safe_char_literals [simp]: "safe_char (CHR ''_'')" "safe_char (CHR ''-'')"
  by (simp_all add: safe_char_def)

lemma sanitizeName_safe: "list_all safe_char (sanitizeName s)"
proof (induction s rule: sanitizeName.induct)
  case (1 s)
  show ?case
  proof (cases s)
    case (Cons x r)
    with 1 show ?thesis by (cases "safe_char x") (auto simp: sanitizeName_Cons)
  qed simp
qed

lemma sanitizeName_id: "list_all safe_char s \<Longrightarrow> sanitizeName s = s"
  by (induction s) (simp_all add: sanitizeName_Cons)

lemma sanitizeName_empty [simp]: "sanitizeName s = [] \<longleftrightarrow> s = []"
  by (cases s) (auto simp: sanitizeName_Cons)

lemma hex_char_safe: "d < 16 \<Longrightarrow> safe_char (hex_char d)"
  by (auto simp: safe_char_def hex_char_def byte_in_def)

lemma hex_encode_safe: "list_all safe_char (hex_encode b)"
  by (induction b rule: hex_encode.induct)
     (auto intro!: hex_char_safe simp: less_mult_imp_div_less of_char_of)

lemma session_name_safe:
  "list_all safe_char shortID \<Longrightarrow> safeNameRe (session_name user label shortID)"
  by (simp add: safeNameRe_def session_name_def sanitizeName_safe)

lemma randomShortID_safe: "list_all safe_char (randomShortID b)"
  by (simp add: randomShortID_def hex_encode_safe)

section \<open>Facts about the shell fragment\<close>

lemma safe_char_plain:
  "safe_char c \<Longrightarrow> c \<noteq> CHR '' '' \<and> c \<noteq> quote_char \<and> c \<noteq> backslash_char"
  by (auto simp: safe_char_def byte_in_def)

lemma sh_plain_safe:
  "list_all safe_char p \<Longrightarrow> sh_plain (Some w) (p @ s) = sh_plain (Some (w @ p)) s"
  by (induction p arbitrary: w) (auto dest: safe_char_plain)

lemma sh_plain_word:
  assumes "safeNameRe p"
  shows "sh_plain None (p @ s) = sh_plain (Some p) s"
proof -
  obtain c q where p: "p = c # q" "safe_char c" "list_all safe_char q"
    using assms by (cases p) (auto simp: safeNameRe_def)
  then show ?thesis using sh_plain_safe [of q "[c]" s] safe_char_plain [of c] by simp
qed

lemma sh_plain_blank: "sh_plain (Some w) (CHR '' '' # s) = map_option ((#) w) (sh_plain None s)"
  by simp

lemma sh_quoted_escape:
  "CHR 0x00 \<notin> set x \<Longrightarrow>
    sh_quoted w (ReplaceAll x quote_char [quote_char, backslash_char, quote_char, quote_char] @ quote_char # s)
      = sh_plain (Some (w @ x)) s"
  by (induction x arbitrary: w) (auto simp: ReplaceAll_def)

lemma sh_plain_shellEscape:
  "CHR 0x00 \<notin> set x \<Longrightarrow> sh_plain None (shellEscape x @ s) = sh_plain (Some x) s"
  using sh_quoted_escape [of x "[]" s] by (simp add: shellEscape_def)

section \<open>Properties\<close>

text \<open>
  C12. The command line of \<open>CreateSession\<close> cannot be subverted: for every user, label,
  working directory and command (without NUL bytes), the remote shell reads it as one
  \<open>tmux new-session\<close> with exactly the generated name, the directory and the command as
  single arguments, byte for byte.
\<close>

theorem create_command_words:
  assumes "CHR 0x00 \<notin> set workdir" and "CHR 0x00 \<notin> set command"
  shows "shell_words (create_command (session_name user label (randomShortID rnd)) workdir command) =
    Some ([''tmux'', ''new-session'', ''-d'', ''-s'', session_name user label (randomShortID rnd)]
      @ (if workdir = [] then [] else [''-c'', workdir])
      @ (if command = [] then [] else [command]))"
proof -
  let ?name = "session_name user label (randomShortID rnd)"
  have name: "sh_plain None (?name @ s) = sh_plain (Some ?name) s" for s
    by (rule sh_plain_word) (simp add: session_name_safe randomShortID_safe)
  have word: "sh_plain None (p @ CHR '' '' # s) = map_option ((#) p) (sh_plain None s)"
    if "safeNameRe p" for p s
    using sh_plain_word [OF that] by simp
  have safe: "safeNameRe ''tmux''" "safeNameRe ''new-session''" "safeNameRe ''-d''"
      "safeNameRe ''-s''" "safeNameRe ''-c''"
    by (simp_all add: safeNameRe_def safe_char_def byte_in_def)
  have prefix: "shell_words (''tmux new-session -d -s '' @ ?name @ s) =
      map_option (\<lambda>ws. [''tmux'', ''new-session'', ''-d'', ''-s''] @ ws) (sh_plain (Some ?name) s)" for s
    using word [OF safe(1)] word [OF safe(2)] word [OF safe(3)] word [OF safe(4)] name [of s]
    by (simp add: shell_words_def option.map_comp comp_def)
  show ?thesis
    unfolding create_command_def
    using prefix word [OF safe(5)] sh_plain_shellEscape [OF assms(1)] sh_plain_shellEscape [OF assms(2)]
      sh_plain_shellEscape [OF assms(1), of "[]"] sh_plain_shellEscape [OF assms(2), of "[]"]
    by (simp add: option.map_comp comp_def)
qed

theorem create_command_words_witness:
  "shell_words (create_command (session_name ''al/ice'' ''it;rm'' (randomShortID [CHR 0x0A, CHR 0xFF, CHR 0x30]))
      ''/tmp/$(id)'' [quote_char, CHR '';'', quote_char]) =
    Some [''tmux'', ''new-session'', ''-d'', ''-s'', ''al_ice-it_rm-0aff30'', ''-c'', ''/tmp/$(id)'',
      [quote_char, CHR '';'', quote_char]]"
proof -
  have "session_name ''al/ice'' ''it;rm'' (randomShortID [CHR 0x0A, CHR 0xFF, CHR 0x30]) = ''al_ice-it_rm-0aff30''"
    by code_simp
  with create_command_words [of "''/tmp/$(id)''" "[quote_char, CHR '';'', quote_char]" "''al/ice''" "''it;rm''"
      "[CHR 0x0A, CHR 0xFF, CHR 0x30]"]
  show ?thesis by simp
qed

lemma safe_name_commands:
  assumes "safeNameRe n"
  shows kill_command_words: "shell_words (kill_command n) = Some [''tmux'', ''kill-session'', ''-t'', n]"
    and attach_command_words: "shell_words (attach_command n) = Some [''tmux'', ''new'', ''-A'', ''-s'', n]"
proof -
  have word: "sh_plain None (p @ CHR '' '' # s) = map_option ((#) p) (sh_plain None s)"
    if "safeNameRe p" for p s
    using sh_plain_word [OF that] by simp
  have safe: "safeNameRe ''tmux''" "safeNameRe ''kill-session''" "safeNameRe ''-t''"
      "safeNameRe ''new''" "safeNameRe ''-A''" "safeNameRe ''-s''"
    by (simp_all add: safeNameRe_def safe_char_def byte_in_def)
  note words = word [OF safe(1)] word [OF safe(2)] word [OF safe(3)] word [OF safe(4)] word [OF safe(5)]
    word [OF safe(6)] sh_plain_word [of n "[]"]
  show "shell_words (kill_command n) = Some [''tmux'', ''kill-session'', ''-t'', n]"
    "shell_words (attach_command n) = Some [''tmux'', ''new'', ''-A'', ''-s'', n]"
    using words assms by (auto simp: shell_words_def kill_command_def attach_command_def)
qed

text \<open>
  C26. A session name that the check of \<open>KillSession\<close> and of the terminal bridge accepts is
  one word of the remote shell in both commands, and every name \<open>CreateSession\<close> generates
  is accepted.
\<close>

theorem accepted_names_are_words:
  shows "safeNameRe (session_name user label (randomShortID rnd)) \<and>
    (safeNameRe n \<longrightarrow>
      shell_words (kill_command n) = Some [''tmux'', ''kill-session'', ''-t'', n] \<and>
      shell_words (attach_command n) = Some [''tmux'', ''new'', ''-A'', ''-s'', n])"
  by (simp add: kill_command_words attach_command_words session_name_safe randomShortID_safe)

theorem accepted_names_are_words_witness:
  "safeNameRe ''web-1'' \<and> shell_words (kill_command ''web-1'') = Some [''tmux'', ''kill-session'', ''-t'', ''web-1'']"
proof -
  have "safeNameRe ''web-1''" by (simp add: safeNameRe_def safe_char_def byte_in_def)
  with accepted_names_are_words [of "[]" "[]" "[]" "''web-1''"] show ?thesis by simp
qed

end
