(* ===== verification/Sessions.thy ===== *)
theory Sessions
  imports SshPool SessionNames
begin

text \<open>
  The session manager, \<open>internal/session/manager.go\<close>: listing, creating and killing tmux
  sessions over the SSH pool, the parser of tmux's list, the cache of sessions and the
  background poll that fills it and keeps the servers' status: one server after the other, so that
  a signal to stop can come in the middle.
\<close>

section \<open>State\<close>

record tmux_session =
  ts_Name :: string
  ts_Created :: int
  ts_Windows :: int
  ts_Attached :: int
  ts_LastActivity :: int
  ts_Idle :: string
  ts_SSHCommand :: string

text \<open>\<open>Manager\<close>: the cache, the buffered channel \<open>intervalCh\<close> of capacity one, and the metric
  \<open>SessionsActive\<close> by server.\<close>

record 'w mgr_state = "'w pool_state" +
  sm_sessions :: "string \<rightharpoonup> tmux_session list"
  sm_intervalCh :: "duration option"
  m_sessions :: "(string \<rightharpoonup> nat) option"

section \<open>Parsing\<close>

definition formatIdle :: "int \<Rightarrow> string" where
  "formatIdle seconds =
     (if seconds < 60 then Itoa seconds @ ''s''
      else if seconds < 3600 then Itoa (go_div seconds 60) @ ''m''
      else Itoa (go_div seconds 3600) @ ''h'' @ Itoa (go_div (go_mod seconds 3600) 60) @ ''m'')"

text \<open>The body of the loop of \<open>parseSessions\<close>, at Unix time \<open>unix\<close>.\<close>

definition parse_line :: "int \<Rightarrow> server \<Rightarrow> string \<Rightarrow> tmux_session option" where
  "parse_line unix srv line0 =
     (let line = TrimSpace line0; parts = SplitN (CHR '':'') 5 line in
      if line = [] then None
      else if length parts < 5 then None
      else let activity = fst (ParseInt (parts ! 4)) in
        Some \<lparr>ts_Name = parts ! 0, ts_Created = fst (ParseInt (parts ! 1)), ts_Windows = fst (Atoi (parts ! 2)),
          ts_Attached = fst (Atoi (parts ! 3)), ts_LastActivity = activity,
          ts_Idle = formatIdle (wrap64 (unix - activity)),
          ts_SSHCommand = ''ssh -t '' @ srv_SSHUser srv @ ''@'' @ srv_Host srv @ '' \"tmux new -A -s '' @ parts ! 0 @ [CHR 0x22]\<rparr>)"

definition parseSessions :: "int \<Rightarrow> string \<Rightarrow> server \<Rightarrow> tmux_session list" where
  "parseSessions unix output srv =
     List.map_filter (parse_line unix srv) (Split (CHR 0x0A) (TrimSpace output))"

section \<open>Operations\<close>

definition unix_seconds :: "time \<Rightarrow> int" where
  "unix_seconds t = t div 1000000000"

definition GetSessions :: "('w, 'a) mgr_state_scheme \<Rightarrow> string \<Rightarrow> tmux_session list" where
  "GetSessions s serverID = (case sm_sessions s serverID of None \<Rightarrow> [] | Some l \<Rightarrow> l)"

definition list_command :: string where
  "list_command = ''tmux list-sessions -F '' @ [CHR 0x27] @
     ''#{session_name}:#{session_created}:#{session_windows}:#{session_attached}:#{session_activity}'' @
     [CHR 0x27] @ '' 2>/dev/null || true''"

definition ListSessions ::
  "'w libs \<Rightarrow> time \<Rightarrow> server \<Rightarrow> ('w, 'a) mgr_state_scheme \<Rightarrow> (pool_error + tmux_session list) \<times> ('w, 'a) mgr_state_scheme" where
  "ListSessions L now srv s =
     (case Exec L now (srv_ID srv) list_command s of
        ((out, err, Some e), s') \<Rightarrow> (Inl e, s')
      | ((out, err, None), s') \<Rightarrow> (Inr (parseSessions (unix_seconds now) out srv), s'))"

datatype session_error =
    SGetServer store_error | SInvalidName string | SCreate string string pool_error | SKill string pool_error

definition CreateSession ::
  "'w libs \<Rightarrow> time \<Rightarrow> bytes \<Rightarrow> string \<Rightarrow> string \<Rightarrow> string \<Rightarrow> string \<Rightarrow> string \<Rightarrow> ('w, 'a) mgr_state_scheme
     \<Rightarrow> (session_error + string) \<times> ('w, 'a) mgr_state_scheme" where
  "CreateSession L now rnd serverID user label command workdir s =
     (case GetServer (st_db s) serverID [] of
        Inl e \<Rightarrow> (Inl (SGetServer e), s)
      | Inr srv \<Rightarrow>
          (let name = session_name user label (randomShortID rnd) in
           case Exec L now serverID (create_command name workdir command) s of
             ((out, err, Some e), s') \<Rightarrow> (Inl (SCreate (srv_Host srv) err e), s')
           | ((out, err, None), s') \<Rightarrow> (Inr name, s')))"

definition KillSession ::
  "'w libs \<Rightarrow> time \<Rightarrow> string \<Rightarrow> string \<Rightarrow> ('w, 'a) mgr_state_scheme \<Rightarrow> session_error option \<times> ('w, 'a) mgr_state_scheme" where
  "KillSession L now serverID sessionName s =
     (if \<not> safeNameRe sessionName then (Some (SInvalidName sessionName), s)
      else case Exec L now serverID (kill_command sessionName) s of
        ((out, err, Some e), s') \<Rightarrow> (Some (SKill err e), s')
      | ((out, err, None), s') \<Rightarrow> (None, s'))"

text \<open>Draining the channel and sending, without another sender: the buffer holds the new value.\<close>

definition UpdateInterval :: "duration \<Rightarrow> ('w, 'a) mgr_state_scheme \<Rightarrow> ('w, 'a) mgr_state_scheme" where
  "UpdateInterval d s = s\<lparr>sm_intervalCh := Some d\<rparr>"

section \<open>Polling\<close>

definition set_status ::
  "time \<Rightarrow> string \<Rightarrow> string \<Rightarrow> ('w, 'a) mgr_state_scheme \<Rightarrow> ('w, 'a) mgr_state_scheme" where
  "set_status now sid st s = s\<lparr>st_db := after (st_db s) (UpdateServerStatus (st_db s) now sid st)\<rparr>"

definition set_sessions_gauge :: "string \<Rightarrow> nat \<Rightarrow> ('w, 'a) mgr_state_scheme \<Rightarrow> ('w, 'a) mgr_state_scheme" where
  "set_sessions_gauge sid n s = s\<lparr>m_sessions := map_option (\<lambda>m. m(sid \<mapsto> n)) (m_sessions s)\<rparr>"

text \<open>One server of the poll; its status is that of the list read at the start.\<close>

definition poll_one :: "'w libs \<Rightarrow> time \<Rightarrow> server \<Rightarrow> ('w, 'a) mgr_state_scheme \<Rightarrow> ('w, 'a) mgr_state_scheme" where
  "poll_one L now srv s =
     (case ListSessions L now srv s of
        (Inl e, s1) \<Rightarrow>
          set_sessions_gauge (srv_ID srv) 0
            (if srv_Status srv \<noteq> StatusUnreachable then set_status now (srv_ID srv) StatusUnreachable s1 else s1)
      | (Inr l, s1) \<Rightarrow>
          (let s2 = (if srv_Status srv \<noteq> StatusReachable then set_status now (srv_ID srv) StatusReachable s1 else s1) in
           set_sessions_gauge (srv_ID srv) (length l) (s2\<lparr>sm_sessions := (sm_sessions s2)(srv_ID srv \<mapsto> l)\<rparr>)))"

definition pollAll :: "'w libs \<Rightarrow> time \<Rightarrow> ('w, 'a) mgr_state_scheme \<Rightarrow> ('w, 'a) mgr_state_scheme" where
  "pollAll L now s =
     (case ListServers (st_db s) [] of
        Inl _ \<Rightarrow> s
      | Inr srvs \<Rightarrow> fold (poll_one L now) srvs s)"

text \<open>
  The goroutine of \<open>StartPolling\<close>: the ticker's interval, the servers that a poll in progress has
  still to visit (none while the goroutine waits in its select), and whether its stop was
  signalled, by \<open>Stop\<close> or the end of the context. In the select it takes a tick, a new interval or
  the signal; during a poll it looks at none of them.
\<close>

record poller =
  pl_running :: bool
  pl_interval :: duration
  pl_todo :: "server list"
  pl_stop :: bool

datatype poll_event = Tick | PollNext time | NewInterval | StopSignal

definition selecting :: "poller \<Rightarrow> bool" where
  "selecting p \<longleftrightarrow> pl_running p \<and> pl_todo p = []"

fun poll_select ::
  "'w libs \<Rightarrow> poll_event \<Rightarrow> poller \<times> ('w, 'a) mgr_state_scheme \<Rightarrow> poller \<times> ('w, 'a) mgr_state_scheme" where
  "poll_select L Tick (p, s) =
     (case (selecting p, ListServers (st_db s) []) of
        (True, Inr srvs) \<Rightarrow> (p\<lparr>pl_todo := srvs\<rparr>, s)
      | _ \<Rightarrow> (p, s))"
| "poll_select L (PollNext now) (p, s) =
     (case (pl_running p, pl_todo p) of
        (True, srv # rest) \<Rightarrow> (p\<lparr>pl_todo := rest\<rparr>, poll_one L now srv s)
      | _ \<Rightarrow> (p, s))"
| "poll_select L NewInterval (p, s) =
     (case (selecting p, sm_intervalCh s) of
        (True, Some d) \<Rightarrow> (p\<lparr>pl_interval := d\<rparr>, s\<lparr>sm_intervalCh := None\<rparr>)
      | _ \<Rightarrow> (p, s))"
| "poll_select L StopSignal (p, s) =
     (if selecting p \<and> pl_stop p then (p\<lparr>pl_running := False\<rparr>, s) else (p, s))"

text \<open>It starts with a poll; before that \<open>time.NewTicker\<close> panics on an interval that is not
  positive (\<open>None\<close>).\<close>

definition StartPolling ::
  "'w libs \<Rightarrow> time \<Rightarrow> duration \<Rightarrow> ('w, 'a) mgr_state_scheme \<Rightarrow> (poller \<times> ('w, 'a) mgr_state_scheme) option" where
  "StartPolling L now interval s =
     (if interval \<le> 0 then None
      else Some (\<lparr>pl_running = True, pl_interval = interval, pl_todo = [], pl_stop = False\<rparr>, pollAll L now s))"

text \<open>\<open>Stop\<close> closes the channel the goroutine selects on, and waits for nothing.\<close>

definition Manager_Stop :: "poller \<Rightarrow> poller" where
  "Manager_Stop p = p\<lparr>pl_stop := True\<rparr>"

text \<open>A tick and the visits after it, with nothing in between, are one \<open>pollAll\<close>.\<close>

lemma poll_visits:
  "pl_running p \<Longrightarrow> fold (poll_select L) (replicate (length srvs) (PollNext now)) (p\<lparr>pl_todo := srvs\<rparr>, s) =
    (p\<lparr>pl_todo := []\<rparr>, fold (poll_one L now) srvs s)"
  by (induction srvs arbitrary: s) simp_all

lemma poll_is_pollAll:
  assumes "selecting p" and "ListServers (st_db s) [] = Inr srvs"
  shows "fold (poll_select L) (Tick # replicate (length srvs) (PollNext now)) (p, s) = (p, pollAll L now s)"
proof -
  have "p\<lparr>pl_todo := []\<rparr> = p" using assms(1) by (simp add: selecting_def)
  with assms poll_visits [of p L srvs now s] show ?thesis by (simp add: pollAll_def selecting_def)
qed

text \<open>After \<open>Stop\<close> a poll in progress still visits its servers, with whatever the pool is then; only in
  the select the goroutine sees the signal.\<close>

lemma stop_during_poll:
  assumes "pl_running p"
  shows "fold (poll_select L) (StopSignal # replicate (length (pl_todo p)) (PollNext now) @ [StopSignal]) (Manager_Stop p, s) =
    (p\<lparr>pl_running := False, pl_todo := [], pl_stop := True\<rparr>, fold (poll_one L now) (pl_todo p) s)"
proof (cases "pl_todo p = []")
  case True
  then have "p\<lparr>pl_running := False, pl_todo := [], pl_stop := True\<rparr> = p\<lparr>pl_running := False, pl_stop := True\<rparr>" by simp
  with True assms show ?thesis by (simp add: Manager_Stop_def selecting_def)
next
  case False
  have p: "Manager_Stop p = (Manager_Stop p)\<lparr>pl_todo := pl_todo p\<rparr>" by (simp add: Manager_Stop_def)
  have "fold (poll_select L) (replicate (length (pl_todo p)) (PollNext now)) (Manager_Stop p, s) =
      ((Manager_Stop p)\<lparr>pl_todo := []\<rparr>, fold (poll_one L now) (pl_todo p) s)"
    by (subst p) (rule poll_visits, simp add: Manager_Stop_def assms)
  with False assms show ?thesis by (simp add: Manager_Stop_def selecting_def)
qed

section \<open>The list tmux prints\<close>

definition show_session :: "tmux_session \<Rightarrow> string" where
  "show_session t = ts_Name t @ '':'' @ Itoa (ts_Created t) @ '':'' @ Itoa (ts_Windows t) @ '':'' @
     Itoa (ts_Attached t) @ '':'' @ Itoa (ts_LastActivity t)"

fun tmux_output :: "tmux_session list \<Rightarrow> string" where
  "tmux_output [] = []"
| "tmux_output (t # ts) = show_session t @ [CHR 0x0A] @ tmux_output ts"

definition int64 :: "int \<Rightarrow> bool" where
  "int64 n \<longleftrightarrow> - (2 ^ 63) \<le> n \<and> n < 2 ^ 63"

definition listable :: "tmux_session \<Rightarrow> bool" where
  "listable t \<longleftrightarrow> safeNameRe (ts_Name t) \<and> int64 (ts_Created t) \<and> int64 (ts_Windows t) \<and> int64 (ts_Attached t) \<and>
     int64 (ts_LastActivity t)"

text \<open>A session as the parser returns it: with the idle time and the command to attach.\<close>

definition with_idle :: "int \<Rightarrow> server \<Rightarrow> tmux_session \<Rightarrow> tmux_session" where
  "with_idle unix srv t = t\<lparr>ts_Idle := formatIdle (wrap64 (unix - ts_LastActivity t)),
     ts_SSHCommand := ''ssh -t '' @ srv_SSHUser srv @ ''@'' @ srv_Host srv @ '' \"tmux new -A -s '' @ ts_Name t @ [CHR 0x22]\<rparr>"

lemma safe_char_props:
  assumes "safe_char c"
  shows "printable c" "c \<noteq> CHR '':''" "c \<noteq> CHR 0x0A"
  using assms by (auto simp: safe_char_def printable_def byte_in_def)

lemma Itoa_not_sep: "CHR '':'' \<notin> set (Itoa n)" "CHR 0x0A \<notin> set (Itoa n)"
  using Itoa_chars [of "CHR '':''" n] Itoa_chars [of "CHR 0x0A" n] by (auto simp: is_digit_def)

lemma Itoa_last: "Itoa n \<noteq> [] \<and> printable (last (Itoa n))"
proof -
  have digit: "printable c" if "is_digit c" for c
    using that by (auto simp: is_digit_def printable_def byte_in_def)
  have "is_digit (last (show_nat m))" for m
    using show_nat_digits [of "last (show_nat m)" m] by simp
  with digit show ?thesis by (auto simp: Itoa_def)
qed

lemma listable_name:
  assumes "listable t"
  shows "ts_Name t \<noteq> []" "printable (hd (ts_Name t))" "CHR '':'' \<notin> set (ts_Name t)" "CHR 0x0A \<notin> set (ts_Name t)"
proof -
  have n: "ts_Name t \<noteq> []" "list_all safe_char (ts_Name t)" using assms by (auto simp: listable_def safeNameRe_def)
  then have safe: "\<And>c. c \<in> set (ts_Name t) \<Longrightarrow> safe_char c" by (simp add: list_all_iff)
  show "ts_Name t \<noteq> []" by (rule n(1))
  show "printable (hd (ts_Name t))" using safe_char_props(1) safe n(1) by simp
  show "CHR '':'' \<notin> set (ts_Name t)" "CHR 0x0A \<notin> set (ts_Name t)" using safe_char_props(2,3) safe by blast+
qed

lemma show_session_line:
  assumes "listable t"
  shows "show_session t \<noteq> []" "printable (hd (show_session t))" "printable (last (show_session t))"
    "CHR 0x0A \<notin> set (show_session t)"
  using listable_name [OF assms] Itoa_last Itoa_not_sep by (auto simp: show_session_def)

lemma SplitN_show_session:
  assumes "listable t"
  shows "SplitN (CHR '':'') 5 (show_session t) =
    [ts_Name t, Itoa (ts_Created t), Itoa (ts_Windows t), Itoa (ts_Attached t), Itoa (ts_LastActivity t)]"
proof -
  have five: "(5 :: nat) = Suc (Suc (Suc (Suc (Suc 0))))" by simp
  show ?thesis
    unfolding five show_session_def using listable_name(3) [OF assms] Itoa_not_sep(1)
    by (simp add: SplitN_cons del: SplitN.simps(3))
qed

lemma parse_line_show:
  assumes "listable t"
  shows "parse_line unix srv (show_session t) = Some (with_idle unix srv t)"
proof -
  have trim: "TrimSpace (show_session t) = show_session t"
    using show_session_line [OF assms] by (simp add: TrimSpace_id)
  have "ParseInt (Itoa (ts_Created t)) = (ts_Created t, None)" "ParseInt (Itoa (ts_Windows t)) = (ts_Windows t, None)"
    "ParseInt (Itoa (ts_Attached t)) = (ts_Attached t, None)" "ParseInt (Itoa (ts_LastActivity t)) = (ts_LastActivity t, None)"
    using assms ParseInt_Itoa by (auto simp: listable_def int64_def)
  with trim SplitN_show_session [OF assms] show_session_line(1) [OF assms] show ?thesis
    by (simp add: parse_line_def Let_def Atoi_def with_idle_def)
qed

text \<open>The output is the lines and, where there are any, a last newline.\<close>

fun join_lines :: "string list \<Rightarrow> string" where
  "join_lines [] = []"
| "join_lines [l] = l"
| "join_lines (l # ls) = l @ CHR 0x0A # join_lines ls"

lemma tmux_output_lines: "ts \<noteq> [] \<Longrightarrow> tmux_output ts = join_lines (map show_session ts) @ [CHR 0x0A]"
  by (induction ts rule: induct_list012) auto

lemma Split_join: "ls \<noteq> [] \<Longrightarrow> \<forall>l \<in> set ls. CHR 0x0A \<notin> set l \<Longrightarrow> Split (CHR 0x0A) (join_lines ls) = ls"
  by (induction ls rule: join_lines.induct) (auto simp: Split_no_sep Split_append_sep)

lemma join_ends:
  "ls \<noteq> [] \<Longrightarrow> \<forall>l \<in> set ls. l \<noteq> [] \<and> printable (hd l) \<and> printable (last l) \<Longrightarrow>
    join_lines ls \<noteq> [] \<and> printable (hd (join_lines ls)) \<and> printable (last (join_lines ls))"
  by (induction ls rule: join_lines.induct) auto

text \<open>C35. The parser reads back what tmux prints: for every list of sessions with names the
  program accepts and 64-bit numbers, parsing the printed list gives the same sessions in the
  same order, each with its idle time and attach command.\<close>

theorem parse_list_roundtrip:
  assumes "list_all listable ts"
  shows "parseSessions unix (tmux_output ts) srv = map (with_idle unix srv) ts"
proof (cases "ts = []")
  case True
  have "TrimSpace [] = []" by (simp add: TrimSpace_def trim_front.simps space_runes_def HasPrefix_def)
  with True show ?thesis by (simp add: parseSessions_def parse_line_def map_filter_def)
next
  case False
  let ?ls = "map show_session ts"
  have l: "\<forall>l \<in> set ?ls. l \<noteq> [] \<and> printable (hd l) \<and> printable (last l) \<and> CHR 0x0A \<notin> set l"
    using assms show_session_line by (auto simp: list_all_iff)
  have "TrimSpace (tmux_output ts) = join_lines ?ls"
    using join_ends [of ?ls] False l by (simp add: tmux_output_lines TrimSpace_newline)
  moreover have "Split (CHR 0x0A) (join_lines ?ls) = ?ls" using Split_join [of ?ls] False l by simp
  moreover have "List.map_filter (parse_line unix srv) ?ls = map (with_idle unix srv) ts"
    using assms by (induction ts) (auto simp: map_filter_simps parse_line_show)
  ultimately show ?thesis by (simp add: parseSessions_def)
qed

definition demo_sessions :: "tmux_session list" where
  "demo_sessions = [\<lparr>ts_Name = ''ann-web-0a1b2c'', ts_Created = 1700000000, ts_Windows = 1, ts_Attached = 0,
     ts_LastActivity = 1700000100, ts_Idle = [], ts_SSHCommand = []\<rparr>]"

theorem parse_list_roundtrip_witness:
  "map ts_Idle (parseSessions 1700007400 (tmux_output demo_sessions) (demo_server ''s1'' ''alpha'' ''u1'')) = [''2h1m'']"
proof -
  have l: "list_all listable demo_sessions" by code_simp
  have "formatIdle (wrap64 (1700007400 - 1700000100)) = ''2h1m''" by code_simp
  then show ?thesis
    unfolding parse_list_roundtrip [OF l] by (simp add: demo_sessions_def with_idle_def)
qed

section \<open>What a command leaves unchanged\<close>

text \<open>The pool's operations do not touch the manager's own state.\<close>

definition mgr_frame ::
  "(string \<rightharpoonup> tmux_session list) \<Rightarrow> duration option \<Rightarrow> (string \<rightharpoonup> nat) option \<Rightarrow> ('w, 'a) mgr_state_scheme \<Rightarrow> bool" where
  "mgr_frame c i m s \<longleftrightarrow> sm_sessions s = c \<and> sm_intervalCh s = i \<and> m_sessions s = m"

interpretation pool_mgr: pool_invariant L "mgr_frame c i m" for L c i m
  by unfold_locales
     (auto simp: mgr_frame_def gauge_add_def count_ssh_error_def hostKeyCallback_def hostKey_decide_def split: sum.splits)

lemma Exec_sm_sessions: "Exec L now sid cmd s = (r, s') \<Longrightarrow> sm_sessions s' = sm_sessions s"
  using pool_mgr.exec [of "sm_sessions s" "sm_intervalCh s" "m_sessions s" s L now sid cmd] by (simp add: mgr_frame_def)

text \<open>A command that succeeds leaves the servers' rows; one that fails changes them only for a
  host key mismatch, and then only the status of its server.\<close>

lemma hostKeyCallback_servers:
  "hostKeyCallback L now sid key s = (None, s') \<Longrightarrow> servers (st_db s') = servers (st_db s) \<and> fault (st_db s') = fault (st_db s)"
  by (auto simp: hostKeyCallback_def hostKey_decide_def StoreHostKey_def split: sum.splits if_splits)

lemma connect_servers:
  "connect L now sid s = (Inr c, s') \<Longrightarrow> servers (st_db s') = servers (st_db s) \<and> fault (st_db s') = fault (st_db s)"
  by (auto simp: connect_def ssh_Dial_def dest!: hostKeyCallback_servers split: sum.splits option.splits prod.splits)

lemma evict_db [simp]: "st_db (evict sid s) = st_db s"
  by (simp add: evict_def)

lemma overwrite_db [simp]: "st_db (overwrite sid c s) = st_db s"
  by (simp add: overwrite_def store_client_def)

lemma publish_db: "publish L sid c s = (c', s') \<Longrightarrow> st_db s' = st_db s"
  by (auto simp: publish_def publish_locked_def store_client_def close_client_def split: option.splits)

lemma new_session_db: "new_session L c s = (ok, s') \<Longrightarrow> st_db s' = st_db s"
  by (auto simp: new_session_def split: prod.splits)

lemma getOrConnect_servers:
  "getOrConnect L now sid s = (Inr c, s') \<Longrightarrow> servers (st_db s') = servers (st_db s) \<and> fault (st_db s') = fault (st_db s)"
  by (auto simp: getOrConnect_def dest!: connect_servers publish_db split: option.splits sum.splits prod.splits)

lemma session_for_servers:
  "session_for L now sid s = (Inr c, s') \<Longrightarrow> servers (st_db s') = servers (st_db s) \<and> fault (st_db s') = fault (st_db s)"
  by (auto simp: session_for_def dest!: getOrConnect_servers connect_servers new_session_db
      split: sum.splits prod.splits bool.splits)

lemma Exec_servers:
  "Exec L now sid cmd s = ((out, err, None), s') \<Longrightarrow> servers (st_db s') = servers (st_db s) \<and> fault (st_db s') = fault (st_db s)"
  by (auto simp: Exec_def dest!: session_for_servers split: sum.splits prod.splits if_splits)

text \<open>The rows after a status update.\<close>

lemma set_status_rows:
  assumes "\<not> fault (st_db s) (XUpdateServerStatus sid)"
  shows "\<forall>srv \<in> set (servers (st_db (set_status now sid st s))). srv_ID srv = sid \<longrightarrow> srv_Status srv = st"
  using status_updated [OF assms] by (simp add: set_status_def)

lemma set_status_simps [simp]: "sm_sessions (set_status now sid st s) = sm_sessions s"
  "st_db (set_sessions_gauge sid n s) = st_db s" "sm_sessions (set_sessions_gauge sid n s) = sm_sessions s"
  by (simp_all add: set_status_def set_sessions_gauge_def)

lemma server_row_unique:
  "db_inv d \<Longrightarrow> a \<in> set (servers d) \<Longrightarrow> b \<in> set (servers d) \<Longrightarrow> srv_ID a = srv_ID b \<Longrightarrow> a = b"
  by (auto simp: db_inv_def servers_inv_def distinct_map inj_on_def)

section \<open>Properties of the poll\<close>

text \<open>C36. Polling a server: where its sessions could be listed, the cache holds exactly that list
  and the server's status is \<open>reachable\<close>; where not, the cache keeps the last list that was
  read. The caches of other servers do not change in either case.\<close>

theorem poll_outcome:
  assumes "db_inv (st_db s)" and "srv \<in> set (servers (st_db s))" and "\<And>sid. \<not> fault (st_db s) (XUpdateServerStatus sid)"
    and "ListSessions L now srv s = (r, s1)"
  shows "(\<forall>l. r = Inr l \<longrightarrow> GetSessions (poll_one L now srv s) (srv_ID srv) = l \<and>
      (\<forall>row \<in> set (servers (st_db (poll_one L now srv s))). srv_ID row = srv_ID srv \<longrightarrow> srv_Status row = StatusReachable)) \<and>
    (\<forall>e. r = Inl e \<longrightarrow> GetSessions (poll_one L now srv s) (srv_ID srv) = GetSessions s (srv_ID srv)) \<and>
    (\<forall>sid. sid \<noteq> srv_ID srv \<longrightarrow> GetSessions (poll_one L now srv s) sid = GetSessions s sid)"
proof -
  obtain out err eo where ex: "Exec L now (srv_ID srv) list_command s = ((out, err, eo), s1)"
    using assms(4) by (auto simp: ListSessions_def split: prod.splits option.splits)
  note sm = Exec_sm_sessions [OF ex]
  show ?thesis
  proof (cases r)
    case (Inl e)
    then show ?thesis using assms(4) sm by (simp add: poll_one_def GetSessions_def)
  next
    case (Inr l)
    with assms(4) ex have "eo = None" by (auto simp: ListSessions_def split: option.splits)
    with ex Exec_servers have rows: "servers (st_db s1) = servers (st_db s)" "fault (st_db s1) = fault (st_db s)" by blast+
    have "srv_Status row = StatusReachable"
      if "row \<in> set (servers (st_db (poll_one L now srv s)))" "srv_ID row = srv_ID srv" for row
    proof (cases "srv_Status srv = StatusReachable")
      case True
      with that Inr assms(4) rows have "row \<in> set (servers (st_db s))" by (simp add: poll_one_def Let_def)
      from server_row_unique [OF assms(1) this assms(2) that(2)] True show ?thesis by simp
    next
      case False
      have "\<not> fault (st_db s1) (XUpdateServerStatus (srv_ID srv))" using rows(2) assms(3) by simp
      from set_status_rows [OF this, of now StatusReachable] False that Inr assms(4)
      show ?thesis by (simp add: poll_one_def Let_def)
    qed
    moreover have "GetSessions (poll_one L now srv s) sid = (if sid = srv_ID srv then l else GetSessions s sid)" for sid
      using Inr assms(4) sm by (simp add: poll_one_def GetSessions_def Let_def)
    ultimately show ?thesis using Inr by simp
  qed
qed

text \<open>C37. The poll loses a host key mismatch: when connecting to a server fails because its host
  key changed, the status \<open>key_mismatch\<close> set by the connection is replaced by \<open>unreachable\<close>,
  except where the server was \<open>unreachable\<close> before; so from poll to poll it alternates.\<close>

theorem poll_hides_mismatch:
  assumes "conns s (srv_ID srv) = None" and "connect L now (srv_ID srv) s = (Inl PHostKeyMismatch, s1)"
    and "\<And>sid. \<not> fault (st_db s) (XUpdateServerStatus sid)"
  shows "\<forall>row \<in> set (servers (st_db (poll_one L now srv s))). srv_ID row = srv_ID srv \<longrightarrow>
    srv_Status row = (if srv_Status srv = StatusUnreachable then StatusKeyMismatch else StatusUnreachable)"
proof -
  note d1 = connect_mismatch [OF assms(2)]
  have ls: "ListSessions L now srv s = (Inl PHostKeyMismatch, count_ssh_error (srv_ID srv) s1)"
    using assms(1,2) by (simp add: ListSessions_def Exec_def session_for_def getOrConnect_def)
  have f1: "fault (st_db s1) = fault (st_db s)" by (simp add: d1 after_def UpdateServerStatus_def)
  show ?thesis
  proof (cases "srv_Status srv = StatusUnreachable")
    case True
    with ls status_updated [OF assms(3)] show ?thesis by (simp add: poll_one_def d1)
  next
    case False
    have "\<not> fault (st_db (count_ssh_error (srv_ID srv) s1)) (XUpdateServerStatus (srv_ID srv))"
      using f1 assms(3) by simp
    from set_status_rows [OF this] False ls show ?thesis by (simp add: poll_one_def)
  qed
qed

definition demo_mgr :: "bytes \<Rightarrow> demo_net mgr_state" where
  "demo_mgr hk = pool_state.extend (demo_pool hk)
     \<lparr>sm_sessions = Map.empty, sm_intervalCh = None, m_sessions = None\<rparr>"

theorem poll_outcome_witness:
  "let srv = demo_server ''s1'' ''alpha'' ''u1''; s' = poll_one demo_libs 0 srv (demo_mgr ''k'') in
     GetSessions s' ''s1'' = [] \<and>
     (\<forall>row \<in> set (servers (st_db s')). srv_ID row = ''s1'' \<longrightarrow> srv_Status row = StatusReachable)"
proof -
  let ?srv = "demo_server ''s1'' ''alpha'' ''u1''" and ?s = "demo_mgr ''k''"
  have a: "db_inv (st_db ?s)" "?srv \<in> set (servers (st_db ?s))" "\<And>sid. \<not> fault (st_db ?s) (XUpdateServerStatus sid)"
    by (simp_all add: demo_mgr_def pool_state.defs demo_pool_def demo_defs db_inv_def users_inv_def servers_inv_def refs_inv_def)
  have "\<exists>s1. ListSessions demo_libs 0 ?srv ?s = (Inr (parseSessions 0 [] ?srv), s1)"
    by (simp add: ListSessions_def demo_mgr_def pool_state.defs demo_exec_defs unix_seconds_def)
  then obtain s1 where l: "ListSessions demo_libs 0 ?srv ?s = (Inr (parseSessions 0 [] ?srv), s1)" ..
  have "parseSessions 0 [] ?srv = []" by code_simp
  with poll_outcome [OF a l] show ?thesis by (simp add: Let_def demo_server_def)
qed

theorem poll_hides_mismatch_witness:
  "let s' = poll_one demo_libs 0 (demo_server ''s1'' ''alpha'' ''u1'') (demo_mgr ''other'') in
     \<forall>row \<in> set (servers (st_db s')). srv_ID row = ''s1'' \<longrightarrow> srv_Status row = StatusUnreachable"
proof -
  let ?srv = "demo_server ''s1'' ''alpha'' ''u1''" and ?s = "demo_mgr ''other''"
  have a: "conns ?s (srv_ID ?srv) = None" by (simp add: demo_mgr_def pool_state.defs demo_pool_def)
  have "\<exists>s1. connect demo_libs 0 (srv_ID ?srv) ?s = (Inl PHostKeyMismatch, s1)"
    by (simp add: demo_mgr_def pool_state.defs demo_exec_defs)
  then obtain s1 where c: "connect demo_libs 0 (srv_ID ?srv) ?s = (Inl PHostKeyMismatch, s1)" ..
  have f: "\<And>sid. \<not> fault (st_db ?s) (XUpdateServerStatus sid)"
    by (simp add: demo_mgr_def pool_state.defs demo_pool_def demo_defs)
  from poll_hides_mismatch [OF a c f] show ?thesis by (simp add: Let_def demo_server_def StatusUnreachable_def)
qed

end
