(* ===== verification/Terminal.thy ===== *)
theory Terminal
  imports Sessions
begin

text \<open>
  The terminal bridge, \<open>internal/terminal/bridge.go\<close>: the handler that checks a request,
  upgrades it to a websocket, attaches to a tmux session over SSH and copies between the two
  until either ends or the session was idle for too long.

  The handler's goroutines are a machine whose events are what they wait for (output of the SSH
  session, a message of the browser, a tick of the idle watcher, the end of the SSH command) and
  their causes outside (the browser leaves, the command ends): an event is enabled only after its
  cause. The
  websocket and SSH libraries are the record \<open>term_lib\<close>; what the goroutines do to the outside
  is a list of effects.
\<close>

section \<open>Requests\<close>

text \<open>\<open>clientIP\<close> of this package: from the last byte backwards to a colon.\<close>

fun strip_port :: "nat \<Rightarrow> string \<Rightarrow> string" where
  "strip_port 0 addr = addr"
| "strip_port (Suc i) addr = (if addr ! i = CHR '':'' then take i addr else strip_port i addr)"

definition clientIPTerminal :: "request \<Rightarrow> string" where
  "clientIPTerminal r =
     (let xff = rq_Header r ''X-Forwarded-For''; xri = rq_Header r ''X-Real-IP'' in
      if xff \<noteq> [] then
        (case index_byte (CHR '','') xff of
           Some idx \<Rightarrow> TrimSpace (take idx xff)
         | None \<Rightarrow> TrimSpace xff)
      else if xri \<noteq> [] then TrimSpace xri
      else strip_port (length (rq_RemoteAddr r)) (rq_RemoteAddr r))"

definition CheckOrigin :: "request \<Rightarrow> bool" where
  "CheckOrigin r =
     (let origin = rq_Header r ''Origin'' in
      if origin = [] then True else HasSuffix origin (''://'' @ rq_Host r))"

section \<open>The bridge\<close>

datatype ws_message = BinaryMessage bytes | TextMessage "json option"
datatype ws_frame = BinaryFrame bytes | TextFrame json | CloseFrame int string

datatype effect =
    SendFrame ws_frame | CloseWS | StdinWrite bytes | CloseStdin | WindowChange int int | SignalHUP | CloseSSH

text \<open>
  The handler's variables: \<open>lastActivity\<close>, the state of the two connections (\<open>br_ws\<close>: the
  websocket is not closed on this side; \<open>br_peer\<close>: the browser has not left; \<open>br_ssh\<close>: the SSH
  command has not ended), which goroutines still run (\<open>br_main\<close>: the handler itself waits in its
  select), and what was done so far.
\<close>

record bridge =
  br_last :: time
  br_ws :: bool
  br_peer :: bool
  br_ssh :: bool
  br_main :: bool
  br_writer :: bool
  br_reader :: bool
  br_watcher :: bool
  br_out :: "effect list"

text \<open>
  \<open>Stdout dat ok cont now\<close>: \<open>stdout.Read\<close> returned \<open>dat\<close>, without an error where \<open>cont\<close>; \<open>ok\<close>
  says whether the websocket takes a frame. \<open>Message m ok now\<close>: the browser sent \<open>m\<close>; \<open>ok\<close> says
  whether the SSH session takes input. A text message is its JSON value, if it has one.
  \<open>ReadError\<close>: reading the websocket failed. \<open>IdleTick now\<close>: the watcher's ticker fired.
  \<open>SshDone\<close>: the handler saw \<open>sshDone\<close> closed. The last two come from outside the handler:
  \<open>BrowserLeaves\<close> and \<open>CommandEnds\<close>, the end of tmux on the server.
\<close>

datatype bridge_event =
    Stdout bytes bool bool time | Message ws_message bool time | ReadError | IdleTick time | SshDone
  | BrowserLeaves | CommandEnds

definition resizeMsg :: "(string \<times> field_kind) list" where
  "resizeMsg = [(''type'', FString), (''cols'', FInt), (''rows'', FInt)]"

definition idleTimeoutMsg :: json where
  "idleTimeoutMsg = JObj [(''type'', JStr ''idle_timeout''), (''message'', JStr ''Session idle for too long, disconnecting'')]"

definition emit :: "effect list \<Rightarrow> bridge \<Rightarrow> bridge" where
  "emit es b = b\<lparr>br_out := br_out b @ es\<rparr>"

text \<open>The goroutine that copies the terminal's output to the websocket.\<close>

definition on_stdout :: "bytes \<Rightarrow> bool \<Rightarrow> bool \<Rightarrow> time \<Rightarrow> bridge \<Rightarrow> bridge" where
  "on_stdout dat ok cont now b =
     (if dat \<noteq> [] \<and> \<not> (ok \<and> br_ws b) then b\<lparr>br_writer := False\<rparr>
      else let b' = (if dat \<noteq> [] then (emit [SendFrame (BinaryFrame dat)] b)\<lparr>br_last := now\<rparr> else b) in
        if cont then b' else b'\<lparr>br_writer := False\<rparr>)"

text \<open>The goroutine that reads the websocket; its deferred call closes the input.\<close>

definition stop_reader :: "bridge \<Rightarrow> bridge" where
  "stop_reader b = (emit [CloseStdin] b)\<lparr>br_reader := False\<rparr>"

definition on_message :: "ws_message \<Rightarrow> bool \<Rightarrow> time \<Rightarrow> bridge \<Rightarrow> bridge" where
  "on_message m ok now b =
     (case m of
        BinaryMessage dat \<Rightarrow>
          if \<not> (ok \<and> br_ssh b) then stop_reader b else (emit [StdinWrite dat] b)\<lparr>br_last := now\<rparr>
      | TextMessage j \<Rightarrow>
          (let resize = decode_struct resizeMsg j in
           if dec_err resize then b
           else if dec_str resize ''type'' = ''resize'' \<and> dec_int resize ''cols'' > 0 \<and> dec_int resize ''rows'' > 0
           then emit [WindowChange (dec_int resize ''rows'') (dec_int resize ''cols'')] b
           else b))"

definition on_read_error :: "bridge \<Rightarrow> bridge" where
  "on_read_error b = stop_reader ((emit [SignalHUP, CloseSSH] b)\<lparr>br_ssh := False\<rparr>)"

text \<open>The idle watcher, which runs where a timeout is configured.\<close>

definition CloseNormalClosure :: int where
  "CloseNormalClosure = 1000"

definition tickInterval :: "duration \<Rightarrow> duration" where
  "tickInterval idleTimeout = (if go_div idleTimeout 10 < 1000000000 then 1000000000 else go_div idleTimeout 10)"

definition on_tick :: "duration \<Rightarrow> time \<Rightarrow> bridge \<Rightarrow> bridge" where
  "on_tick idleTimeout now b =
     (if now - br_last b \<ge> idleTimeout then
        (emit [SendFrame (TextFrame idleTimeoutMsg), SendFrame (CloseFrame CloseNormalClosure ''idle timeout''), CloseWS] b)
          \<lparr>br_ws := False, br_watcher := False\<rparr>
      else b)"

text \<open>The handler after its select: the SSH command has ended.\<close>

definition on_ssh_done :: "bridge \<Rightarrow> bridge" where
  "on_ssh_done b =
     (emit [SendFrame (CloseFrame CloseNormalClosure ''session ended''), CloseWS] b)
       \<lparr>br_ws := False, br_main := False\<rparr>"

text \<open>
  Which event a goroutine can take: each only while it runs and only when what it waits for has
  happened. Reading the SSH output ends with an error only once the command has ended (or the
  session was closed); writing to the websocket fails only when it is closed or the browser is
  gone, writing to the command's input only when the command has ended; reading the websocket
  fails only when it is closed or the browser is gone, though messages that came before may still
  be read then; and the handler's select waits for
  \<open>sshSession.Wait\<close>, which returns when the command has ended or the session was closed. The other
  case of the select waits on \<open>done\<close>, which only the handler's own return closes, so it is never
  taken.
\<close>

fun enabled :: "bridge_event \<Rightarrow> bridge \<Rightarrow> bool" where
  "enabled (Stdout dat ok cont now) b \<longleftrightarrow>
     br_writer b \<and> (ok \<or> \<not> br_ws b \<or> \<not> br_peer b) \<and> (cont \<or> \<not> br_ssh b)"
| "enabled (Message m ok now) b \<longleftrightarrow> br_reader b \<and> (ok \<or> \<not> br_ssh b)"
| "enabled ReadError b \<longleftrightarrow> br_reader b \<and> (\<not> br_ws b \<or> \<not> br_peer b)"
| "enabled (IdleTick now) b \<longleftrightarrow> br_watcher b"
| "enabled SshDone b \<longleftrightarrow> br_main b \<and> \<not> br_ssh b"
| "enabled BrowserLeaves b \<longleftrightarrow> br_peer b"
| "enabled CommandEnds b \<longleftrightarrow> br_ssh b"

fun bridge_step :: "duration \<Rightarrow> bridge_event \<Rightarrow> bridge \<Rightarrow> bridge" where
  "bridge_step idle (Stdout dat ok cont now) b = on_stdout dat ok cont now b"
| "bridge_step idle (Message m ok now) b = on_message m ok now b"
| "bridge_step idle ReadError b = on_read_error b"
| "bridge_step idle (IdleTick now) b = on_tick idle now b"
| "bridge_step idle SshDone b = on_ssh_done b"
| "bridge_step idle BrowserLeaves b = b\<lparr>br_peer := False\<rparr>"
| "bridge_step idle CommandEnds b = b\<lparr>br_ssh := False\<rparr>"

text \<open>After its select the handler waits for the two copying goroutines.\<close>

definition returned :: "bridge \<Rightarrow> bool" where
  "returned b \<longleftrightarrow> \<not> br_main b \<and> \<not> br_writer b \<and> \<not> br_reader b"

definition bridge_start :: "duration \<Rightarrow> time \<Rightarrow> bridge" where
  "bridge_start idle now = \<lparr>br_last = now, br_ws = True, br_peer = True, br_ssh = True, br_main = True, br_writer = True,
     br_reader = True, br_watcher = (idle > 0), br_out = []\<rparr>"

text \<open>The bridge on a sequence of events; \<open>None\<close> where it is still running after the last.\<close>

fun bridge_run :: "duration \<Rightarrow> bridge_event list \<Rightarrow> bridge \<Rightarrow> bridge option" where
  "bridge_run idle evs b =
     (if returned b then Some b
      else case evs of
        [] \<Rightarrow> None
      | ev # evs' \<Rightarrow> if enabled ev b then bridge_run idle evs' (bridge_step idle ev b) else bridge_run idle evs' b)"

declare bridge_run.simps [simp del]

section \<open>The handler\<close>

text \<open>The metric \<open>WebSocketConnectionsActive\<close>.\<close>

record 'w term_state = "'w mgr_state" +
  m_ws :: "int option"

text \<open>
  The libraries: the websocket handshake, which calls the origin check it is given and answers
  with a status where it fails, and the set-up calls on an SSH session. \<open>term_out\<close> carries
  effects to the outside.
\<close>

record 'w term_lib =
  ws_upgrade :: "(request \<Rightarrow> bool) \<Rightarrow> request \<Rightarrow> 'w \<Rightarrow> int option \<times> 'w"
  ssh_pty :: "nat \<Rightarrow> string \<Rightarrow> int \<Rightarrow> int \<Rightarrow> 'w \<Rightarrow> bool \<times> 'w"
  ssh_stdin :: "nat \<Rightarrow> 'w \<Rightarrow> bool \<times> 'w"
  ssh_stdout :: "nat \<Rightarrow> 'w \<Rightarrow> bool \<times> 'w"
  ssh_start :: "nat \<Rightarrow> string \<Rightarrow> 'w \<Rightarrow> bool \<times> 'w"
  term_out :: "effect list \<Rightarrow> 'w \<Rightarrow> 'w"

definition Bridge_logAudit ::
  "draws \<Rightarrow> request \<Rightarrow> string \<Rightarrow> string \<Rightarrow> string \<Rightarrow> string \<Rightarrow> 'a core_scheme \<Rightarrow> 'a core_scheme" where
  "Bridge_logAudit dr r action targetType targetID details s =
     (let entry = empty_entry\<lparr>aud_Action := action, aud_TargetType := targetType, aud_TargetID := targetID,
            aud_Details := details, aud_IPAddress := clientIPTerminal r\<rparr>;
          entry' = (case rq_User r of
                      None \<Rightarrow> entry
                    | Some u \<Rightarrow> entry\<lparr>aud_UserID := cl_UserID u, aud_Username := cl_Username u\<rparr>) in
      write_audit dr entry' s)"

text \<open>The owner a user's servers are filtered by: none for an admin (or without a user).\<close>

definition owner_filter :: "request \<Rightarrow> string" where
  "owner_filter r = (case rq_User r of Some u \<Rightarrow> if cl_Role u \<noteq> RoleAdmin then cl_UserID u else [] | None \<Rightarrow> [])"

definition ws_gauge :: "int \<Rightarrow> ('w, 'a) term_state_scheme \<Rightarrow> ('w, 'a) term_state_scheme" where
  "ws_gauge n s = s\<lparr>m_ws := map_option (\<lambda>g. g + n) (m_ws s)\<rparr>"

definition outside :: "('w \<Rightarrow> 'b \<times> 'w) \<Rightarrow> ('w, 'a) term_state_scheme \<Rightarrow> 'b \<times> ('w, 'a) term_state_scheme" where
  "outside f s = (case f (world s) of (x, w') \<Rightarrow> (x, s\<lparr>world := w'\<rparr>))"

definition send_out :: "'w term_lib \<Rightarrow> effect list \<Rightarrow> ('w, 'a) term_state_scheme \<Rightarrow> ('w, 'a) term_state_scheme" where
  "send_out tm es s = s\<lparr>world := term_out tm es (world s)\<rparr>"

text \<open>A size of the query string, 0 or absent standing for the default.\<close>

definition dimension :: "string \<Rightarrow> int \<Rightarrow> int" where
  "dimension q dflt = (let n = fst (Atoi q) in if n = 0 then dflt else n)"

text \<open>
  The part between the upgrade and the deferred calls: open an SSH session, prepare it, start
  tmux and run the bridge.
\<close>

definition terminal_session ::
  "'w libs \<Rightarrow> 'w term_lib \<Rightarrow> duration \<Rightarrow> time \<Rightarrow> bridge_event list \<Rightarrow> string \<Rightarrow> string \<Rightarrow> int \<Rightarrow> int
     \<Rightarrow> ('w, 'a) term_state_scheme \<Rightarrow> ('w, 'a) term_state_scheme option" where
  "terminal_session L tm idle now evs serverID sessionName rws cls s =
     (let message = (\<lambda>m. SendFrame (TextFrame (error_body m))) in
      case Pool_Session L now serverID s of
        (Inl e, s1) \<Rightarrow> Some (send_out tm [message ''ssh connection failed''] s1)
      | (Inr c, s1) \<Rightarrow>
          (case outside (ssh_pty tm c ''xterm-256color'' rws cls) s1 of
             (False, s2) \<Rightarrow> Some (send_out tm [message ''pty request failed'', CloseSSH] s2)
           | (True, s2) \<Rightarrow>
               (case outside (ssh_stdin tm c) s2 of
                  (False, s3) \<Rightarrow> Some (send_out tm [CloseSSH] s3)
                | (True, s3) \<Rightarrow>
                    (case outside (ssh_stdout tm c) s3 of
                       (False, s4) \<Rightarrow> Some (send_out tm [CloseSSH] s4)
                     | (True, s4) \<Rightarrow>
                         (case outside (ssh_start tm c (attach_command sessionName)) s4 of
                            (False, s5) \<Rightarrow> Some (send_out tm [message ''tmux attach failed'', CloseSSH] s5)
                          | (True, s5) \<Rightarrow>
                              map_option (\<lambda>b. send_out tm (br_out b @ [CloseSSH]) s5)
                                (bridge_run idle evs (bridge_start idle now)))))))"

definition terminal_details :: "(nat \<Rightarrow> bool) \<Rightarrow> string \<Rightarrow> string \<Rightarrow> string" where
  "terminal_details is_print serverID sessionName =
     ''{\"server_id\":'' @ fmt_q is_print serverID @ '',\"session\":'' @ fmt_q is_print sessionName @ ''}''"

text \<open>
  The whole handler, with the events of its bridge and the draws of its end; \<open>None\<close> while the
  bridge runs. Its deferred calls, in the order they run: close the SSH session (above), write
  the disconnect entry, decrement the gauge, close the websocket.
\<close>

definition HandleTerminal ::
  "(nat \<Rightarrow> bool) \<Rightarrow> 'w libs \<Rightarrow> 'w term_lib \<Rightarrow> duration \<Rightarrow> draws \<Rightarrow> draws \<Rightarrow> bridge_event list
     \<Rightarrow> request \<Rightarrow> ('w, 'a) term_state_scheme \<Rightarrow> (response \<times> ('w, 'a) term_state_scheme) option" where
  "HandleTerminal is_print L tm idle dr dr' evs r s =
     (let serverID = rq_PathValue r ''server''; sessionName = rq_PathValue r ''session'';
          cls = dimension (rq_Query r ''cols'') 80; rws = dimension (rq_Query r ''rows'') 24;
          details = terminal_details is_print serverID sessionName in
      if \<not> safeNameRe sessionName then Some (jsonError ''invalid session name'' 400, s)
      else case GetServer (st_db s) serverID (owner_filter r) of
        Inl _ \<Rightarrow> Some (jsonError ''server not found'' 404, s)
      | Inr _ \<Rightarrow>
          (case outside (ws_upgrade tm CheckOrigin r) s of
             (Some code, s1) \<Rightarrow> Some (reply code JNull, s1)
           | (None, s1) \<Rightarrow>
               map_option
                 (\<lambda>s3. (reply 101 JNull,
                    send_out tm [CloseWS] (ws_gauge (- 1)
                      (Bridge_logAudit dr' r AuditTerminalDisconnect ''session'' sessionName details s3))))
                 (terminal_session L tm idle (dr_now dr) evs serverID sessionName rws cls
                    (Bridge_logAudit dr r AuditTerminalConnect ''session'' sessionName details (ws_gauge 1 s1)))))"

section \<open>Runs of the bridge\<close>

lemma emit_simps [simp]:
  "br_last (emit es b) = br_last b" "br_ws (emit es b) = br_ws b" "br_ssh (emit es b) = br_ssh b"
  "br_peer (emit es b) = br_peer b"
  "br_main (emit es b) = br_main b" "br_writer (emit es b) = br_writer b" "br_reader (emit es b) = br_reader b"
  "br_watcher (emit es b) = br_watcher b" "br_out (emit es b) = br_out b @ es"
  by (simp_all add: emit_def)

lemmas bridge_defs = on_stdout_def on_message_def on_read_error_def on_tick_def on_ssh_done_def stop_reader_def Let_def

text \<open>The events that move terminal data and so count as activity.\<close>

fun activity :: "bridge_event \<Rightarrow> bool" where
  "activity (Stdout dat ok cont now) \<longleftrightarrow> dat \<noteq> [] \<and> ok"
| "activity (Message (BinaryMessage dat) ok now) \<longleftrightarrow> ok"
| "activity _ \<longleftrightarrow> False"

text \<open>A step, if the goroutine it belongs to can take it.\<close>

definition try_step :: "duration \<Rightarrow> bridge_event \<Rightarrow> bridge \<Rightarrow> bridge" where
  "try_step idle ev b = (if enabled ev b then bridge_step idle ev b else b)"

lemma bridge_run_Cons:
  "bridge_run idle (ev # evs) b = (if returned b then Some b else bridge_run idle evs (try_step idle ev b))"
  by (subst bridge_run.simps) (simp add: try_step_def)

lemma bridge_run_returned: "bridge_run idle evs b = Some b' \<Longrightarrow> returned b'"
proof (induction evs arbitrary: b)
  case Nil
  then show ?case by (subst (asm) bridge_run.simps) (auto split: if_splits)
next
  case (Cons ev evs)
  then show ?case by (auto simp: bridge_run_Cons split: if_splits)
qed

text \<open>Goroutines and connections never come back; nobody but the watcher stops the watcher.\<close>

lemma try_step_mono:
  "br_ws (try_step idle ev b) \<Longrightarrow> br_ws b" "br_main (try_step idle ev b) \<Longrightarrow> br_main b"
  "br_writer (try_step idle ev b) \<Longrightarrow> br_writer b" "br_reader (try_step idle ev b) \<Longrightarrow> br_reader b"
  "br_peer (try_step idle ev b) \<Longrightarrow> br_peer b" "br_ssh (try_step idle ev b) \<Longrightarrow> br_ssh b"
  by (cases ev; auto simp: try_step_def bridge_defs split: if_splits ws_message.splits)+

lemma try_step_quiet:
  assumes "\<not> activity ev" and "br_watcher b"
  shows "br_last (try_step idle ev b) = br_last b" "br_watcher (try_step idle ev b) \<or> \<not> br_ws (try_step idle ev b)"
  using assms by (cases ev; cases "enabled ev b";
    auto simp: try_step_def bridge_defs split: ws_message.splits if_splits)+

abbreviation try_steps :: "duration \<Rightarrow> bridge_event list \<Rightarrow> bridge \<Rightarrow> bridge" where
  "try_steps idle evs b \<equiv> fold (try_step idle) evs b"

lemma try_steps_mono:
  "br_ws (try_steps idle evs b) \<Longrightarrow> br_ws b" "br_main (try_steps idle evs b) \<Longrightarrow> br_main b"
  "br_writer (try_steps idle evs b) \<Longrightarrow> br_writer b" "br_reader (try_steps idle evs b) \<Longrightarrow> br_reader b"
  "br_peer (try_steps idle evs b) \<Longrightarrow> br_peer b" "br_ssh (try_steps idle evs b) \<Longrightarrow> br_ssh b"
proof -
  show "br_ws (try_steps idle evs b) \<Longrightarrow> br_ws b"
    by (induction evs arbitrary: b) (simp, simp, blast dest: try_step_mono(1))
  show "br_main (try_steps idle evs b) \<Longrightarrow> br_main b"
    by (induction evs arbitrary: b) (simp, simp, blast dest: try_step_mono(2))
  show "br_writer (try_steps idle evs b) \<Longrightarrow> br_writer b"
    by (induction evs arbitrary: b) (simp, simp, blast dest: try_step_mono(3))
  show "br_reader (try_steps idle evs b) \<Longrightarrow> br_reader b"
    by (induction evs arbitrary: b) (simp, simp, blast dest: try_step_mono(4))
  show "br_peer (try_steps idle evs b) \<Longrightarrow> br_peer b"
    by (induction evs arbitrary: b) (simp, simp, blast dest: try_step_mono(5))
  show "br_ssh (try_steps idle evs b) \<Longrightarrow> br_ssh b"
    by (induction evs arbitrary: b) (simp, simp, blast dest: try_step_mono(6))
qed

lemma returned_stays: "returned b \<Longrightarrow> returned (try_steps idle evs b)"
  using try_steps_mono by (auto simp: returned_def)

lemma bridge_run_steps: "returned (try_steps idle evs b) \<Longrightarrow> \<exists>b'. bridge_run idle evs b = Some b'"
proof (induction evs arbitrary: b)
  case Nil
  then show ?case by (simp add: bridge_run.simps)
next
  case (Cons ev evs)
  then show ?case by (simp add: bridge_run_Cons)
qed

text \<open>A quiet run with a late enough tick closes the websocket.\<close>

lemma quiet_closed:
  assumes "\<forall>ev \<in> set evs. \<not> activity ev" and "br_watcher b \<or> \<not> br_ws b" and "IdleTick t \<in> set evs"
    and "br_last b + idle \<le> t"
  shows "\<not> br_ws (try_steps idle evs b)"
  using assms
proof (induction evs arbitrary: b)
  case (Cons ev evs)
  let ?b = "try_step idle ev b"
  show ?case
  proof (cases "br_ws ?b")
    case False
    then show ?thesis using try_steps_mono(1) by auto
  next
    case True
    then have w: "br_watcher b" using Cons.prems(2) try_step_mono(1) by blast
    have "ev \<noteq> IdleTick t" using True w Cons.prems(4) by (auto simp: try_step_def on_tick_def)
    with try_step_quiet [OF _ w] Cons.prems Cons.IH [of ?b] show ?thesis by fastforce
  qed
qed simp

text \<open>
  What the goroutines rely on: the reader of the websocket stops only once the SSH session is
  over, since on a read error it closes the session itself; and the handler leaves its select only
  then, closing the websocket.
\<close>

definition bridge_ok :: "bridge \<Rightarrow> bool" where
  "bridge_ok b \<longleftrightarrow> (br_reader b \<or> \<not> br_ssh b) \<and> (br_main b \<or> \<not> br_ws b \<and> \<not> br_ssh b)"

lemma bridge_ok_start: "bridge_ok (bridge_start idle now)"
  by (simp add: bridge_ok_def bridge_start_def)

lemma bridge_ok_step: "bridge_ok b \<Longrightarrow> bridge_ok (try_step idle ev b)"
  by (cases ev; cases "enabled ev b"; simp add: try_step_def bridge_ok_def bridge_defs split: ws_message.splits; blast)

lemma bridge_ok_steps: "bridge_ok b \<Longrightarrow> bridge_ok (try_steps idle evs b)"
  by (induction evs arbitrary: b) (simp_all add: bridge_ok_step)

text \<open>Something ends the terminal: the browser leaves, the websocket is closed or the command ends.\<close>

definition ended :: "bridge \<Rightarrow> bool" where
  "ended b \<longleftrightarrow> \<not> br_ws b \<or> \<not> br_peer b \<or> \<not> br_ssh b"

text \<open>
  A stretch of a run in which each goroutine the handler waits for gets its turn: the reader tries
  to read the websocket, the handler looks at \<open>sshDone\<close> and the writer reads the last of the SSH
  output. A turn that has to wait changes nothing.
\<close>

definition turns :: "bridge_event list \<Rightarrow> bool" where
  "turns evs \<longleftrightarrow> ReadError \<in> set evs \<and> SshDone \<in> set evs \<and> (\<exists>dat ok now. Stdout dat ok False now \<in> set evs)"

lemma try_steps_split:
  assumes "ev \<in> set evs"
  obtains evs1 evs2 where "try_steps idle evs b = try_steps idle evs2 (try_step idle ev (try_steps idle evs1 b))"
  using split_list [OF assms] by fastforce

lemma turn_reader:
  assumes "ReadError \<in> set evs" and "\<not> br_ws b \<or> \<not> br_peer b"
  shows "\<not> br_reader (try_steps idle evs b)"
proof -
  from try_steps_split [OF assms(1)] obtain evs1 evs2 where
    e: "try_steps idle evs b = try_steps idle evs2 (try_step idle ReadError (try_steps idle evs1 b))" .
  have "\<not> br_ws (try_steps idle evs1 b) \<or> \<not> br_peer (try_steps idle evs1 b)" using assms(2) try_steps_mono(1,5) by blast
  then have "\<not> br_reader (try_step idle ReadError (try_steps idle evs1 b))" by (auto simp: try_step_def bridge_defs)
  then show ?thesis unfolding e using try_steps_mono(4) by blast
qed

lemma turn_main:
  assumes "SshDone \<in> set evs" and "\<not> br_ssh b"
  shows "\<not> br_main (try_steps idle evs b)"
proof -
  from try_steps_split [OF assms(1)] obtain evs1 evs2 where
    e: "try_steps idle evs b = try_steps idle evs2 (try_step idle SshDone (try_steps idle evs1 b))" .
  have "\<not> br_ssh (try_steps idle evs1 b)" using assms(2) try_steps_mono(6) by blast
  then have "\<not> br_main (try_step idle SshDone (try_steps idle evs1 b))" by (auto simp: try_step_def bridge_defs)
  then show ?thesis unfolding e using try_steps_mono(2) by blast
qed

lemma turn_writer:
  assumes "Stdout dat ok False now \<in> set evs" and "\<not> br_ssh b" and "\<not> br_ws b \<or> \<not> br_peer b"
  shows "\<not> br_writer (try_steps idle evs b)"
proof -
  from try_steps_split [OF assms(1)] obtain evs1 evs2 where
    e: "try_steps idle evs b = try_steps idle evs2 (try_step idle (Stdout dat ok False now) (try_steps idle evs1 b))" .
  have "\<not> br_ssh (try_steps idle evs1 b)" "\<not> br_ws (try_steps idle evs1 b) \<or> \<not> br_peer (try_steps idle evs1 b)"
    using assms(2,3) try_steps_mono(1,5,6) by blast+
  then have "\<not> br_writer (try_step idle (Stdout dat ok False now) (try_steps idle evs1 b))"
    by (auto simp: try_step_def bridge_defs)
  then show ?thesis unfolding e using try_steps_mono(3) by blast
qed

text \<open>The first turns end the session and the browser's connection, the second turns the goroutines.\<close>

lemma turns_shut:
  assumes "turns evs" and "bridge_ok b" and "ended b"
  shows "\<not> br_ssh (try_steps idle evs b) \<and> (\<not> br_ws (try_steps idle evs b) \<or> \<not> br_peer (try_steps idle evs b))"
proof (cases "br_ssh b")
  case False
  then have "\<not> br_main (try_steps idle evs b)" using assms(1) turn_main by (simp add: turns_def)
  with bridge_ok_steps [OF assms(2), of idle evs] show ?thesis by (auto simp: bridge_ok_def)
next
  case True
  then have "\<not> br_ws b \<or> \<not> br_peer b" using assms(3) by (simp add: ended_def)
  with assms(1) turn_reader [of evs b idle] have "\<not> br_reader (try_steps idle evs b)" by (simp add: turns_def)
  with bridge_ok_steps [OF assms(2), of idle evs] \<open>\<not> br_ws b \<or> \<not> br_peer b\<close> show ?thesis
    using try_steps_mono(1,5) by (auto simp: bridge_ok_def)
qed

lemma turns_return:
  assumes "turns evs1" and "turns evs2" and "bridge_ok b" and "ended b"
  shows "returned (try_steps idle (evs1 @ evs2) b)"
proof -
  note shut = turns_shut [OF assms(1,3,4), of idle]
  show ?thesis
    using assms(2) shut turn_main turn_reader turn_writer by (auto simp: turns_def returned_def)
qed

section \<open>What the handler leaves unchanged\<close>

text \<open>The pool does not touch the websocket gauge or the audit log.\<close>

definition term_frame :: "int option \<Rightarrow> audit_entry list \<Rightarrow> ('w, 'a) term_state_scheme \<Rightarrow> bool" where
  "term_frame g a s \<longleftrightarrow> m_ws s = g \<and> audit_log (st_db s) = a"

lemma hostKeyCallback_audit: "audit_log (st_db (snd (hostKeyCallback L now sid key s))) = audit_log (st_db s)"
  by (auto simp: hostKeyCallback_db StoreHostKey_def UpdateServerStatus_def after_def split: sum.splits)

interpretation pool_term: pool_invariant L "term_frame g a" for L g a
  by unfold_locales
     (auto simp: term_frame_def gauge_add_def count_ssh_error_def hostKeyCallback_audit,
      auto simp: hostKeyCallback_def hostKey_decide_def split: sum.splits)

lemma Pool_Session_frame: "Pool_Session L now sid s = (r, s') \<Longrightarrow> term_frame (m_ws s) (audit_log (st_db s)) s'"
  using pool_term.session [of "m_ws s" "audit_log (st_db s)" s L now sid] by (simp add: term_frame_def)

lemma outside_frame: "outside f s = (x, s') \<Longrightarrow> m_ws s' = m_ws s \<and> st_db s' = st_db s \<and> conns s' = conns s"
  by (auto simp: outside_def split: prod.splits)

lemma send_out_frame [simp]: "m_ws (send_out tm es s) = m_ws s" "st_db (send_out tm es s) = st_db s"
  by (simp_all add: send_out_def)

lemma ws_gauge_simps [simp]: "st_db (ws_gauge n s) = st_db s" "m_ws (ws_gauge n s) = map_option (\<lambda>g. g + n) (m_ws s)"
  by (simp_all add: ws_gauge_def)

lemma write_audit_ws [simp]: "m_ws (write_audit dr e s) = m_ws s"
  by (simp add: write_audit_def)

lemma Bridge_logAudit_ws [simp]: "m_ws (Bridge_logAudit dr r a tt ti d s) = m_ws s"
  by (simp add: Bridge_logAudit_def Let_def)

lemma terminal_session_frame:
  assumes "terminal_session L tm idle now evs sid name rws cls s = Some s'"
  shows "m_ws s' = m_ws s" "audit_log (st_db s') = audit_log (st_db s)"
  using assms
  by (auto simp: terminal_session_def Let_def term_frame_def dest!: Pool_Session_frame outside_frame
      split: prod.splits sum.splits bool.splits option.splits)

lemma bridge_total_session:
  assumes "bridge_run idle evs (bridge_start idle now) \<noteq> None"
  shows "\<exists>s'. terminal_session L tm idle now evs sid name rws cls s = Some s'"
  using assms by (auto simp: terminal_session_def Let_def split: prod.splits sum.splits bool.splits)

lemma HandleTerminal_serves:
  assumes "safeNameRe (rq_PathValue r ''session'')"
    and "GetServer (st_db s) (rq_PathValue r ''server'') (owner_filter r) = Inr srv"
    and "outside (ws_upgrade tm CheckOrigin r) s = (None, s1)"
    and "bridge_run idle evs (bridge_start idle (dr_now dr)) \<noteq> None"
  shows "\<exists>s'. HandleTerminal is_print L tm idle dr dr' evs r s = Some (reply 101 JNull, s')"
  using assms(1-3) bridge_total_session [OF assms(4)] by (simp add: HandleTerminal_def Let_def)

lemma HandleTerminal_total:
  assumes "bridge_run idle evs (bridge_start idle (dr_now dr)) \<noteq> None"
  shows "\<exists>rs s'. HandleTerminal is_print L tm idle dr dr' evs r s = Some (rs, s')"
  using bridge_total_session [OF assms] by (simp add: HandleTerminal_def Let_def split: sum.splits prod.splits option.splits) blast

lemma write_audit_keeps: "set (audit_log (st_db s)) \<subseteq> set (audit_log (st_db (write_audit dr e s)))"
  using write_audit_log [of dr e s] by auto

lemma write_audit_ok:
  assumes "LogAudit (st_db s) (dr_now dr) (dr_audit dr) e = Inr d'"
  shows "\<exists>x \<in> set (audit_log (st_db (write_audit dr e s))). aud_Action x = aud_Action e \<and> aud_UserID x = aud_UserID e \<and>
     aud_Username x = aud_Username e \<and> aud_TargetID x = aud_TargetID e \<and> aud_IPAddress x = aud_IPAddress e"
  using LogAudit_frame [OF assms] assms by (auto simp: write_audit_def after_def)

section \<open>Origins\<close>

text \<open>An origin without a path is accepted only for the host the request names.\<close>

lemma suffix_scheme:
  assumes "HasSuffix (sch @ ''://'' @ h) (''://'' @ host)" and "CHR ''/'' \<notin> set h" and "CHR ''/'' \<notin> set host"
  shows "h = host"
proof -
  let ?o = "sch @ ''://'' @ h"
  have tail: "takeWhile (\<lambda>c. c \<noteq> CHR ''/'') (rev (x @ CHR ''/'' # a)) = rev a" if "CHR ''/'' \<notin> set a"
    for x a :: string
    using that by (simp add: takeWhile_append)
  define p where "p = take (length ?o - length (''://'' @ host)) ?o"
  have "?o = p @ ''://'' @ host"
    using assms(1) append_take_drop_id [of "length ?o - length (''://'' @ host)" ?o]
    unfolding HasSuffix_def p_def by presburger
  then have "(sch @ '':/'') @ CHR ''/'' # h = (p @ '':/'') @ CHR ''/'' # host" by simp
  with tail [OF assms(2), of "sch @ '':/''"] tail [OF assms(3), of "p @ '':/''"] show ?thesis by (metis rev_rev_ident)
qed

section \<open>Properties\<close>

text \<open>The handshake asks the origin check it is given and a refusal has another status than 101.\<close>

definition upgrade_ok :: "'w term_lib \<Rightarrow> bool" where
  "upgrade_ok tm \<longleftrightarrow> (\<forall>check r w w'. ws_upgrade tm check r w = (None, w') \<longrightarrow> check r) \<and>
     (\<forall>check r w w' code. ws_upgrade tm check r w = (Some code, w') \<longrightarrow> code \<noteq> 101)"

lemma HandleTerminal_upgraded:
  assumes "HandleTerminal is_print L tm idle dr dr' evs r s = Some (rs, s')" and "rs_Code rs = 101" and "upgrade_ok tm"
  obtains s1 s3 srv where "safeNameRe (rq_PathValue r ''session'')"
    "GetServer (st_db s) (rq_PathValue r ''server'') (owner_filter r) = Inr srv"
    "outside (ws_upgrade tm CheckOrigin r) s = (None, s1)" "CheckOrigin r"
    "terminal_session L tm idle (dr_now dr) evs (rq_PathValue r ''server'') (rq_PathValue r ''session'')
       (dimension (rq_Query r ''rows'') 24) (dimension (rq_Query r ''cols'') 80)
       (Bridge_logAudit dr r AuditTerminalConnect ''session'' (rq_PathValue r ''session'')
          (terminal_details is_print (rq_PathValue r ''server'') (rq_PathValue r ''session'')) (ws_gauge 1 s1)) = Some s3"
    "s' = send_out tm [CloseWS] (ws_gauge (- 1)
       (Bridge_logAudit dr' r AuditTerminalDisconnect ''session'' (rq_PathValue r ''session'')
          (terminal_details is_print (rq_PathValue r ''server'') (rq_PathValue r ''session'')) s3))"
proof -
  obtain code s1 where up: "outside (ws_upgrade tm CheckOrigin r) s = (code, s1)" by fastforce
  then obtain w' where w': "ws_upgrade tm CheckOrigin r (world s) = (code, w')"
    by (auto simp: outside_def split: prod.splits)
  have law: "code = None \<Longrightarrow> CheckOrigin r" "\<And>c. code = Some c \<Longrightarrow> c \<noteq> 101"
    using assms(3) w' unfolding upgrade_ok_def by blast+
  show ?thesis
    using assms(1,2) up law
    by (auto intro: that simp: HandleTerminal_def Let_def split: if_splits sum.splits option.splits)
qed

lemma Bridge_logAudit_written:
  assumes "rq_User r = Some u" and "\<not> fault (st_db s) XLogAudit"
    and "\<forall>x \<in> set (audit_log (st_db s)). aud_ID x \<noteq> fmt_x (dr_now dr) @ ''-'' @ fmt_x (dr_audit dr)"
  shows "\<exists>x \<in> set (audit_log (st_db (Bridge_logAudit dr r a tt ti det s))). aud_Action x = a \<and> aud_UserID x = cl_UserID u \<and>
    aud_Username x = cl_Username u \<and> aud_TargetID x = ti \<and> aud_IPAddress x = clientIPTerminal r"
proof -
  let ?e = "empty_entry\<lparr>aud_Action := a, aud_TargetType := tt, aud_TargetID := ti, aud_Details := det,
    aud_IPAddress := clientIPTerminal r, aud_UserID := cl_UserID u, aud_Username := cl_Username u\<rparr>"
  have "\<exists>d'. LogAudit (st_db s) (dr_now dr) (dr_audit dr) ?e = Inr d'"
    using assms(2,3) by (simp add: LogAudit_def Let_def empty_entry_def list_ex_iff)
  then obtain d' where "LogAudit (st_db s) (dr_now dr) (dr_audit dr) ?e = Inr d'" ..
  from write_audit_ok [OF this] show ?thesis by (simp add: Bridge_logAudit_def assms(1))
qed

text \<open>C13. A terminal is opened only for a session name that is one word of the remote shell, on a
  server the user may see (own or unowned, any for an admin), and for a browser only from a page
  of the host it addresses. When the handler returns, the gauge of open terminals is what it was,
  and where the entry could be written the connection is in the audit log under the user, session
  and address. A request that is refused, before or by the upgrade, leaves the database, the
  cached connections and the gauge as they were.\<close>

theorem terminal_access:
  assumes "upgrade_ok tm" and "HandleTerminal is_print L tm idle dr dr' evs r s = Some (rs, s')"
  shows "m_ws s' = m_ws s \<and>
    (rs_Code rs \<noteq> 101 \<longrightarrow> st_db s' = st_db s \<and> conns s' = conns s) \<and>
    (rs_Code rs = 101 \<longrightarrow> shell_words (attach_command (rq_PathValue r ''session'')) =
         Some [''tmux'', ''new'', ''-A'', ''-s'', rq_PathValue r ''session''] \<and>
       (\<exists>srv \<in> set (servers (st_db s)). srv_ID srv = rq_PathValue r ''server'' \<and> visible (owner_filter r) srv) \<and>
       (\<forall>sch h. rq_Header r ''Origin'' = sch @ ''://'' @ h \<longrightarrow> CHR ''/'' \<notin> set h \<longrightarrow> CHR ''/'' \<notin> set (rq_Host r) \<longrightarrow>
          h = rq_Host r) \<and>
       (\<forall>u. rq_User r = Some u \<longrightarrow> \<not> fault (st_db s) XLogAudit \<longrightarrow>
          (\<forall>x \<in> set (audit_log (st_db s)). aud_ID x \<noteq> fmt_x (dr_now dr) @ ''-'' @ fmt_x (dr_audit dr)) \<longrightarrow>
          (\<exists>x \<in> set (audit_log (st_db s')). aud_Action x = AuditTerminalConnect \<and> aud_UserID x = cl_UserID u \<and>
             aud_Username x = cl_Username u \<and> aud_TargetID x = rq_PathValue r ''session'' \<and> aud_IPAddress x = clientIPTerminal r)))"
proof (cases "rs_Code rs = 101")
  case False
  with assms(2) show ?thesis
    by (auto simp: HandleTerminal_def Let_def dest!: outside_frame split: if_splits sum.splits option.splits prod.splits)
next
  case True
  let ?details = "terminal_details is_print (rq_PathValue r ''server'') (rq_PathValue r ''session'')"
  from HandleTerminal_upgraded [OF assms(2) True assms(1)] obtain s1 s3 srv where
    name: "safeNameRe (rq_PathValue r ''session'')" and
    srv: "GetServer (st_db s) (rq_PathValue r ''server'') (owner_filter r) = Inr srv" and
    up: "outside (ws_upgrade tm CheckOrigin r) s = (None, s1)" and origin: "CheckOrigin r" and
    run: "terminal_session L tm idle (dr_now dr) evs (rq_PathValue r ''server'') (rq_PathValue r ''session'')
       (dimension (rq_Query r ''rows'') 24) (dimension (rq_Query r ''cols'') 80)
       (Bridge_logAudit dr r AuditTerminalConnect ''session'' (rq_PathValue r ''session'') ?details (ws_gauge 1 s1)) = Some s3" and
    s': "s' = send_out tm [CloseWS] (ws_gauge (- 1)
       (Bridge_logAudit dr' r AuditTerminalDisconnect ''session'' (rq_PathValue r ''session'') ?details s3))" by blast
  note f1 = outside_frame [OF up] and f3 = terminal_session_frame [OF run]
  have gauge: "m_ws s' = m_ws s" using f1 f3(1) by (simp add: s' option.map_comp comp_def option.map_ident)
  have seen: "\<exists>srv \<in> set (servers (st_db s)). srv_ID srv = rq_PathValue r ''server'' \<and> visible (owner_filter r) srv"
    using srv by (auto simp: GetServer_def dest!: find_row_Some split: if_splits option.splits)
  have "h = rq_Host r" if "rq_Header r ''Origin'' = sch @ ''://'' @ h" "CHR ''/'' \<notin> set h" "CHR ''/'' \<notin> set (rq_Host r)" for sch h
    using suffix_scheme [of sch h "rq_Host r"] origin that by (simp add: CheckOrigin_def Let_def)
  moreover have "\<exists>x \<in> set (audit_log (st_db s')). aud_Action x = AuditTerminalConnect \<and> aud_UserID x = cl_UserID u \<and>
      aud_Username x = cl_Username u \<and> aud_TargetID x = rq_PathValue r ''session'' \<and> aud_IPAddress x = clientIPTerminal r"
    if "rq_User r = Some u" "\<not> fault (st_db s) XLogAudit"
      "\<forall>x \<in> set (audit_log (st_db s)). aud_ID x \<noteq> fmt_x (dr_now dr) @ ''-'' @ fmt_x (dr_audit dr)" for u
  proof -
    have "set (audit_log (st_db s3)) \<subseteq> set (audit_log (st_db s'))"
      using write_audit_keeps by (simp add: s' Bridge_logAudit_def Let_def)
    moreover note Bridge_logAudit_written [OF that(1), where s = "ws_gauge 1 s1" and dr = dr and a = AuditTerminalConnect]
    ultimately show ?thesis using that(2,3) f1 f3(2) by (fastforce simp: subset_iff)
  qed
  ultimately show ?thesis using True gauge seen attach_command_words [OF name] by blast
qed

definition demo_tm :: "demo_net term_lib" where
  "demo_tm = \<lparr>ws_upgrade = (\<lambda>check r w. (if check r then None else Some 403, w)), ssh_pty = (\<lambda>c t rws cls w. (True, w)),
     ssh_stdin = (\<lambda>c w. (True, w)), ssh_stdout = (\<lambda>c w. (True, w)), ssh_start = (\<lambda>c cmd w. (True, w)),
     term_out = (\<lambda>es w. w)\<rparr>"

lemma demo_tm_ok: "upgrade_ok demo_tm"
  by (simp add: upgrade_ok_def demo_tm_def)

definition demo_term :: "demo_net term_state" where
  "demo_term = mgr_state.extend (demo_mgr ''k'') \<lparr>m_ws = Some 0\<rparr>"

definition demo_terminal_request :: request where
  "demo_terminal_request = (demo_request [] None)\<lparr>rq_User := Some (demo_claims ''user''),
     rq_PathValue := (\<lambda>k. if k = ''server'' then ''s1'' else ''web-1''),
     rq_Header := (\<lambda>k. if k = ''Origin'' then ''https://h'' else [])\<rparr>"

definition demo_at :: "time \<Rightarrow> draws" where
  "demo_at t = \<lparr>dr_now = t, dr_id = [], dr_audit = t, dr_csrf = None\<rparr>"

abbreviation demo_terminal :: "bridge_event list \<Rightarrow> (response \<times> demo_net term_state) option" where
  "demo_terminal evs \<equiv> HandleTerminal (\<lambda>_. True) demo_libs demo_tm 60000000000 (demo_at 1) (demo_at 2) evs
     demo_terminal_request demo_term"

lemma demo_term_run:
  assumes "bridge_run idle evs (bridge_start idle 1) = Some b"
  shows "\<exists>s'. HandleTerminal (\<lambda>_. True) demo_libs demo_tm idle (demo_at 1) (demo_at 2) evs demo_terminal_request demo_term =
     Some (reply 101 JNull, s')"
proof (rule HandleTerminal_serves)
  show "safeNameRe (rq_PathValue demo_terminal_request ''session'')"
    by (simp add: demo_terminal_request_def safeNameRe_def safe_char_def byte_in_def)
  show "GetServer (st_db demo_term) (rq_PathValue demo_terminal_request ''server'') (owner_filter demo_terminal_request) =
      Inr (demo_server ''s1'' ''alpha'' ''u1'')"
    by (simp add: demo_terminal_request_def demo_claims_def owner_filter_def RoleAdmin_def demo_term_def demo_mgr_def
        mgr_state.defs pool_state.defs demo_pool_def demo_defs GetServer_def visible_def)
  show "outside (ws_upgrade demo_tm CheckOrigin demo_terminal_request) demo_term = (None, demo_term)"
    by (simp add: outside_def demo_tm_def CheckOrigin_def HasSuffix_def demo_terminal_request_def demo_request_def)
  show "bridge_run idle evs (bridge_start idle (dr_now (demo_at 1))) \<noteq> None" using assms by (simp add: demo_at_def)
qed

theorem terminal_access_witness:
  "\<exists>rs s'. demo_terminal [Stdout ''hi'' True True 2, CommandEnds, SshDone, ReadError, Stdout [] True False 3] = Some (rs, s') \<and>
     m_ws s' = Some 0 \<and> (\<exists>x \<in> set (audit_log (st_db s')). aud_Action x = AuditTerminalConnect \<and> aud_Username x = ''ann'')"
proof -
  have "\<exists>b. bridge_run 60000000000 [Stdout ''hi'' True True 2, CommandEnds, SshDone, ReadError, Stdout [] True False 3]
      (bridge_start 60000000000 1) = Some b"
    by (simp add: bridge_run.simps bridge_start_def returned_def bridge_defs emit_def)
  then obtain s' where h: "demo_terminal [Stdout ''hi'' True True 2, CommandEnds, SshDone, ReadError, Stdout [] True False 3] =
      Some (reply 101 JNull, s')" using demo_term_run by blast
  have u: "rq_User demo_terminal_request = Some (demo_claims ''user'')" by (simp add: demo_terminal_request_def)
  have no_id: "''a'' \<noteq> x @ CHR ''-'' # y" "''b'' \<noteq> x @ CHR ''-'' # y" for x y :: string
    by (auto simp: Cons_eq_append_conv)
  have f: "\<not> fault (st_db demo_term) XLogAudit" and m: "m_ws demo_term = Some 0" and
    i: "\<forall>x \<in> set (audit_log (st_db demo_term)). aud_ID x \<noteq> fmt_x (dr_now (demo_at 1)) @ ''-'' @ fmt_x (dr_audit (demo_at 1))"
    by (simp_all add: demo_term_def demo_mgr_def mgr_state.defs pool_state.defs demo_pool_def demo_defs no_id)
  note t = terminal_access [OF demo_tm_ok h]
  have "m_ws s' = Some 0" using t m by simp
  moreover have "\<exists>x \<in> set (audit_log (st_db s')). aud_Action x = AuditTerminalConnect \<and> aud_UserID x = cl_UserID (demo_claims ''user'') \<and>
      aud_Username x = cl_Username (demo_claims ''user'') \<and> aud_TargetID x = rq_PathValue demo_terminal_request ''session'' \<and>
      aud_IPAddress x = clientIPTerminal demo_terminal_request"
    using t u f i by simp
  ultimately show ?thesis using h by (auto simp: demo_claims_def)
qed

text \<open>C38. The idle timeout. Where one is configured, some tick of the watcher's ticker falls between
  the end of the timeout after the last activity and a tick interval later, which is a tenth of
  the timeout and at least a second; in every run that takes this tick and moves no terminal data
  the websocket is closed. The watcher never acts before the timeout is over.\<close>

theorem idle_timeout_bounds:
  assumes "0 < idle" and "start \<le> br_last b" and "br_watcher b"
  shows "(\<exists>k > 0. let t = start + k * tickInterval idle in
      br_last b + idle \<le> t \<and> t < br_last b + idle + max 1000000000 (idle div 10) \<and>
      (\<forall>evs. (\<forall>ev \<in> set evs. \<not> activity ev) \<longrightarrow> IdleTick t \<in> set evs \<longrightarrow> \<not> br_ws (fold (try_step idle) evs b))) \<and>
    (\<forall>now. now < br_last b + idle \<longrightarrow> bridge_step idle (IdleTick now) b = b)"
proof -
  let ?p = "tickInterval idle" and ?d = "br_last b + idle - start"
  define k where "k = (?d + ?p - 1) div ?p"
  have p: "0 < ?p" "?p = max 1000000000 (idle div 10)" using assms(1) by (auto simp: tickInterval_def)
  have d: "0 < ?d" using assms(1,2) by simp
  have dm: "k * ?p + (?d + ?p - 1) mod ?p = ?d + ?p - 1" unfolding k_def by (rule div_mult_mod_eq)
  have m: "0 \<le> (?d + ?p - 1) mod ?p" "(?d + ?p - 1) mod ?p < ?p" using p(1) by simp_all
  have lo: "br_last b + idle \<le> start + k * ?p" and hi: "start + k * ?p < br_last b + idle + ?p" using dm m by linarith+
  have "0 < k" using d lo p(1) by (smt (verit) mult_nonpos_nonneg)
  moreover have "\<not> br_ws (fold (try_step idle) evs b)"
    if "\<forall>ev \<in> set evs. \<not> activity ev" "IdleTick (start + k * ?p) \<in> set evs" for evs
    using quiet_closed [OF that(1) _ that(2) lo] assms(3) by blast
  ultimately have "\<exists>k > 0. let t = start + k * ?p in br_last b + idle \<le> t \<and> t < br_last b + idle + max 1000000000 (idle div 10) \<and>
      (\<forall>evs. (\<forall>ev \<in> set evs. \<not> activity ev) \<longrightarrow> IdleTick t \<in> set evs \<longrightarrow> \<not> br_ws (fold (try_step idle) evs b))"
    using lo hi p(2) by (metis (no_types, lifting))
  moreover have "bridge_step idle (IdleTick now) b = b" if "now < br_last b + idle" for now
    using that by (simp add: on_tick_def)
  ultimately show ?thesis by blast
qed

theorem idle_timeout_bounds_witness:
  "bridge_step 1800000000000 (IdleTick 1799999999999) (bridge_start 1800000000000 0) = bridge_start 1800000000000 0 \<and>
   (\<exists>k > 0. k * tickInterval 1800000000000 < 1980000000000 \<and>
     \<not> br_ws (fold (try_step 1800000000000) [IdleTick (k * tickInterval 1800000000000)] (bridge_start 1800000000000 0)))"
proof -
  let ?b = "bridge_start 1800000000000 0"
  have b: "br_last ?b = 0" "br_watcher ?b" by (simp_all add: bridge_start_def)
  have "(0 :: int) < 1800000000000" "0 \<le> br_last ?b" by (simp_all add: b)
  note t = idle_timeout_bounds [OF this b(2)]
  from t obtain k where "k > 0" "k * tickInterval 1800000000000 < 1980000000000"
    "\<forall>evs. (\<forall>ev \<in> set evs. \<not> activity ev) \<longrightarrow> IdleTick (k * tickInterval 1800000000000) \<in> set evs \<longrightarrow>
       \<not> br_ws (fold (try_step 1800000000000) evs ?b)"
    by (auto simp: b Let_def)
  moreover from this(3) [rule_format, of "[IdleTick (k * tickInterval 1800000000000)]"]
  have "\<not> br_ws (fold (try_step 1800000000000) [IdleTick (k * tickInterval 1800000000000)] ?b)" by simp
  ultimately show ?thesis using t [THEN conjunct2, rule_format, of 1799999999999] b(1) by auto
qed

text \<open>C14. The handler returns once something ends its terminal: the command ends, the browser leaves,
  or a tick of the idle watcher comes the timeout after the start while no terminal data moved. A
  goroutine only gets on when what it waits for has happened; in every run in which after that
  each of the three goroutines gets two turns, in any order and among any other events, the first
  turns end what the others wait for (the reader of the websocket closes the SSH session, the
  handler the websocket) and the handler has returned.\<close>

theorem terminal_returns:
  assumes "evs = pre @ ev # first @ second" and "turns first" and "turns second"
    and "ev = CommandEnds \<or> ev = BrowserLeaves \<or>
      (\<exists>t. ev = IdleTick t \<and> 0 < idle \<and> dr_now dr + idle \<le> t \<and> (\<forall>e \<in> set pre. \<not> activity e))"
  shows "\<exists>rs s'. HandleTerminal is_print L tm idle dr dr' evs r s = Some (rs, s')"
proof -
  let ?b0 = "bridge_start idle (dr_now dr)"
  let ?b2 = "try_steps idle (pre @ [ev]) ?b0"
  have "ended ?b2" using assms(4)
  proof (elim disjE exE conjE)
    fix t assume t: "ev = IdleTick t" "0 < idle" "dr_now dr + idle \<le> t" "\<forall>e \<in> set pre. \<not> activity e"
    have "\<forall>e \<in> set (pre @ [ev]). \<not> activity e" "IdleTick t \<in> set (pre @ [ev])" using t(1,4) by auto
    then show ?thesis using quiet_closed [of "pre @ [ev]" ?b0 t idle] t(2,3) by (simp add: bridge_start_def ended_def)
  qed (auto simp: try_step_def ended_def)
  from turns_return [OF assms(2,3) bridge_ok_steps [OF bridge_ok_start] this]
  have "returned (try_steps idle evs ?b0)" by (simp add: assms(1))
  with bridge_run_steps HandleTerminal_total show ?thesis by blast
qed

theorem terminal_returns_witness:
  "\<exists>rs s'. demo_terminal ([Stdout ''hi'' True True 5, BrowserLeaves] @
     concat (replicate 2 [Stdout [] True False 7, SshDone, ReadError])) = Some (rs, s')"
  by (rule terminal_returns [where pre = "[Stdout ''hi'' True True 5]" and ev = BrowserLeaves
        and first = "[Stdout [] True False 7, SshDone, ReadError]" and second = "[Stdout [] True False 7, SshDone, ReadError]"])
     (auto simp: turns_def numeral_2_eq_2)

section \<open>No endless shutdown\<close>

text \<open>What the handler still waits for, and the events that need not bring it on: a tick, a read that
  returns no data and no error, a message that was already there, and what happens outside.\<close>

definition running :: "bridge \<Rightarrow> nat" where
  "running b = of_bool (br_main b) + of_bool (br_writer b) + of_bool (br_reader b)"

fun waits :: "bridge_event \<Rightarrow> bool" where
  "waits (IdleTick now) \<longleftrightarrow> True"
| "waits (Stdout dat ok cont now) \<longleftrightarrow> dat = [] \<and> cont"
| "waits (Message m ok now) \<longleftrightarrow> True"
| "waits BrowserLeaves \<longleftrightarrow> True"
| "waits CommandEnds \<longleftrightarrow> True"
| "waits _ \<longleftrightarrow> False"

fun taken :: "duration \<Rightarrow> bridge_event list \<Rightarrow> bridge \<Rightarrow> nat" where
  "taken idle [] b = 0"
| "taken idle (ev # evs) b =
     of_bool (enabled ev b \<and> \<not> waits ev) + taken idle evs (try_step idle ev b)"

text \<open>The states of a bridge.\<close>

inductive bridge_reach :: "duration \<Rightarrow> bridge \<Rightarrow> bool" for idle where
  "bridge_reach idle (bridge_start idle now)"
| "\<lbrakk>bridge_reach idle b; enabled ev b\<rbrakk> \<Longrightarrow> bridge_reach idle (bridge_step idle ev b)"

lemma bridge_reach_ok: "bridge_reach idle b \<Longrightarrow> bridge_ok b"
proof (induction rule: bridge_reach.induct)
  case (2 b ev)
  then show ?case using bridge_ok_step [of b idle ev] by (simp add: try_step_def)
qed (rule bridge_ok_start)

lemma closed_step_running:
  "\<not> br_ws b \<Longrightarrow> enabled ev b \<Longrightarrow> \<not> waits ev \<Longrightarrow> running (bridge_step idle ev b) < running b"
  by (cases ev) (auto simp: running_def bridge_defs split: if_splits)

lemma try_step_running: "running (try_step idle ev b) \<le> running b"
  using try_step_mono(2-4) [of idle ev b] by (auto simp: running_def of_bool_def)

lemma taken_running: "\<not> br_ws b \<Longrightarrow> taken idle evs b + running (try_steps idle evs b) \<le> running b"
proof (induction evs arbitrary: b)
  case (Cons ev evs)
  let ?b = "try_step idle ev b"
  have "\<not> br_ws ?b" using Cons.prems try_step_mono(1) by blast
  from Cons.IH [OF this] have "taken idle evs ?b + running (try_steps idle evs ?b) \<le> running ?b" .
  moreover have "of_bool (enabled ev b \<and> \<not> waits ev) + running ?b \<le> running b"
    using closed_step_running [OF Cons.prems, of ev idle] try_step_running [of idle ev b]
    by (auto simp: try_step_def of_bool_def)
  ultimately show ?case by simp
qed simp

text \<open>Once something has ended the terminal, some goroutine can take a step that stops it.\<close>

lemma ended_progress:
  assumes "bridge_ok b" and "ended b" and "\<not> returned b"
  shows "\<exists>ev. enabled ev b \<and> \<not> waits ev \<and> running (bridge_step idle ev b) < running b"
proof -
  consider "br_main b" "\<not> br_ssh b" | "br_reader b" "\<not> br_ws b \<or> \<not> br_peer b" | "br_writer b" "\<not> br_ssh b"
    using assms by (auto simp: bridge_ok_def ended_def returned_def)
  then show ?thesis
  proof cases
    case 1
    then show ?thesis by (intro exI [of _ SshDone]) (simp add: running_def bridge_defs)
  next
    case 2
    then show ?thesis by (intro exI [of _ ReadError]) (simp add: running_def bridge_defs)
  next
    case 3
    then show ?thesis by (intro exI [of _ "Stdout [] True False 0"]) (simp add: running_def bridge_defs)
  qed
qed

text \<open>C15. The end of a terminal neither hangs nor goes on forever. In every reachable state in which
  the command has ended, the browser has left or the websocket is closed, and the handler has not
  returned, one of the goroutines it waits for can take a step, which stops that goroutine:
  the websocket's reader and the handler do not wait for each other. After the websocket is
  closed the steps that are neither mere waiting nor the reading of a message that was already there
  are a well-founded relation, and a run has at most as many of them as goroutines the handler still
  waits for, which are at most three.\<close>

theorem shutdown_terminates:
  "(\<forall>b. bridge_reach idle b \<longrightarrow> ended b \<longrightarrow> \<not> returned b \<longrightarrow>
      (\<exists>ev. enabled ev b \<and> \<not> waits ev \<and> running (bridge_step idle ev b) < running b)) \<and>
   wf {(bridge_step idle ev b, b) | ev b. \<not> br_ws b \<and> enabled ev b \<and> \<not> waits ev} \<and>
   (\<forall>b evs. \<not> br_ws b \<longrightarrow> taken idle evs b \<le> running b \<and> running b \<le> 3)"
proof (intro conjI allI impI)
  show "\<exists>ev. enabled ev b \<and> \<not> waits ev \<and> running (bridge_step idle ev b) < running b"
    if "bridge_reach idle b" "ended b" "\<not> returned b" for b
    using ended_progress [OF bridge_reach_ok [OF that(1)] that(2,3)] .
  show "wf {(bridge_step idle ev b, b) | ev b. \<not> br_ws b \<and> enabled ev b \<and> \<not> waits ev}"
    by (rule wf_subset [OF wf_measure [of running]]) (auto simp: closed_step_running)
  show "taken idle evs b \<le> running b" if "\<not> br_ws b" for b evs
    using taken_running [OF that, of idle evs] by simp
  show "running b \<le> 3" for b by (simp add: running_def)
qed

theorem shutdown_terminates_witness:
  "let b = bridge_step 60 (IdleTick 99) (bridge_start 60 0); evs = [ReadError, Stdout ''late'' True True 98, SshDone, ReadError] in
   (\<exists>ev. enabled ev b \<and> \<not> waits ev \<and> running (bridge_step 60 ev b) < running b) \<and> taken 60 evs b = 3 \<and> taken 60 evs b \<le> running b"
proof -
  let ?b = "bridge_step 60 (IdleTick 99) (bridge_start 60 0)" and ?evs = "[ReadError, Stdout ''late'' True True 98, SshDone, ReadError]"
  have e: "enabled (IdleTick 99) (bridge_start 60 0)" by code_simp
  have r: "bridge_reach 60 ?b" by (rule bridge_reach.intros(2) [OF bridge_reach.intros(1) e])
  have "ended ?b" "\<not> returned ?b" "\<not> br_ws ?b" "taken 60 ?evs ?b = 3" by code_simp+
  with r shutdown_terminates [of 60] show ?thesis unfolding Let_def by blast
qed

end
