(* ===== verification/Config.thy ===== *)
theory Config
  imports GoLib
begin

text \<open>
  The configuration, \<open>internal/config/config.go\<close>: the tables of settings, the view of them
  the settings page shows (\<open>ResolveSettings\<close>), the configuration read from the environment
  (\<open>Load\<close>) and the settings of the database applied on top of it (\<open>ApplyDBSettings\<close>).

  The environment is a function from names to values, \<open>[]\<close> for an unset variable, as
  \<open>os.Getenv\<close> returns it. The settings of the database are a map. A Go map that is built
  once from a table and then only read is the association list of its entries.
\<close>

section \<open>Settings and their sources\<close>

type_synonym env = "string \<Rightarrow> string"
type_synonym db_settings = "string \<rightharpoonup> string"

datatype setting_source = SourceEnv | SourceDB | SourceDefault

record setting_value =
  sv_Value :: string
  sv_Source :: setting_source
  sv_IsSet :: bool

record setting_def =
  envVar :: string
  defaultValue :: string
  isSecret :: bool

record resolved_settings =
  rs_OIDC :: "(string \<times> setting_value) list"
  rs_Vault :: "(string \<times> setting_value) list"
  rs_General :: "(string \<times> setting_value) list"

abbreviation plain_def :: "string \<Rightarrow> string \<Rightarrow> setting_def" where
  "plain_def e v \<equiv> \<lparr>envVar = e, defaultValue = v, isSecret = False\<rparr>"

abbreviation secret_def :: "string \<Rightarrow> string \<Rightarrow> setting_def" where
  "secret_def e v \<equiv> \<lparr>envVar = e, defaultValue = v, isSecret = True\<rparr>"

definition oidcSettings :: "(string \<times> setting_def) list" where
  "oidcSettings =
     [(''issuer_url'', plain_def ''OVERLAY_OIDC_ISSUER_URL'' []),
      (''client_id'', plain_def ''OVERLAY_OIDC_CLIENT_ID'' []),
      (''client_secret'', secret_def ''OVERLAY_OIDC_CLIENT_SECRET'' []),
      (''redirect_url'', plain_def ''OVERLAY_OIDC_REDIRECT_URL'' []),
      (''roles_claim'', plain_def ''OVERLAY_OIDC_ROLES_CLAIM'' ''groups''),
      (''admin_group'', plain_def ''OVERLAY_OIDC_ADMIN_GROUP'' ''overlay-admin'')]"

definition vaultSettings :: "(string \<times> setting_def) list" where
  "vaultSettings =
     [(''address'', plain_def ''OVERLAY_VAULT_ADDR'' []),
      (''token'', secret_def ''OVERLAY_VAULT_TOKEN'' []),
      (''secret_path'', plain_def ''OVERLAY_VAULT_SECRET_PATH'' ''agentic-hive/ssh-keys'')]"

definition generalSettings :: "(string \<times> setting_def) list" where
  "generalSettings =
     [(''auth_mode'', plain_def ''OVERLAY_AUTH_MODE'' ''local''),
      (''keystore_backend'', plain_def ''OVERLAY_KEYSTORE_BACKEND'' ''local''),
      (''poll_interval'', plain_def ''OVERLAY_POLL_INTERVAL'' ''30''),
      (''terminal_idle_timeout'', plain_def ''OVERLAY_TERMINAL_IDLE_TIMEOUT'' ''0''),
      (''log_level'', plain_def ''OVERLAY_LOG_LEVEL'' ''info''),
      (''emergency_local_auth'', plain_def ''OVERLAY_EMERGENCY_LOCAL_AUTH'' ''false'')]"

text \<open>Reading an absent key of a Go map gives the zero value.\<close>

definition db_get :: "db_settings \<Rightarrow> string \<Rightarrow> string" where
  "db_get db k = (case db k of None \<Rightarrow> [] | Some v \<Rightarrow> v)"

text \<open>The body of the loop of \<open>resolveGroup\<close>.\<close>

definition resolve_setting :: "env \<Rightarrow> db_settings \<Rightarrow> string \<Rightarrow> string \<Rightarrow> setting_def \<Rightarrow> setting_value" where
  "resolve_setting getenv db pre key def =
     (let dbKey = pre @ key; envVal = getenv (envVar def); dbVal = db_get db dbKey in
      if envVal \<noteq> [] then
        (if isSecret def then \<lparr>sv_Value = [], sv_Source = SourceEnv, sv_IsSet = True\<rparr>
         else \<lparr>sv_Value = envVal, sv_Source = SourceEnv, sv_IsSet = False\<rparr>)
      else if dbVal \<noteq> [] then
        (if isSecret def then \<lparr>sv_Value = [], sv_Source = SourceDB, sv_IsSet = True\<rparr>
         else \<lparr>sv_Value = dbVal, sv_Source = SourceDB, sv_IsSet = False\<rparr>)
      else
        (if isSecret def then \<lparr>sv_Value = [], sv_Source = SourceDefault, sv_IsSet = defaultValue def \<noteq> []\<rparr>
         else \<lparr>sv_Value = defaultValue def, sv_Source = SourceDefault, sv_IsSet = False\<rparr>))"

definition resolveGroup ::
  "env \<Rightarrow> (string \<times> setting_def) list \<Rightarrow> db_settings \<Rightarrow> string \<Rightarrow> (string \<times> setting_value) list" where
  "resolveGroup getenv defs db pre =
     map (\<lambda>(key, def). (key, resolve_setting getenv db pre key def)) defs"

definition ResolveSettings :: "env \<Rightarrow> db_settings \<Rightarrow> resolved_settings" where
  "ResolveSettings getenv db =
     \<lparr>rs_OIDC = resolveGroup getenv oidcSettings db ''oidc.'',
      rs_Vault = resolveGroup getenv vaultSettings db ''vault.'',
      rs_General = resolveGroup getenv generalSettings db ''general.''\<rparr>"

section \<open>The configuration\<close>

record config =
  Listen :: string
  DBPath :: string
  AuthMode :: string
  SessionSecret :: string
  PollInterval :: int
  TerminalIdleTimeout :: int
  KeyStoreBackend :: string
  LogLevel :: string
  OIDCIssuerURL :: string
  OIDCClientID :: string
  OIDCClientSecret :: string
  OIDCRedirectURL :: string
  OIDCRolesClaim :: string
  OIDCAdminGroup :: string
  VaultAddr :: string
  VaultToken :: string
  VaultSecretPath :: string
  EncryptionSecret :: string
  EmergencyLocalAuth :: bool
  LoginRateLimit :: int
  LoginRateWindow :: int
  ReadyzRequireServer :: bool

definition envOr :: "env \<Rightarrow> string \<Rightarrow> string \<Rightarrow> string" where
  "envOr getenv key fallback = (if getenv key \<noteq> [] then getenv key else fallback)"

definition envIntOr :: "env \<Rightarrow> string \<Rightarrow> int \<Rightarrow> int" where
  "envIntOr getenv key fallback =
     (if getenv key = [] then fallback
      else case Atoi (getenv key) of (n, None) \<Rightarrow> n | (_, Some _) \<Rightarrow> fallback)"

definition Load :: "env \<Rightarrow> config" where
  "Load getenv =
     \<lparr>Listen = envOr getenv ''OVERLAY_LISTEN'' '':8080'',
      DBPath = envOr getenv ''OVERLAY_DB_PATH'' ''/data/overlay.db'',
      AuthMode = envOr getenv ''OVERLAY_AUTH_MODE'' ''local'',
      SessionSecret = envOr getenv ''OVERLAY_SESSION_SECRET'' [],
      PollInterval = envIntOr getenv ''OVERLAY_POLL_INTERVAL'' 30,
      TerminalIdleTimeout = envIntOr getenv ''OVERLAY_TERMINAL_IDLE_TIMEOUT'' 0,
      KeyStoreBackend = envOr getenv ''OVERLAY_KEYSTORE_BACKEND'' ''local'',
      LogLevel = envOr getenv ''OVERLAY_LOG_LEVEL'' ''info'',
      OIDCIssuerURL = envOr getenv ''OVERLAY_OIDC_ISSUER_URL'' [],
      OIDCClientID = envOr getenv ''OVERLAY_OIDC_CLIENT_ID'' [],
      OIDCClientSecret = envOr getenv ''OVERLAY_OIDC_CLIENT_SECRET'' [],
      OIDCRedirectURL = envOr getenv ''OVERLAY_OIDC_REDIRECT_URL'' [],
      OIDCRolesClaim = envOr getenv ''OVERLAY_OIDC_ROLES_CLAIM'' ''groups'',
      OIDCAdminGroup = envOr getenv ''OVERLAY_OIDC_ADMIN_GROUP'' ''overlay-admin'',
      VaultAddr = envOr getenv ''OVERLAY_VAULT_ADDR'' [],
      VaultToken = envOr getenv ''OVERLAY_VAULT_TOKEN'' [],
      VaultSecretPath = envOr getenv ''OVERLAY_VAULT_SECRET_PATH'' ''agentic-hive/ssh-keys'',
      EncryptionSecret = envOr getenv ''OVERLAY_ENCRYPTION_SECRET'' [],
      EmergencyLocalAuth = (envOr getenv ''OVERLAY_EMERGENCY_LOCAL_AUTH'' [] = ''true''),
      LoginRateLimit = envIntOr getenv ''OVERLAY_LOGIN_RATE_LIMIT'' 5,
      LoginRateWindow = envIntOr getenv ''OVERLAY_LOGIN_RATE_WINDOW'' 900,
      ReadyzRequireServer = (envOr getenv ''OVERLAY_READYZ_REQUIRE_SERVER'' [] = ''true'')\<rparr>"

text \<open>The three closures of \<open>ApplyDBSettings\<close>: the new value of the field.\<close>

definition applyStr :: "env \<Rightarrow> db_settings \<Rightarrow> string \<Rightarrow> string \<Rightarrow> string \<Rightarrow> string" where
  "applyStr getenv db ev dbKey field =
     (if getenv ev = [] then
        (case db dbKey of Some v \<Rightarrow> if v \<noteq> [] then v else field | None \<Rightarrow> field)
      else field)"

definition applyInt :: "env \<Rightarrow> db_settings \<Rightarrow> string \<Rightarrow> string \<Rightarrow> int \<Rightarrow> int" where
  "applyInt getenv db ev dbKey field =
     (if getenv ev = [] then
        (case db dbKey of
           Some v \<Rightarrow> if v \<noteq> [] then (case Atoi v of (n, None) \<Rightarrow> n | (_, Some _) \<Rightarrow> field) else field
         | None \<Rightarrow> field)
      else field)"

definition applyBool :: "env \<Rightarrow> db_settings \<Rightarrow> string \<Rightarrow> string \<Rightarrow> bool \<Rightarrow> bool" where
  "applyBool getenv db ev dbKey field =
     (if getenv ev = [] then
        (case db dbKey of Some v \<Rightarrow> if v \<noteq> [] then v = ''true'' else field | None \<Rightarrow> field)
      else field)"

text \<open>
  The assignments of \<open>ApplyDBSettings\<close> in their order: OIDC and Vault first, then the
  automatic choice of the key store, then the general settings.
\<close>

definition apply_oidc :: "env \<Rightarrow> db_settings \<Rightarrow> config \<Rightarrow> config" where
  "apply_oidc getenv db c = c\<lparr>
     OIDCIssuerURL := applyStr getenv db ''OVERLAY_OIDC_ISSUER_URL'' ''oidc.issuer_url'' (OIDCIssuerURL c),
     OIDCClientID := applyStr getenv db ''OVERLAY_OIDC_CLIENT_ID'' ''oidc.client_id'' (OIDCClientID c),
     OIDCClientSecret := applyStr getenv db ''OVERLAY_OIDC_CLIENT_SECRET'' ''oidc.client_secret'' (OIDCClientSecret c),
     OIDCRedirectURL := applyStr getenv db ''OVERLAY_OIDC_REDIRECT_URL'' ''oidc.redirect_url'' (OIDCRedirectURL c),
     OIDCRolesClaim := applyStr getenv db ''OVERLAY_OIDC_ROLES_CLAIM'' ''oidc.roles_claim'' (OIDCRolesClaim c),
     OIDCAdminGroup := applyStr getenv db ''OVERLAY_OIDC_ADMIN_GROUP'' ''oidc.admin_group'' (OIDCAdminGroup c)\<rparr>"

definition apply_vault :: "env \<Rightarrow> db_settings \<Rightarrow> config \<Rightarrow> config" where
  "apply_vault getenv db c = c\<lparr>
     VaultAddr := applyStr getenv db ''OVERLAY_VAULT_ADDR'' ''vault.address'' (VaultAddr c),
     VaultToken := applyStr getenv db ''OVERLAY_VAULT_TOKEN'' ''vault.token'' (VaultToken c),
     VaultSecretPath := applyStr getenv db ''OVERLAY_VAULT_SECRET_PATH'' ''vault.secret_path'' (VaultSecretPath c)\<rparr>"

definition detect_vault :: "config \<Rightarrow> config" where
  "detect_vault c =
     (if VaultAddr c \<noteq> [] \<and> VaultToken c \<noteq> [] then c\<lparr>KeyStoreBackend := ''vault''\<rparr> else c)"

definition apply_general :: "env \<Rightarrow> db_settings \<Rightarrow> config \<Rightarrow> config" where
  "apply_general getenv db c = c\<lparr>
     AuthMode := applyStr getenv db ''OVERLAY_AUTH_MODE'' ''general.auth_mode'' (AuthMode c),
     KeyStoreBackend := applyStr getenv db ''OVERLAY_KEYSTORE_BACKEND'' ''general.keystore_backend'' (KeyStoreBackend c),
     LogLevel := applyStr getenv db ''OVERLAY_LOG_LEVEL'' ''general.log_level'' (LogLevel c),
     PollInterval := applyInt getenv db ''OVERLAY_POLL_INTERVAL'' ''general.poll_interval'' (PollInterval c),
     TerminalIdleTimeout := applyInt getenv db ''OVERLAY_TERMINAL_IDLE_TIMEOUT'' ''general.terminal_idle_timeout''
       (TerminalIdleTimeout c),
     EmergencyLocalAuth := applyBool getenv db ''OVERLAY_EMERGENCY_LOCAL_AUTH'' ''general.emergency_local_auth''
       (EmergencyLocalAuth c)\<rparr>"

definition ApplyDBSettings :: "env \<Rightarrow> db_settings \<Rightarrow> config \<Rightarrow> config" where
  "ApplyDBSettings getenv db c =
     apply_general getenv db (detect_vault (apply_vault getenv db (apply_oidc getenv db c)))"

section \<open>Facts\<close>

lemmas apply_defs = ApplyDBSettings_def apply_general_def detect_vault_def apply_vault_def apply_oidc_def



lemma applyStr_keep: "getenv ev \<noteq> [] \<or> db_get db k = [] \<Longrightarrow> applyStr getenv db ev k f = f"
  by (auto simp: applyStr_def db_get_def split: option.splits)


lemma applyStr_eq:
  "applyStr getenv db ev k f = (if getenv ev = [] \<and> db_get db k \<noteq> [] then db_get db k else f)"
  by (auto simp: applyStr_def db_get_def split: option.splits)

lemma ApplyDBSettings_backend:
  "KeyStoreBackend (ApplyDBSettings getenv db (Load getenv)) =
     applyStr getenv db ''OVERLAY_KEYSTORE_BACKEND'' ''general.keystore_backend''
       (if VaultAddr (ApplyDBSettings getenv db (Load getenv)) \<noteq> [] \<and>
           VaultToken (ApplyDBSettings getenv db (Load getenv)) \<noteq> [] then ''vault''
        else envOr getenv ''OVERLAY_KEYSTORE_BACKEND'' ''local'')"
  by (simp add: apply_defs Load_def)



lemmas resolve_tables = ResolveSettings_def resolveGroup_def oidcSettings_def vaultSettings_def generalSettings_def

section \<open>Properties\<close>








text \<open>Where the secrets are.\<close>

definition secret_env :: "string set" where
  "secret_env = {''OVERLAY_OIDC_CLIENT_SECRET'', ''OVERLAY_VAULT_TOKEN''}"

definition secret_keys :: "string set" where
  "secret_keys = {''oidc.client_secret'', ''vault.token''}"

text \<open>C30. The settings page reveals nothing of a secret but whether it is set: two
  environments and databases that differ only in the values of the OIDC client secret and the
  Vault token, set in both or in neither, give the same page.\<close>

theorem secrets_not_revealed:
  assumes "\<And>v. v \<notin> secret_env \<Longrightarrow> getenv v = getenv' v" and "\<And>k. k \<notin> secret_keys \<Longrightarrow> db k = db' k"
    and "\<And>v. getenv v = [] \<longleftrightarrow> getenv' v = []" and "\<And>k. db_get db k = [] \<longleftrightarrow> db_get db' k = []"
  shows "ResolveSettings getenv db = ResolveSettings getenv' db'"
proof -
  have "resolve_setting getenv db p key def = resolve_setting getenv' db' p key def"
    if "isSecret def \<or> envVar def \<notin> secret_env \<and> p @ key \<notin> secret_keys" for p key def
  proof (cases "isSecret def")
    case True
    then show ?thesis using assms(3,4) by (simp add: resolve_setting_def Let_def)
  next
    case False
    with that assms(1,2) show ?thesis by (simp add: resolve_setting_def Let_def db_get_def)
  qed
  then show ?thesis by (simp add: resolve_tables secret_env_def secret_keys_def)
qed

theorem secrets_not_revealed_witness:
  "ResolveSettings (\<lambda>_. []) [''vault.token'' \<mapsto> ''one''] = ResolveSettings (\<lambda>_. []) [''vault.token'' \<mapsto> ''two'']"
  by (rule secrets_not_revealed) (auto simp: secret_keys_def db_get_def split: if_splits)

text \<open>Which key store the program starts with: a Vault address and token, from wherever,
  select Vault even against \<open>OVERLAY_KEYSTORE_BACKEND=local\<close>; only without that variable does
  the database's \<open>keystore_backend\<close> decide, over the Vault settings too.\<close>

lemma keystore_backend_choice:
  "let c = ApplyDBSettings getenv db (Load getenv) in KeyStoreBackend c =
    (if getenv ''OVERLAY_KEYSTORE_BACKEND'' = [] \<and> db_get db ''general.keystore_backend'' \<noteq> []
     then db_get db ''general.keystore_backend''
     else if VaultAddr c \<noteq> [] \<and> VaultToken c \<noteq> [] then ''vault''
     else envOr getenv ''OVERLAY_KEYSTORE_BACKEND'' ''local'')"
  unfolding Let_def ApplyDBSettings_backend applyStr_eq by simp

end
