(* ===== verification/Oidc.thy ===== *)
theory Oidc
  imports Auth Config
begin

text \<open>
  Login through OpenID Connect, \<open>internal/auth/oidc.go\<close>, and the handler that can be exchanged
  while the server runs, \<open>internal/auth/swappable.go\<close>.

  The OIDC and OAuth2 libraries and the provider they talk to are the record \<open>oidc_lib\<close>:
  whether discovery works for an issuer, the redirect URL, the exchange of a code for tokens
  (\<open>None\<close> for an error, \<open>Some None\<close> where the answer has no \<open>id_token\<close>) and the check of an
  ID token for an issuer and a client.
\<close>

section \<open>Libraries and state\<close>

record id_token =
  it_Subject :: string
  it_Claims :: "(string \<rightharpoonup> json) option"

record oauth_config =
  oc_Issuer :: string
  oc_ClientID :: string
  oc_ClientSecret :: string
  oc_RedirectURL :: string
  oc_Scopes :: "string list"

record oidc_lib =
  oi_discover :: "string \<Rightarrow> bool"
  oi_authurl :: "oauth_config \<Rightarrow> string \<Rightarrow> string"
  oi_exchange :: "oauth_config \<Rightarrow> string \<Rightarrow> string option option"
  oi_verify :: "string \<Rightarrow> string \<Rightarrow> string \<Rightarrow> time \<Rightarrow> id_token option"

text \<open>
  \<open>OIDCHandler\<close>. Its configuration is a pointer: to the server's own configuration for the
  handler made at startup (\<open>None\<close>), to a copy for one made by a settings update (\<open>Some\<close>).
\<close>

record oidc_handler =
  oh_secret :: string
  oh_cfg :: "config option"
  oh_oauth :: oauth_config

definition NewOIDCHandler :: "oidc_lib \<Rightarrow> config \<Rightarrow> bool \<Rightarrow> oidc_handler option" where
  "NewOIDCHandler ol cfg shared =
     (if \<not> oi_discover ol (OIDCIssuerURL cfg) then None
      else Some \<lparr>oh_secret = SessionSecret cfg, oh_cfg = (if shared then None else Some cfg),
        oh_oauth = \<lparr>oc_Issuer = OIDCIssuerURL cfg, oc_ClientID = OIDCClientID cfg,
          oc_ClientSecret = OIDCClientSecret cfg, oc_RedirectURL = OIDCRedirectURL cfg,
          oc_Scopes = [''openid'', ''profile'', ''email'']\<rparr>\<rparr>)"

definition handler_cfg :: "oidc_handler \<Rightarrow> config \<Rightarrow> config" where
  "handler_cfg h live = (case oh_cfg h of None \<Rightarrow> live | Some c \<Rightarrow> c)"

section \<open>The handlers\<close>

definition redirect :: "string \<Rightarrow> response \<Rightarrow> response" where
  "redirect url rs = rs\<lparr>rs_Code := 302, rs_Headers := rs_Headers rs @ [(''Location'', url)]\<rparr>"

definition state_cookie :: "string \<Rightarrow> cookie" where
  "state_cookie v = \<lparr>ck_Name = ''oidc_state'', ck_Value = v, ck_Path = ''/'', ck_HttpOnly = True,
     ck_Secure = True, ck_SameSite = SameSiteLax, ck_MaxAge = 300\<rparr>"

definition OIDC_HandleLogin :: "oidc_lib \<Rightarrow> oidc_handler \<Rightarrow> bytes \<Rightarrow> 's handler" where
  "OIDC_HandleLogin ol h rnd r s =
     (let state = hex_encode (take 16 rnd) in
      (redirect (oi_authurl ol (oh_oauth h) state) (add_cookie (state_cookie state) empty_response), s))"

definition claimString :: "(string \<rightharpoonup> json) \<Rightarrow> string \<Rightarrow> string" where
  "claimString cs key = (case cs key of Some (JStr v) \<Rightarrow> v | _ \<Rightarrow> [])"

fun string_items :: "json list \<Rightarrow> string list" where
  "string_items [] = []"
| "string_items (JStr v # js) = v # string_items js"
| "string_items (_ # js) = string_items js"

definition claimStringSlice :: "(string \<rightharpoonup> json) \<Rightarrow> string \<Rightarrow> string list" where
  "claimStringSlice cs key = (case cs key of Some (JArr js) \<Rightarrow> string_items js | _ \<Rightarrow> [])"

definition oidc_username :: "id_token \<Rightarrow> (string \<rightharpoonup> json) \<Rightarrow> string" where
  "oidc_username t cs =
     (let u1 = claimString cs ''preferred_username'';
          u2 = (if u1 = [] then claimString cs ''email'' else u1) in
      if u2 = [] then it_Subject t else u2)"

definition oidc_role :: "config \<Rightarrow> (string \<rightharpoonup> json) \<Rightarrow> string" where
  "oidc_role cfg cs =
     (if OIDCAdminGroup cfg \<in> set (claimStringSlice cs (OIDCRolesClaim cfg)) then RoleAdmin else RoleUser)"

definition cleared_state :: response where
  "cleared_state = add_cookie \<lparr>ck_Name = ''oidc_state'', ck_Value = [], ck_Path = ''/'', ck_HttpOnly = False,
     ck_Secure = False, ck_SameSite = SameSiteUnset, ck_MaxAge = - 1\<rparr> empty_response"

definition fail_with :: "string \<Rightarrow> int \<Rightarrow> response \<Rightarrow> response" where
  "fail_with msg code rs = rs\<lparr>rs_Code := code, rs_Body := error_body msg\<rparr>"

text \<open>The callback up to the claims of a verified token, with each of its early returns.\<close>

definition oidc_checks :: "oidc_lib \<Rightarrow> oidc_handler \<Rightarrow> draws \<Rightarrow> request \<Rightarrow> response + id_token \<times> (string \<rightharpoonup> json)" where
  "oidc_checks ol h dr r =
     (if get_cookie r ''oidc_state'' \<noteq> Some (rq_Query r ''state'') then Inl (jsonError ''invalid state'' 400)
      else let rs0 = cleared_state; code = rq_Query r ''code''; oc = oh_oauth h in
      if code = [] then Inl (fail_with ''missing code'' 400 rs0)
      else case oi_exchange ol oc code of
        None \<Rightarrow> Inl (fail_with ''token exchange failed'' 500 rs0)
      | Some None \<Rightarrow> Inl (fail_with ''no id_token in response'' 500 rs0)
      | Some (Some raw) \<Rightarrow>
          (case oi_verify ol (oc_Issuer oc) (oc_ClientID oc) raw (dr_now dr) of
             None \<Rightarrow> Inl (fail_with ''token verification failed'' 500 rs0)
           | Some t \<Rightarrow>
               (case it_Claims t of
                  None \<Rightarrow> Inl (fail_with ''failed to parse claims'' 500 rs0)
                | Some cs \<Rightarrow> Inr (t, cs))))"

definition OIDC_HandleCallback ::
  "oidc_lib \<Rightarrow> jwt_lib \<Rightarrow> config \<Rightarrow> oidc_handler \<Rightarrow> draws \<Rightarrow> ('a core_scheme) handler" where
  "OIDC_HandleCallback ol jl live h dr r s =
     (case oidc_checks ol h dr r of
        Inl rs \<Rightarrow> (rs, s)
      | Inr (t, cs) \<Rightarrow>
          (case UpsertOIDCUser (st_db s) (dr_id dr) (dr_now dr) (it_Subject t) (oidc_username t cs)
                  (oidc_role (handler_cfg h live) cs) of
             Inl _ \<Rightarrow> (fail_with ''failed to create user'' 500 cleared_state, s)
           | Inr (u, d') \<Rightarrow>
               (case issue_session jl (oh_secret h) dr u SameSiteLax cleared_state of
                  Inl rs \<Rightarrow> (rs, s\<lparr>st_db := d'\<rparr>)
                | Inr rs \<Rightarrow>
                    (redirect ''/'' rs,
                     logAuthAudit dr r AuditAuthLogin (usr_ID u) (usr_Username u) (s\<lparr>st_db := d'\<rparr>)))))"

section \<open>The exchangeable handler (swappable.go)\<close>

text \<open>Its state is the current handler; \<open>Swap\<close> replaces it.\<close>

definition Swap_HandleLogin :: "oidc_lib \<Rightarrow> oidc_handler option \<Rightarrow> bytes \<Rightarrow> 's handler" where
  "Swap_HandleLogin ol h rnd r s =
     (case h of None \<Rightarrow> (jsonError ''OIDC not configured'' 404, s) | Some h' \<Rightarrow> OIDC_HandleLogin ol h' rnd r s)"

definition Swap_HandleCallback ::
  "oidc_lib \<Rightarrow> jwt_lib \<Rightarrow> config \<Rightarrow> oidc_handler option \<Rightarrow> draws \<Rightarrow> ('a core_scheme) handler" where
  "Swap_HandleCallback ol jl live h dr r s =
     (case h of
        None \<Rightarrow> (jsonError ''OIDC not configured'' 404, s)
      | Some h' \<Rightarrow> OIDC_HandleCallback ol jl live h' dr r s)"

definition IsConfigured :: "oidc_handler option \<Rightarrow> bool" where
  "IsConfigured h \<longleftrightarrow> h \<noteq> None"

section \<open>Facts\<close>

lemma string_items_iff: "v \<in> set (string_items js) \<longleftrightarrow> JStr v \<in> set js"
  by (induction js rule: string_items.induct) auto

lemma fail_with_simps [simp]: "rs_Code (fail_with m c rs) = c" "rs_Cookies (fail_with m c rs) = rs_Cookies rs"
  by (simp_all add: fail_with_def)

lemma redirect_simps [simp]: "rs_Code (redirect u rs) = 302" "rs_Cookies (redirect u rs) = rs_Cookies rs"
  by (simp_all add: redirect_def)

lemma cleared_state_cookies [simp]: "''session'' \<notin> ck_Name ` set (rs_Cookies cleared_state)"
  by (simp add: cleared_state_def empty_response_def)

section \<open>Properties\<close>

text \<open>What the callback has checked when it gets as far as the database: the token it acts on.\<close>

definition verified_login :: "oidc_lib \<Rightarrow> oidc_handler \<Rightarrow> draws \<Rightarrow> request \<Rightarrow> id_token \<Rightarrow> (string \<rightharpoonup> json) \<Rightarrow> bool" where
  "verified_login ol h dr r t cs \<longleftrightarrow>
     get_cookie r ''oidc_state'' = Some (rq_Query r ''state'') \<and> rq_Query r ''code'' \<noteq> [] \<and> it_Claims t = Some cs \<and>
     (\<exists>raw. oi_exchange ol (oh_oauth h) (rq_Query r ''code'') = Some (Some raw) \<and>
        oi_verify ol (oc_Issuer (oh_oauth h)) (oc_ClientID (oh_oauth h)) raw (dr_now dr) = Some t)"

lemma oidc_checks_Inl:
  assumes "oidc_checks ol h dr r = Inl rs"
  shows "''session'' \<notin> ck_Name ` set (rs_Cookies rs)"
proof -
  have "rs_Cookies rs = [] \<or> rs_Cookies rs = rs_Cookies cleared_state"
    using assms by (auto simp: oidc_checks_def Let_def split: if_splits option.splits)
  then show ?thesis by (elim disjE) (simp_all only: cleared_state_cookies list.set image_empty empty_iff not_False_eq_True)
qed

lemma oidc_checks_Inr: "oidc_checks ol h dr r = Inr (t, cs) \<Longrightarrow> verified_login ol h dr r t cs"
  by (auto simp: oidc_checks_def verified_login_def Let_def split: if_splits option.splits)

lemma callback_acts:
  assumes "OIDC_HandleCallback ol jl live h dr r s = (rs, s')"
    and "st_db s' \<noteq> st_db s \<or> ''session'' \<in> ck_Name ` set (rs_Cookies rs)"
  obtains t cs u d' where "verified_login ol h dr r t cs" "users (st_db s') = users d'"
    "UpsertOIDCUser (st_db s) (dr_id dr) (dr_now dr) (it_Subject t) (oidc_username t cs)
       (oidc_role (handler_cfg h live) cs) = Inr (u, d')"
proof (cases "oidc_checks ol h dr r")
  case (Inl rs0)
  with assms oidc_checks_Inl [OF Inl] show thesis by (simp add: OIDC_HandleCallback_def)
next
  case (Inr x)
  obtain t cs where x: "x = (t, cs)" by fastforce
  let ?up = "UpsertOIDCUser (st_db s) (dr_id dr) (dr_now dr) (it_Subject t) (oidc_username t cs) (oidc_role (handler_cfg h live) cs)"
  show thesis
  proof (cases ?up)
    case (Inl e)
    with Inr x assms(1) have "s' = s" "rs_Cookies rs = rs_Cookies cleared_state"
      by (auto simp: OIDC_HandleCallback_def)
    with assms(2) show thesis by (simp only: cleared_state_cookies simp_thms)
  next
    case up: (Inr y)
    obtain u d' where y: "y = (u, d')" by fastforce
    have "users (st_db s') = users d'"
      using Inr x up y assms(1) by (auto simp: OIDC_HandleCallback_def logAuthAudit_def frame_simps split: sum.splits)
    with that oidc_checks_Inr Inr x up y show thesis by blast
  qed
qed

text \<open>C16. Only a verified ID token logs in: the OIDC callback changes the database or sets a
  session cookie only where the state of the request is that of its cookie, the code was
  exchanged and the ID token was verified for the configured issuer and client. The account is
  that of the token's subject, and it gets the admin role exactly when the configured admin
  group is a string in the array that is the configured roles claim.\<close>

theorem oidc_callback_verified:
  assumes "OIDC_HandleCallback ol jl live h dr r s = (rs, s')"
    and "st_db s' \<noteq> st_db s \<or> ''session'' \<in> ck_Name ` set (rs_Cookies rs)" and "db_inv (st_db s)"
  shows "\<exists>t cs. verified_login ol h dr r t cs \<and>
    (\<exists>u \<in> set (users (st_db s')). usr_OIDCSubject u = Some (it_Subject t) \<and> usr_Username u = oidc_username t cs \<and>
       (usr_Role u = RoleAdmin \<longleftrightarrow>
          (\<exists>js. cs (OIDCRolesClaim (handler_cfg h live)) = Some (JArr js) \<and> JStr (OIDCAdminGroup (handler_cfg h live)) \<in> set js)))"
proof -
  obtain t cs u d' where v: "verified_login ol h dr r t cs" and us: "users (st_db s') = users d'"
    and up: "UpsertOIDCUser (st_db s) (dr_id dr) (dr_now dr) (it_Subject t) (oidc_username t cs)
       (oidc_role (handler_cfg h live) cs) = Inr (u, d')"
    using callback_acts [OF assms(1,2)] .
  have role: "oidc_role c cs = RoleAdmin \<longleftrightarrow> (\<exists>js. cs (OIDCRolesClaim c) = Some (JArr js) \<and> JStr (OIDCAdminGroup c) \<in> set js)" for c
    by (cases "cs (OIDCRolesClaim c)")
       (auto simp: oidc_role_def claimStringSlice_def string_items_iff RoleAdmin_def RoleUser_def split: json.splits)
  from UpsertOIDCUser_Inr [OF up assms(3)] v us role show ?thesis by metis
qed

definition demo_oidc :: oidc_lib where
  "demo_oidc = \<lparr>oi_discover = (\<lambda>_. True), oi_authurl = (\<lambda>c st. st),
     oi_exchange = (\<lambda>c code. if code = ''c1'' then Some (Some ''raw'') else None),
     oi_verify = (\<lambda>iss cid raw now. Some \<lparr>it_Subject = ''sub9'', it_Claims = Some [''email'' \<mapsto> JStr ''m@x'',
       ''groups'' \<mapsto> JArr [JNull, JStr ''overlay-admin'']]\<rparr>)\<rparr>"

definition demo_config :: config where
  "demo_config = Load (\<lambda>k. if k = ''OVERLAY_SESSION_SECRET'' then ''k'' else [])"

definition demo_callback :: request where
  "demo_callback = (demo_request [(''oidc_state'', ''s1'')] None)\<lparr>rq_Query :=
     (\<lambda>k. if k = ''state'' then ''s1'' else if k = ''code'' then ''c1'' else [])\<rparr>"

abbreviation demo_oidc_run :: "response \<times> core" where
  "demo_oidc_run \<equiv> OIDC_HandleCallback demo_oidc demo_any_jwt demo_config
     (the (NewOIDCHandler demo_oidc demo_config True)) demo_draws demo_callback demo_core"

theorem oidc_callback_verified_witness:
  "\<exists>u \<in> set (users (st_db (snd demo_oidc_run))). usr_OIDCSubject u \<noteq> None \<and> usr_Username u \<noteq> ''ann''"
proof -
  have "length (rs_Cookies (fst demo_oidc_run)) = 3 \<and> ck_Name (rs_Cookies (fst demo_oidc_run) ! 1) = ''session''"
    by code_simp
  then have c: "''session'' \<in> ck_Name ` set (rs_Cookies (fst demo_oidc_run))"
    by (metis image_eqI less_numeral_extra(1) nth_mem numeral_3_eq_3 one_less_numeral_iff semiring_norm(77))
  have inv: "db_inv (st_db demo_core)" by (simp add: demo_core_def demo_db_inv)
  obtain t cs u where "verified_login demo_oidc (the (NewOIDCHandler demo_oidc demo_config True)) demo_draws demo_callback t cs"
      "u \<in> set (users (st_db (snd demo_oidc_run)))" "usr_OIDCSubject u = Some (it_Subject t)" "usr_Username u = oidc_username t cs"
    using oidc_callback_verified [OF prod.collapse [symmetric] disjI2 [OF c] inv] by blast
  moreover from this(1) have "oidc_username t cs = ''m@x''"
    by (auto simp: verified_login_def demo_oidc_def oidc_username_def claimString_def split: if_splits)
  ultimately show ?thesis by fastforce
qed

end
