(* ===== verification/RateLimit.thy ===== *)
theory RateLimit
  imports GoLib
begin

text \<open>
  The login rate limiter, \<open>internal/auth/ratelimit.go\<close>: the per-IP trackers of failed
  attempts, the two critical sections of \<open>Middleware\<close> around the wrapped handler,
  the cleanup loop, and the machine in which requests interleave.

  The limiter's mutex is the field \<open>rl_locked\<close>: both critical sections start from an
  unlocked limiter and, but for the one branch that panics, end with it unlocked. The
  pointer \<open>*attemptTracker\<close> of an address is the map's entry; no tracker is reachable
  in any other way once the lock is released, so the map holds the trackers' contents.
\<close>

section \<open>State and operations\<close>

type_synonym ip = string

record rate_limiter =
  trackers :: "ip \<rightharpoonup> time list"
  maxAttempts :: int
  window :: duration
  rl_locked :: bool

datatype rl_panic = NonPositiveTicker

text \<open>
  \<open>NewRateLimiter\<close> starts the cleanup goroutine, whose \<open>time.NewTicker\<close> panics on a
  window that is not positive.
\<close>

definition NewRateLimiter :: "int \<Rightarrow> int \<Rightarrow> rl_panic + rate_limiter" where
  "NewRateLimiter max_attempts windowSecs =
     (let w = wrap64 (windowSecs * 1000000000) in
      if w \<le> 0 then Inl NonPositiveTicker
      else Inr \<lparr>trackers = Map.empty, maxAttempts = max_attempts, window = w, rl_locked = False\<rparr>)"

text \<open>\<open>filterExpired\<close>: the loop that moves \<open>i\<close> past the attempts before the cutoff.\<close>

function filterExpired_from :: "nat \<Rightarrow> time list \<Rightarrow> time \<Rightarrow> nat" where
  "filterExpired_from i attempts cutoff =
     (if i < length attempts \<and> attempts ! i < cutoff
      then filterExpired_from (Suc i) attempts cutoff else i)"
  by pat_completeness auto
termination
  by (relation "measure (\<lambda>(i, attempts, cutoff). length attempts - i)") auto

declare filterExpired_from.simps [simp del]

definition filterExpired :: "time list \<Rightarrow> time \<Rightarrow> duration \<Rightarrow> time list" where
  "filterExpired attempts now w = drop (filterExpired_from 0 attempts (now - w)) attempts"

text \<open>\<open>extractIP\<close>: the host of the remote address, or the address as it is.\<close>

definition extractIP :: "string \<Rightarrow> ip" where
  "extractIP remoteAddr =
     (case SplitHostPort remoteAddr of Some (host, port) \<Rightarrow> host | None \<Rightarrow> remoteAddr)"

text \<open>
  \<open>math.Ceil(d.Seconds())\<close>. \<open>Seconds\<close> adds the whole seconds and the fraction as 64-bit floats,
  with 53 bits of precision: a sum of at least \<open>2 ^ k\<close> drops a fraction below half of its last place,
  \<open>2 ^ (k - 53)\<close>, and no fraction of whole nanoseconds lies on the border for a duration. So a
  positive fraction rounds the seconds up unless it is dropped; a negative duration is rounded
  towards zero.
\<close>

fun binary_exponent :: "nat \<Rightarrow> nat" where
  "binary_exponent n = (if n < 2 then 0 else Suc (binary_exponent (n div 2)))"

declare binary_exponent.simps [simp del]

definition ceil_seconds :: "duration \<Rightarrow> int" where
  "ceil_seconds d =
     (let sec = go_div d 1000000000; nsec = go_mod d 1000000000 in
      if 0 < nsec \<and> (sec = 0 \<or> 1000000000 < nsec * 2 ^ (53 - binary_exponent (nat sec))) then sec + 1 else sec)"

text \<open>
  The first critical section. \<open>now\<close> is the clock read for \<open>filterExpired\<close>, \<open>now'\<close> the
  later one of the \<open>Retry-After\<close> computation. \<open>attempts[0]\<close> panics on an empty slice,
  which \<open>net/http\<close> recovers for the connection, with the mutex still held.
\<close>

datatype admission = Proceed | TooManyRequests int | IndexPanic | Deadlock

definition tracker_of :: "rate_limiter \<Rightarrow> ip \<Rightarrow> time list" where
  "tracker_of rl ip = (case trackers rl ip of None \<Rightarrow> [] | Some a \<Rightarrow> a)"

definition admit :: "rate_limiter \<Rightarrow> ip \<Rightarrow> time \<Rightarrow> time \<Rightarrow> admission \<times> rate_limiter" where
  "admit rl ip now now' =
     (if rl_locked rl then (Deadlock, rl)
      else
        let attempts = filterExpired (tracker_of rl ip) now (window rl);
            rl' = rl\<lparr>trackers := (trackers rl)(ip \<mapsto> attempts)\<rparr> in
        if int (length attempts) \<ge> maxAttempts rl then
          (case attempts of
             [] \<Rightarrow> (IndexPanic, rl'\<lparr>rl_locked := True\<rparr>)
           | oldest # _ \<Rightarrow>
               let retryAfter = ceil_seconds (oldest + window rl - now') in
               (TooManyRequests (if retryAfter < 1 then 1 else retryAfter), rl'))
        else (Proceed, rl'))"

text \<open>The second critical section, with the status code the handler wrote.\<close>

definition record_outcome :: "rate_limiter \<Rightarrow> ip \<Rightarrow> int \<Rightarrow> time \<Rightarrow> rate_limiter" where
  "record_outcome rl ip code now =
     (let attempts = tracker_of rl ip in
      if code = 401 then rl\<lparr>trackers := (trackers rl)(ip \<mapsto> attempts @ [now])\<rparr>
      else if code < 400 then rl\<lparr>trackers := (trackers rl)(ip := None)\<rparr>
      else rl\<lparr>trackers := (trackers rl)(ip \<mapsto> attempts)\<rparr>)"

text \<open>One tick of \<open>cleanupLoop\<close>.\<close>

definition cleanup :: "rate_limiter \<Rightarrow> time \<Rightarrow> rate_limiter" where
  "cleanup rl now =
     rl\<lparr>trackers := (\<lambda>ip. case trackers rl ip of
          None \<Rightarrow> None
        | Some a \<Rightarrow> let a' = filterExpired a now (window rl) in if a' = [] then None else Some a')\<rparr>"

text \<open>
  \<open>Middleware\<close> without interleaving: \<open>next\<close> is the wrapped handler on the state of the
  rest of the program, answering with a status code; \<open>now\<close>, \<open>now'\<close> and \<open>later\<close> are the
  three clock readings. \<open>None\<close> is the panic or the lock that is never released.
\<close>

datatype mw_result = Answered int | Refused int

definition Middleware ::
  "('s \<Rightarrow> int \<times> 's) \<Rightarrow> ip \<Rightarrow> time \<Rightarrow> time \<Rightarrow> time \<Rightarrow> rate_limiter \<Rightarrow> 's
     \<Rightarrow> mw_result option \<times> rate_limiter \<times> 's" where
  "Middleware next ip now now' later rl s =
     (case admit rl ip now now' of
        (TooManyRequests n, rl') \<Rightarrow> (Some (Refused n), rl', s)
      | (Proceed, rl') \<Rightarrow>
          (case next s of (code, s') \<Rightarrow>
             (Some (Answered code), record_outcome rl' ip code later, s'))
      | (_, rl') \<Rightarrow> (None, rl', s))"

section \<open>filterExpired\<close>

lemma filterExpired_from_spec:
  "i \<le> length attempts \<Longrightarrow>
    drop (filterExpired_from i attempts c) attempts = dropWhile (\<lambda>t. t < c) (drop i attempts)"
proof (induction i attempts c rule: filterExpired_from.induct)
  case (1 i attempts c)
  show ?case
  proof (cases "i < length attempts \<and> attempts ! i < c")
    case True
    with 1 show ?thesis
      by (auto simp: filterExpired_from.simps [of i attempts c] Cons_nth_drop_Suc [symmetric])
  next
    case False
    then have "filterExpired_from i attempts c = i"
      by (subst filterExpired_from.simps) auto
    with False show ?thesis
      by (cases "i < length attempts") (auto simp: Cons_nth_drop_Suc [symmetric])
  qed
qed

lemma filterExpired_dropWhile:
  "filterExpired attempts now w = dropWhile (\<lambda>t. t < now - w) attempts"
  by (simp add: filterExpired_def filterExpired_from_spec)

lemma filterExpired_Nil [simp]: "filterExpired [] now w = []"
  by (simp add: filterExpired_dropWhile)

lemma filterExpired_sorted: "sorted a \<Longrightarrow> sorted (filterExpired a now w)"
  by (simp add: filterExpired_dropWhile sorted_dropWhile)

lemma filterExpired_length: "length (filterExpired a now w) \<le> length a"
  by (simp add: filterExpired_dropWhile length_dropWhile_le)

lemma filterExpired_hd: "filterExpired a now w = t # r \<Longrightarrow> now - w \<le> t"
  by (metis dropWhile_eq_Cons_conv filterExpired_dropWhile not_le)

lemma filterExpired_subset: "set (filterExpired a now w) \<subseteq> set a"
  by (auto simp: filterExpired_dropWhile dest: set_dropWhileD)

section \<open>Interleaved requests\<close>

text \<open>
  Requests of one or many addresses interleave at the granularity of the critical
  sections, with the cleanup loop and the clock. \<open>inflight\<close> counts the requests of an
  address between their two sections, at most \<open>k\<close> at a time; \<open>failures\<close> is history: the
  times of the 401 answers recorded for an address since its last success.
\<close>

record rl_machine =
  lim :: rate_limiter
  inflight :: "ip \<Rightarrow> nat"
  clock :: time
  failures :: "ip \<Rightarrow> time list"

inductive rl_step :: "nat \<Rightarrow> rl_machine \<Rightarrow> rl_machine \<Rightarrow> bool" for k where
  tick: "clock m \<le> t \<Longrightarrow> rl_step k m (m\<lparr>clock := t\<rparr>)"
| start: "admit (lim m) ip (clock m) now' = (Proceed, rl) \<Longrightarrow> inflight m ip < k \<Longrightarrow>
    rl_step k m (m\<lparr>lim := rl, inflight := (inflight m)(ip := Suc (inflight m ip))\<rparr>)"
| refuse: "admit (lim m) ip (clock m) now' = (TooManyRequests n, rl) \<Longrightarrow> rl_step k m (m\<lparr>lim := rl\<rparr>)"
| crash: "admit (lim m) ip (clock m) now' = (IndexPanic, rl) \<Longrightarrow> rl_step k m (m\<lparr>lim := rl\<rparr>)"
| finish: "inflight m ip = Suc n \<Longrightarrow> \<not> rl_locked (lim m) \<Longrightarrow>
    rl_step k m (m\<lparr>lim := record_outcome (lim m) ip code (clock m),
      inflight := (inflight m)(ip := n),
      failures := (failures m)(ip :=
        (if code = 401 then failures m ip @ [clock m]
         else if code < 400 then [] else failures m ip))\<rparr>)"
| sweep: "\<not> rl_locked (lim m) \<Longrightarrow> rl_step k m (m\<lparr>lim := cleanup (lim m) (clock m)\<rparr>)"

inductive rl_reach :: "nat \<Rightarrow> int \<Rightarrow> int \<Rightarrow> rl_machine \<Rightarrow> bool" for k mx ws where
  init: "NewRateLimiter mx ws = Inr rl \<Longrightarrow>
    rl_reach k mx ws \<lparr>lim = rl, inflight = (\<lambda>_. 0), clock = t, failures = (\<lambda>_. [])\<rparr>"
| step: "rl_reach k mx ws m \<Longrightarrow> rl_step k m m' \<Longrightarrow> rl_reach k mx ws m'"

text \<open>
  What holds of one address in every reachable state: the tracker holds the latest
  failures, everything before them has expired, and the requests in flight are paid for.
\<close>

definition spaced :: "nat \<Rightarrow> duration \<Rightarrow> time list \<Rightarrow> bool" where
  "spaced n w ts \<longleftrightarrow> (\<forall>i j. j < length ts \<longrightarrow> i + n \<le> j \<longrightarrow> ts ! i + w < ts ! j)"

definition ip_inv :: "nat \<Rightarrow> rl_machine \<Rightarrow> ip \<Rightarrow> bool" where
  "ip_inv n m ip \<longleftrightarrow>
     (\<exists>old. failures m ip = old @ tracker_of (lim m) ip \<and>
        (\<forall>t \<in> set old. t < clock m - window (lim m))) \<and>
     sorted (failures m ip) \<and> (\<forall>t \<in> set (failures m ip). t \<le> clock m) \<and>
     length (tracker_of (lim m) ip) + inflight m ip \<le> n \<and>
     spaced n (window (lim m)) (failures m ip)"

definition rl_inv :: "nat \<Rightarrow> int \<Rightarrow> int \<Rightarrow> rl_machine \<Rightarrow> bool" where
  "rl_inv k mx ws m \<longleftrightarrow>
     maxAttempts (lim m) = mx \<and> window (lim m) = wrap64 (ws * 1000000000) \<and>
     \<not> rl_locked (lim m) \<and> (\<forall>ip. ip_inv (nat mx - 1 + k) m ip)"

lemma tracker_of_upd [simp]:
  "tracker_of (rl\<lparr>trackers := tr\<rparr>) ip = (case tr ip of None \<Rightarrow> [] | Some a \<Rightarrow> a)"
  "tracker_of (rl\<lparr>rl_locked := b\<rparr>) ip = tracker_of rl ip"
  by (simp_all add: tracker_of_def)

lemma filterExpired_split:
  assumes "f = old @ a" "\<forall>t \<in> set old. t < now - w"
  shows "\<exists>old'. f = old' @ filterExpired a now w \<and> (\<forall>t \<in> set old'. t < now - w)"
proof -
  let ?P = "\<lambda>t. t < now - w"
  have "f = (old @ takeWhile ?P a) @ filterExpired a now w"
    using assms(1) by (simp add: filterExpired_dropWhile)
  moreover have "\<forall>t \<in> set (old @ takeWhile ?P a). ?P t"
    using assms(2) by (auto dest: set_takeWhileD)
  ultimately show ?thesis by blast
qed

text \<open>
  The two ways a step touches an address: its tracker is filtered (\<open>admit\<close>, \<open>cleanup\<close>),
  or the outcome of a request is recorded.
\<close>

lemma ip_inv_filter:
  assumes "ip_inv n m ip"
    and "tracker_of (lim m') ip = tracker_of (lim m) ip \<or>
         tracker_of (lim m') ip = filterExpired (tracker_of (lim m) ip) (clock m) (window (lim m))"
    and "clock m' = clock m" "failures m' ip = failures m ip" "window (lim m') = window (lim m)"
    and "inflight m' ip \<le> inflight m ip \<or>
           length (tracker_of (lim m') ip) + inflight m' ip \<le> n"
  shows "ip_inv n m' ip"
proof -
  obtain old where old: "failures m ip = old @ tracker_of (lim m) ip"
      "\<forall>t \<in> set old. t < clock m - window (lim m)"
    using assms(1) by (auto simp: ip_inv_def)
  have split: "\<exists>old'. failures m ip = old' @ tracker_of (lim m') ip \<and>
      (\<forall>t \<in> set old'. t < clock m - window (lim m))"
    using assms(2)
  proof
    assume "tracker_of (lim m') ip = tracker_of (lim m) ip"
    with old show ?thesis by (intro exI [of _ old]) simp
  next
    assume "tracker_of (lim m') ip = filterExpired (tracker_of (lim m) ip) (clock m) (window (lim m))"
    with filterExpired_split [OF old] show ?thesis by simp
  qed
  have "length (tracker_of (lim m') ip) \<le> length (tracker_of (lim m) ip)"
    using assms(2) by (auto simp: filterExpired_length)
  with assms(6) assms(1) have "length (tracker_of (lim m') ip) + inflight m' ip \<le> n"
    by (auto simp: ip_inv_def)
  with split assms show ?thesis by (simp add: ip_inv_def)
qed

lemma spaced_snoc:
  assumes "spaced n w (old @ a)" "\<forall>t \<in> set old. t + w < now" "length a < n"
  shows "spaced n w (old @ a @ [now])"
  unfolding spaced_def
proof (intro allI impI)
  fix i j
  assume j: "j < length (old @ a @ [now])" and ij: "i + n \<le> j"
  show "(old @ a @ [now]) ! i + w < (old @ a @ [now]) ! j"
  proof (cases "j < length (old @ a)")
    case True
    with ij have "(old @ a) ! i + w < (old @ a) ! j"
      using assms(1) by (simp add: spaced_def)
    moreover from True ij have "i < length (old @ a)" by simp
    ultimately show ?thesis
      using True nth_append_left [of _ "old @ a" "[now]"] by simp
  next
    case False
    with j have "j = length old + length a" by simp
    moreover from this ij assms(3) have "i < length old" by simp
    ultimately show ?thesis using assms(2) by (simp add: nth_append)
  qed
qed

lemma admit_frame:
  assumes "admit rl ip now now' = (r, rl')"
  shows "window rl' = window rl" "maxAttempts rl' = maxAttempts rl"
    and "tracker_of rl' ip' = tracker_of rl ip' \<or>
         tracker_of rl' ip' = filterExpired (tracker_of rl ip') now (window rl)"
    and "r = Proceed \<Longrightarrow> int (length (tracker_of rl' ip)) < maxAttempts rl"
    and "0 < maxAttempts rl \<Longrightarrow> r \<noteq> IndexPanic \<and> rl_locked rl' = rl_locked rl"
  using assms
  by (auto simp: admit_def Let_def tracker_of_def split: if_splits list.splits)

lemma cleanup_frame:
  "window (cleanup rl now) = window rl" "maxAttempts (cleanup rl now) = maxAttempts rl"
  "rl_locked (cleanup rl now) = rl_locked rl"
  "tracker_of (cleanup rl now) ip = filterExpired (tracker_of rl ip) now (window rl)"
  by (auto simp: cleanup_def tracker_of_def Let_def split: option.splits)

lemma record_frame:
  "window (record_outcome rl ip c now) = window rl"
  "maxAttempts (record_outcome rl ip c now) = maxAttempts rl"
  "rl_locked (record_outcome rl ip c now) = rl_locked rl"
  "ip' \<noteq> ip \<Longrightarrow> tracker_of (record_outcome rl ip c now) ip' = tracker_of rl ip'"
  "tracker_of (record_outcome rl ip c now) ip =
     (if c = 401 then tracker_of rl ip @ [now] else if c < 400 then [] else tracker_of rl ip)"
  by (auto simp: record_outcome_def tracker_of_def Let_def)

lemmas rl_frames = admit_frame(1,2) cleanup_frame record_frame(1-3)

lemma ip_inv_finish:
  assumes inv: "ip_inv n m ip" and fl: "inflight m ip = Suc j" and w: "0 < window (lim m)"
    and m': "m' = m\<lparr>lim := record_outcome (lim m) ip code (clock m),
      inflight := (inflight m)(ip := j),
      failures := (failures m)(ip :=
        (if code = 401 then failures m ip @ [clock m]
         else if code < 400 then [] else failures m ip))\<rparr>"
  shows "ip_inv n m' ip"
proof -
  obtain old where old: "failures m ip = old @ tracker_of (lim m) ip"
      "\<forall>t \<in> set old. t < clock m - window (lim m)"
    using inv by (auto simp: ip_inv_def)
  from inv fl have len: "length (tracker_of (lim m) ip) < n" by (simp add: ip_inv_def)
  consider (fail) "code = 401" | (ok) "code < 400" | (other) "code \<noteq> 401" "\<not> code < 400" by blast
  then show ?thesis
  proof cases
    case fail
    have "spaced n (window (lim m)) (old @ tracker_of (lim m) ip @ [clock m])"
      using inv old len by (intro spaced_snoc) (auto simp: ip_inv_def)
    moreover have "sorted (failures m ip @ [clock m])"
      using inv by (intro sorted_snoc) (auto simp: ip_inv_def)
    ultimately show ?thesis
      using inv old fl fail m' by (auto simp: ip_inv_def record_frame)
  next
    case ok
    then show ?thesis using inv fl m' by (auto simp: ip_inv_def record_frame spaced_def)
  next
    case other
    then show ?thesis using inv fl m' by (auto simp: ip_inv_def record_frame)
  qed
qed

lemma ip_inv_other:
  assumes "ip_inv n m ip" "tracker_of (lim m') ip = tracker_of (lim m) ip"
    "clock m \<le> clock m'" "failures m' ip = failures m ip" "inflight m' ip = inflight m ip"
    "window (lim m') = window (lim m)"
  shows "ip_inv n m' ip"
  using assms unfolding ip_inv_def by force

lemma NewRateLimiter_Inr:
  "NewRateLimiter mx ws = Inr rl \<Longrightarrow>
    maxAttempts rl = mx \<and> window rl = wrap64 (ws * 1000000000) \<and> 0 < window rl \<and>
    \<not> rl_locked rl \<and> trackers rl = Map.empty"
  by (auto simp: NewRateLimiter_def Let_def split: if_splits)

lemma rl_inv_ip: "rl_inv k mx ws m \<Longrightarrow> ip_inv (nat mx - 1 + k) m ip"
  by (simp add: rl_inv_def)

lemma rl_step_inv:
  assumes "rl_step k m m'" "rl_inv k mx ws m" "0 < mx" "0 < wrap64 (ws * 1000000000)"
  shows "rl_inv k mx ws m'"
  using assms
proof (induction rule: rl_step.induct)
  case (tick m t)
  then show ?case unfolding rl_inv_def by (auto intro: ip_inv_other)
next
  case (start m ip now' rl)
  note fr = admit_frame [OF start.hyps(1)]
  have "ip_inv (nat mx - 1 + k) (m\<lparr>lim := rl, inflight := (inflight m)(ip := Suc (inflight m ip))\<rparr>) ip'" for ip'
  proof (rule ip_inv_filter)
    show "ip_inv (nat mx - 1 + k) m ip'" using start.prems(1) by (rule rl_inv_ip)
    have "length (tracker_of rl ip) + Suc (inflight m ip) \<le> nat mx - 1 + k"
      using fr(4) start.prems(1,2) start.hyps(2) by (auto simp: rl_inv_def)
    then show "inflight (m\<lparr>lim := rl, inflight := (inflight m)(ip := Suc (inflight m ip))\<rparr>) ip' \<le> inflight m ip' \<or>
      length (tracker_of (lim (m\<lparr>lim := rl, inflight := (inflight m)(ip := Suc (inflight m ip))\<rparr>)) ip') +
      inflight (m\<lparr>lim := rl, inflight := (inflight m)(ip := Suc (inflight m ip))\<rparr>) ip' \<le> nat mx - 1 + k"
      by simp
  qed (use fr(1) fr(3) [of ip'] in simp_all)
  then show ?case using start.prems fr by (auto simp: rl_inv_def)
next
  case (refuse m ip now' n rl)
  note fr = admit_frame [OF refuse.hyps(1)]
  have "ip_inv (nat mx - 1 + k) (m\<lparr>lim := rl\<rparr>) ip'" for ip'
    by (rule ip_inv_filter [OF rl_inv_ip [OF refuse.prems(1)]]) (use fr(1) fr(3) [of ip'] in simp_all)
  then show ?case using refuse.prems fr by (auto simp: rl_inv_def)
next
  case (crash m ip now' rl)
  then show ?case using admit_frame(5) [OF crash.hyps(1)] by (auto simp: rl_inv_def)
next
  case (finish m ip n code)
  let ?m' = "m\<lparr>lim := record_outcome (lim m) ip code (clock m), inflight := (inflight m)(ip := n),
      failures := (failures m)(ip := (if code = 401 then failures m ip @ [clock m]
         else if code < 400 then [] else failures m ip))\<rparr>"
  have "ip_inv (nat mx - 1 + k) ?m' ip'" for ip'
  proof (cases "ip' = ip")
    case True
    have "ip_inv (nat mx - 1 + k) ?m' ip"
      by (rule ip_inv_finish [OF rl_inv_ip [OF finish.prems(1)] finish.hyps(1) _ refl])
         (use finish.prems in \<open>simp add: rl_inv_def\<close>)
    with True show ?thesis by simp
  next
    case False
    then show ?thesis
      by (intro ip_inv_other [OF rl_inv_ip [OF finish.prems(1)]]) (simp_all add: record_frame)
  qed
  then show ?case using finish.prems by (simp add: rl_inv_def record_frame)
next
  case (sweep m)
  have "ip_inv (nat mx - 1 + k) (m\<lparr>lim := cleanup (lim m) (clock m)\<rparr>) ip'" for ip'
    by (rule ip_inv_filter [OF rl_inv_ip [OF sweep.prems(1)]]) (simp_all add: cleanup_frame)
  then show ?case using sweep.prems by (simp add: rl_inv_def cleanup_frame)
qed

lemma rl_reach_window: "rl_reach k mx ws m \<Longrightarrow> 0 < wrap64 (ws * 1000000000)"
  by (induction rule: rl_reach.induct) (auto dest: NewRateLimiter_Inr)

lemma rl_reach_inv:
  assumes "rl_reach k mx ws m" "0 < mx"
  shows "rl_inv k mx ws m"
  using assms
proof (induction rule: rl_reach.induct)
  case (init rl t)
  then show ?case
    by (auto dest!: NewRateLimiter_Inr simp: rl_inv_def ip_inv_def tracker_of_def spaced_def)
next
  case (step m m')
  then show ?case by (blast intro: rl_step_inv rl_reach_window)
qed

section \<open>What the limiter guarantees\<close>

lemma spaced_count:
  assumes "spaced n w ts"
  shows "length (filter (\<lambda>x. t \<le> x \<and> x \<le> t + w) ts) \<le> n"
proof (rule ccontr)
  define S where "S = {i. i < length ts \<and> t \<le> ts ! i \<and> ts ! i \<le> t + w}"
  have fin: "finite S" by (simp add: S_def)
  assume "\<not> ?thesis"
  then have big: "n < card S" by (simp add: length_filter_conv_card S_def)
  then have ne: "S \<noteq> {}" by auto
  have "S \<subseteq> {Min S..Max S}" by (simp add: fin subsetI)
  then have "card S \<le> card {Min S..Max S}" by (intro card_mono) simp_all
  with big have far: "Min S + n \<le> Max S" by simp
  have mem: "Min S \<in> S" "Max S \<in> S" by (rule Min_in [OF fin ne], rule Max_in [OF fin ne])
  from mem(2) have "Max S < length ts" by (simp add: S_def)
  with assms far have "ts ! Min S + w < ts ! Max S" unfolding spaced_def by blast
  moreover from mem have "t \<le> ts ! Min S" "ts ! Max S \<le> t + w" unfolding S_def by blast+
  ultimately show False by linarith
qed

lemma reach_tracker_sorted:
  assumes "rl_reach k mx ws m" "0 < mx"
  shows "sorted (tracker_of (lim m) ip)"
  using rl_inv_ip [OF rl_reach_inv [OF assms], of ip] by (auto simp: ip_inv_def sorted_append)

text \<open>Below \<open>2 ^ 23\<close> seconds, 97 days, no fraction is dropped.\<close>

lemma binary_exponent_le: "0 < n \<Longrightarrow> 2 ^ binary_exponent n \<le> n"
proof (induction n rule: binary_exponent.induct)
  case (1 n)
  show ?case
  proof (cases "n < 2")
    case True
    with 1(2) show ?thesis by (simp add: binary_exponent.simps [of n])
  next
    case False
    with 1(1) have "2 ^ binary_exponent (n div 2) \<le> n div 2" by simp
    with False show ?thesis by (simp add: binary_exponent.simps [of n])
  qed
qed

lemma fraction_counts:
  assumes "0 < sec" and "sec < 2 ^ 23" and "0 < (nsec :: int)"
  shows "1000000000 < nsec * 2 ^ (53 - binary_exponent sec)"
proof -
  have "(2 :: nat) ^ binary_exponent sec < 2 ^ 23" using binary_exponent_le [OF assms(1)] assms(2) by simp
  then have "binary_exponent sec < 23" by (rule power_less_imp_less_exp [rotated]) simp
  then have e: "31 \<le> 53 - binary_exponent sec" by simp
  have "(1000000000 :: int) < 2 ^ 31" by simp
  also have "\<dots> \<le> 2 ^ (53 - binary_exponent sec)" using e by (rule power_increasing) simp
  also have "\<dots> \<le> nsec * 2 ^ (53 - binary_exponent sec)" using assms(3) by simp
  finally show ?thesis .
qed

lemma ceil_seconds_exact:
  assumes "d < 8388608 * 1000000000"
  shows "ceil_seconds d = - ((- d) div 1000000000)"
proof (cases "0 \<le> d")
  case True
  define sec where "sec = d div 1000000000"
  define nsec where "nsec = d mod 1000000000"
  have d: "d = sec * 1000000000 + nsec" "0 \<le> nsec" "nsec < 1000000000" "0 \<le> sec"
    using True by (simp_all add: sec_def nsec_def)
  have "sec < 8388608" using assms d by linarith
  then have "1000000000 < nsec * 2 ^ (53 - binary_exponent (nat sec))" if "0 < nsec" "sec \<noteq> 0"
    using fraction_counts [of "nat sec" nsec] that d(4) by simp
  then have "ceil_seconds d = (if 0 < nsec then sec + 1 else sec)"
    using True d(2) by (cases "0 < nsec") (auto simp: ceil_seconds_def Let_def sec_def [symmetric] nsec_def [symmetric])
  moreover have "- ((- d) div 1000000000) = (if 0 < nsec then sec + 1 else sec)"
  proof (cases "0 < nsec")
    case True
    have "(- d) div 1000000000 = - sec - 1"
      by (rule int_div_pos_eq [of _ _ _ "1000000000 - nsec"]) (use d True in auto)
    with True show ?thesis by simp
  next
    case False
    with d have "- d = (- sec) * 1000000000" by simp
    then have "(- d) div 1000000000 = - sec" by simp
    with False show ?thesis by simp
  qed
  ultimately show ?thesis by simp
next
  case False
  have "(- d) div 1000000000 * 1000000000 \<le> - d"
    using minus_mod_eq_div_mult [of "- d" 1000000000] pos_mod_sign [of 1000000000 "- d"] by linarith
  with False show ?thesis by (simp add: ceil_seconds_def Let_def go_mod_def go_div_def)
qed

lemma ceil_seconds_ge: "d < 8388608 * 1000000000 \<Longrightarrow> d \<le> ceil_seconds d * 1000000000"
  unfolding ceil_seconds_exact by (simp add: minus_div_mult_eq_mod [symmetric] algebra_simps)

lemma ceil_seconds_mono: "d \<le> d' \<Longrightarrow> d' < 8388608 * 1000000000 \<Longrightarrow> ceil_seconds d \<le> ceil_seconds d'"
  by (simp add: ceil_seconds_exact zdiv_mono1)

lemma admit_refused:
  assumes "admit rl ip now now' = (TooManyRequests n, rl')"
  obtains oldest rest where
    "filterExpired (tracker_of rl ip) now (window rl) = oldest # rest"
    "n = max 1 (ceil_seconds (oldest + window rl - now'))"
    "maxAttempts rl \<le> int (length (oldest # rest))"
    "rl' = rl\<lparr>trackers := (trackers rl)(ip \<mapsto> oldest # rest)\<rparr>" "\<not> rl_locked rl"
  using assms
  by (auto simp: admit_def Let_def max_def split: if_splits list.splits)

lemma filterExpired_oldest_gone:
  assumes "filterExpired a now w = oldest # rest" "sorted a" "oldest + w < t"
  shows "length (filterExpired a t w) \<le> length rest"
proof -
  have nt: "now \<le> t" using filterExpired_hd [OF assms(1)] assms(3) by simp
  have "filterExpired a t w = dropWhile (\<lambda>x. x < t - w) (dropWhile (\<lambda>x. x < now - w) a)"
    using nt by (subst dropWhile_dropWhile_weaker) (auto simp: filterExpired_dropWhile)
  also have "\<dots> = dropWhile (\<lambda>x. x < t - w) (oldest # rest)"
    using assms(1) by (simp add: filterExpired_dropWhile)
  also have "\<dots> = dropWhile (\<lambda>x. x < t - w) rest" using assms(3) by simp
  finally show ?thesis by (simp add: length_dropWhile_le)
qed

text \<open>
  C6. Brute force is bounded, between two successes: in every reachable state of the interleaved
  limiter, with at most \<open>k\<close> requests of an address between the two critical sections at a
  time, the 401 answers recorded for that address since its last success that fall into any
  interval of one window number at most \<open>maxAttempts - 1 + k\<close>; without concurrency, at most
  the configured maximum. A success empties the record, so that failures before and after it
  may be more together.
\<close>

theorem login_failures_bounded:
  assumes "rl_reach k mx ws m" and "0 < mx"
  shows "length (filter (\<lambda>x. t \<le> x \<and> x \<le> t + window (lim m)) (failures m ip)) \<le> nat mx - 1 + k"
proof (rule spaced_count)
  show "spaced (nat mx - 1 + k) (window (lim m)) (failures m ip)"
    using rl_inv_ip [OF rl_reach_inv [OF assms], of ip] by (simp add: ip_inv_def)
qed

definition rl_example :: rl_machine where
  "rl_example =
     \<lparr>lim = \<lparr>trackers = [''10.0.0.7'' \<mapsto> [5]], maxAttempts = 1, window = 900000000000, rl_locked = False\<rparr>,
      inflight = (\<lambda>_. 0)(''10.0.0.7'' := 0), clock = 5,
      failures = (\<lambda>_. [])(''10.0.0.7'' := [5])\<rparr>"

lemma rl_example_reach: "rl_reach 1 1 900 rl_example"
proof -
  let ?rl = "\<lparr>trackers = Map.empty, maxAttempts = 1, window = 900000000000, rl_locked = False\<rparr>"
  let ?m0 = "\<lparr>lim = ?rl, inflight = (\<lambda>_. 0), clock = 5, failures = (\<lambda>_. [])\<rparr> :: rl_machine"
  let ?rl1 = "?rl\<lparr>trackers := [''10.0.0.7'' \<mapsto> []]\<rparr>"
  let ?m1 = "?m0\<lparr>lim := ?rl1, inflight := (\<lambda>_. 0)(''10.0.0.7'' := Suc 0)\<rparr>"
  have "rl_reach 1 1 900 ?m0"
    by (rule rl_reach.init) (simp add: NewRateLimiter_def)
  moreover have "rl_step 1 ?m0 ?m1"
    using rl_step.start [of ?m0 "''10.0.0.7''" 5 ?rl1 1]
    by (simp add: admit_def tracker_of_def)
  moreover have "rl_step 1 ?m1 rl_example"
    using rl_step.finish [of ?m1 "''10.0.0.7''" 0 1 401]
    by (simp add: rl_example_def record_outcome_def tracker_of_def)
  ultimately show ?thesis by (blast intro: rl_reach.step)
qed

theorem login_failures_bounded_witness:
  "rl_reach 1 1 900 rl_example \<and> failures rl_example ''10.0.0.7'' = [5] \<and>
   length (filter (\<lambda>x. 5 \<le> x \<and> x \<le> 5 + window (lim rl_example)) (failures rl_example ''10.0.0.7'')) \<le> 1"
  using rl_example_reach login_failures_bounded [OF rl_example_reach, of 5 "''10.0.0.7''"]
  by (simp add: rl_example_def)

text \<open>
  C23. A refusal is honest and ends, where the requests of an address do not overlap, the
  maximum is positive and the window is shorter than \<open>2 ^ 23\<close> seconds: in every reachable state, a
  request refused at \<open>now'\<close> with \<open>Retry-After: n\<close> is told to wait at least one second and at
  most the window (rounded up), and if nothing happens in between, a request of the same
  address made any time after those \<open>n\<close> seconds is admitted.
\<close>

theorem retry_after_sound:
  assumes reach: "rl_reach 1 mx ws m" and mx: "0 < mx"
    and refused: "admit (lim m) ip (clock m) now' = (TooManyRequests n, rl')"
    and clk: "clock m \<le> now'" and later: "now' + n * 1000000000 < t" and short: "window (lim m) < 8388608 * 1000000000"
  shows "1 \<le> n \<and> n \<le> ceil_seconds (window (lim m)) \<and> fst (admit rl' ip t t') = Proceed"
proof -
  obtain oldest rest where adm:
    "filterExpired (tracker_of (lim m) ip) (clock m) (window (lim m)) = oldest # rest"
    "n = max 1 (ceil_seconds (oldest + window (lim m) - now'))"
    "rl' = (lim m)\<lparr>trackers := (trackers (lim m))(ip \<mapsto> oldest # rest)\<rparr>" "\<not> rl_locked (lim m)"
    using admit_refused [OF refused] by metis
  have inv: "rl_inv 1 mx ws m" by (rule rl_reach_inv [OF reach mx])
  have srt: "sorted (oldest # rest)"
    using filterExpired_sorted [OF reach_tracker_sorted [OF reach mx]] adm(1) by metis
  have w: "0 < window (lim m)" using inv rl_reach_window [OF reach] by (simp add: rl_inv_def)
  have "oldest \<in> set (tracker_of (lim m) ip)"
    using filterExpired_subset [of "tracker_of (lim m) ip"] adm(1) by (metis list.set_intros(1) subsetD)
  then have "oldest \<le> clock m" using rl_inv_ip [OF inv, of ip] by (auto simp: ip_inv_def)
  with clk have up: "ceil_seconds (oldest + window (lim m) - now') \<le> ceil_seconds (window (lim m))"
    using short by (intro ceil_seconds_mono) simp_all
  have one: "1 \<le> ceil_seconds (window (lim m))"
    using ceil_seconds_ge [OF short] w by linarith
  have "oldest + window (lim m) - now' < 8388608 * 1000000000" using \<open>oldest \<le> clock m\<close> clk short by linarith
  from ceil_seconds_ge [OF this] have gone: "oldest + window (lim m) < t" using later adm(2) by linarith
  have "length (tracker_of (lim m) ip) \<le> nat mx"
    using rl_inv_ip [OF inv, of ip] mx by (simp add: ip_inv_def)
  then have "length (oldest # rest) \<le> nat mx"
    using filterExpired_length [of "tracker_of (lim m) ip" "clock m" "window (lim m)"] adm(1) by simp
  moreover have "length (filterExpired (oldest # rest) t (window (lim m))) \<le> length rest"
    using filterExpired_oldest_gone [OF _ srt gone, of "clock m" rest] adm(1) filterExpired_hd [OF adm(1)]
    by (simp add: filterExpired_dropWhile)
  ultimately have "int (length (filterExpired (oldest # rest) t (window (lim m)))) < mx"
    by simp
  then have "fst (admit rl' ip t t') = Proceed"
    using inv adm(3,4) by (simp add: admit_def Let_def rl_inv_def)
  with up one adm(2) show ?thesis by simp
qed

theorem retry_after_sound_witness:
  "admit (lim rl_example) ''10.0.0.7'' 5 5 = (TooManyRequests 900, lim rl_example) \<and>
   fst (admit (lim rl_example) ''10.0.0.7'' 900000000006 900000000006) = Proceed"
proof -
  have adm: "admit (lim rl_example) ''10.0.0.7'' (clock rl_example) 5 = (TooManyRequests 900, lim rl_example)"
    by (simp add: admit_def rl_example_def tracker_of_def filterExpired_dropWhile ceil_seconds_exact)
  have "clock rl_example = 5" by (simp add: rl_example_def)
  moreover have "window (lim rl_example) < 8388608 * 1000000000" by (simp add: rl_example_def)
  ultimately show ?thesis using adm retry_after_sound [OF rl_example_reach _ adm, of 900000000006 900000000006] by simp
qed

text \<open>
  C24. One request through an unlocked limiter with a positive maximum, on every branch:
  with the maximum of unexpired failures on record the wrapped handler does not run and
  the limiter only forgets expired failures; otherwise the handler runs once, a 401 is
  added to the unexpired failures, a success clears the address, any other answer leaves
  the unexpired failures; other addresses never change.
\<close>

theorem Middleware_behaviour:
  assumes "\<not> rl_locked rl" and "0 < maxAttempts rl"
    and "live = filterExpired (tracker_of rl ip) now (window rl)"
    and "Middleware next ip now now' later rl s = (r, rl', s')"
  shows "\<not> rl_locked rl' \<and>
    (\<forall>ip'. ip' \<noteq> ip \<longrightarrow> tracker_of rl' ip' = tracker_of rl ip') \<and>
    (if maxAttempts rl \<le> int (length live)
     then (\<exists>n. r = Some (Refused n) \<and> 1 \<le> n) \<and> s' = s \<and> tracker_of rl' ip = live
     else r = Some (Answered (fst (next s))) \<and> s' = snd (next s) \<and>
       tracker_of rl' ip = (if fst (next s) = 401 then live @ [later]
                            else if fst (next s) < 400 then [] else live))"
  using assms
  by (auto simp: Middleware_def admit_def record_outcome_def Let_def tracker_of_def
      split: if_splits list.splits prod.splits option.splits)

theorem Middleware_behaviour_witness:
  "\<exists>r rl'. Middleware (\<lambda>n. (401, Suc n)) ''10.0.0.7'' 7 7 8
      (lim rl_example\<lparr>maxAttempts := 2\<rparr>) (0 :: nat) = (r, rl', 1) \<and>
    r = Some (Answered 401) \<and> tracker_of rl' ''10.0.0.7'' = [5, 8]"
proof -
  let ?rl = "lim rl_example\<lparr>maxAttempts := 2\<rparr>"
  obtain r rl' s' where m: "Middleware (\<lambda>n. (401, Suc n)) ''10.0.0.7'' 7 7 8 ?rl (0 :: nat) = (r, rl', s')"
    by (metis prod_cases3)
  have "\<not> rl_locked ?rl" "0 < maxAttempts ?rl"
      "[5] = filterExpired (tracker_of ?rl ''10.0.0.7'') 7 (window ?rl)"
    by (simp_all add: rl_example_def tracker_of_def filterExpired_dropWhile)
  from Middleware_behaviour [OF this m] m show ?thesis by simp
qed

text \<open>
  In every reachable state the loop of \<open>filterExpired\<close>, which stops at the first
  unexpired attempt, removes exactly the expired attempts of a tracker: attempts are
  stored in the order of their times.
\<close>

lemma filterExpired_exact:
  assumes "rl_reach k mx ws m" and "0 < mx"
  shows "filterExpired (tracker_of (lim m) ip) now w = filter (\<lambda>t. now - w \<le> t) (tracker_of (lim m) ip)"
  using reach_tracker_sorted [OF assms] by (simp add: filterExpired_dropWhile dropWhile_sorted_filter)

lemma filterExpired_example:
  "rl_reach 1 1 900 rl_example \<and> filterExpired (tracker_of (lim rl_example) ''10.0.0.7'') 20 10 = []"
  using rl_example_reach filterExpired_exact [OF rl_example_reach, of "''10.0.0.7''" 20 10]
  by (simp add: rl_example_def tracker_of_def)

text \<open>
  C25. With a maximum that is not positive (\<open>OVERLAY_LOGIN_RATE_LIMIT\<close> is not validated),
  the first request of a new limiter panics and leaves the mutex held; from then on every
  request, of any address and at any time, finds the mutex held and waits for it forever,
  without reaching the login, and nothing changes.
\<close>

theorem nonpositive_limit_locks_out:
  assumes "NewRateLimiter mx ws = Inr rl" and "mx \<le> 0"
  shows "\<exists>rl'. admit rl ip now now' = (IndexPanic, rl') \<and> rl_locked rl' \<and>
    (\<forall>ip2 t t'. admit rl' ip2 t t' = (Deadlock, rl')) \<and>
    (\<forall>ip2 t t' next later s. Middleware next ip2 t t' later rl' s = (None, rl', s))"
proof -
  have "admit rl ip now now' =
      (IndexPanic, rl\<lparr>trackers := (trackers rl)(ip \<mapsto> []), rl_locked := True\<rparr>)"
    using NewRateLimiter_Inr [OF assms(1)] assms(2) by (simp add: admit_def tracker_of_def)
  then show ?thesis by (simp add: Middleware_def admit_def)
qed

theorem nonpositive_limit_locks_out_witness:
  "\<exists>rl rl'. NewRateLimiter 0 900 = Inr rl \<and> admit rl ''10.0.0.7'' 0 0 = (IndexPanic, rl') \<and>
     admit rl' ''10.0.0.8'' 1 1 = (Deadlock, rl')"
proof -
  obtain rl where "NewRateLimiter 0 900 = Inr rl" by (simp add: NewRateLimiter_def)
  with nonpositive_limit_locks_out [OF this, of "''10.0.0.7''" 0 0] show ?thesis by auto
qed

end
