(* ===== verification/Backup.thy ===== *)
theory Backup
  imports Http
begin

text \<open>
  Backups: \<open>Run\<close> of \<open>internal/backup/backup.go\<close>, which copies the database with SQLite's
  \<open>VACUUM INTO\<close>, and the command \<open>backup\<close> of \<open>cmd/server/main.go\<close>. The file system and SQLite are
  the record \<open>file_lib\<close> on the outside world.
\<close>

datatype remove_result = Removed | NotExist | RemoveError

record 'w file_lib =
  fs_abs :: "string \<Rightarrow> string option"
  fs_temp :: "string \<Rightarrow> 'w \<Rightarrow> string option \<times> 'w"
  fs_remove :: "string \<Rightarrow> 'w \<Rightarrow> remove_result \<times> 'w"
  fs_read :: "string \<Rightarrow> 'w \<Rightarrow> bytes option"
  fs_stat :: "string \<Rightarrow> 'w \<Rightarrow> int option"
  sql_open :: "string \<Rightarrow> 'w \<Rightarrow> bool"
  sql_ping :: "string \<Rightarrow> 'w \<Rightarrow> bool"
  sql_exec :: "string \<Rightarrow> string \<Rightarrow> 'w \<Rightarrow> bool \<times> 'w"

datatype backup_error = BackupPath | BackupRemove | BackupOpen | BackupPing | BackupVacuum

definition backup_dsn :: "string \<Rightarrow> string" where
  "backup_dsn srcPath = srcPath @ ''?mode=ro&_foreign_keys=on''"

definition Backup_Run ::
  "(nat \<Rightarrow> bool) \<Rightarrow> 'w file_lib \<Rightarrow> string \<Rightarrow> string \<Rightarrow> 'w \<Rightarrow> backup_error option \<times> 'w" where
  "Backup_Run is_print fl srcPath dstPath w =
     (case fs_abs fl dstPath of
        None \<Rightarrow> (Some BackupPath, w)
      | Some dst \<Rightarrow>
          (case fs_remove fl dst w of
             (RemoveError, w1) \<Rightarrow> (Some BackupRemove, w1)
           | (_, w1) \<Rightarrow>
               if \<not> sql_open fl (backup_dsn srcPath) w1 then (Some BackupOpen, w1)
               else if \<not> sql_ping fl (backup_dsn srcPath) w1 then (Some BackupPing, w1)
               else case sql_exec fl (backup_dsn srcPath) (''VACUUM INTO '' @ fmt_q is_print dst) w1 of
                 (False, w2) \<Rightarrow> (Some BackupVacuum, w2)
               | (True, w2) \<Rightarrow> (None, w2)))"

text \<open>The command line: the status the process exits with and the file it names. \<open>output\<close> is the
  flag's value, \<open>None\<close> where the flags do not parse.\<close>

datatype backup_exit = BackupDone string int | BackupExit int

definition runBackup ::
  "(nat \<Rightarrow> bool) \<Rightarrow> 'w file_lib \<Rightarrow> string option \<Rightarrow> string \<Rightarrow> 'w \<Rightarrow> backup_exit \<times> 'w" where
  "runBackup is_print fl output dbPath w =
     (case output of
        None \<Rightarrow> (BackupExit 1, w)
      | Some out \<Rightarrow>
          if out = [] then (BackupExit 1, w)
          else case Backup_Run is_print fl dbPath out w of
            (Some _, w1) \<Rightarrow> (BackupExit 1, w1)
          | (None, w1) \<Rightarrow>
              (case fs_stat fl out w1 of None \<Rightarrow> (BackupExit 1, w1) | Some n \<Rightarrow> (BackupDone out n, w1)))"

end
