(* ===== verification/Handlers.thy ===== *)
theory Handlers
  imports Terminal Oidc RateLimit Backup
begin

text \<open>
  The HTTP handlers of \<open>internal/server/server.go\<close> and \<open>audit.go\<close>. The server's state is the
  record \<open>app\<close>, which extends the state of the components below it with the configuration, the
  OIDC handler, the login limiter and the request counters. Every handler that works on one
  server first looks it up for the calling user (\<open>with_server\<close>).

  The texts of errors, which end in messages of libraries, and of times are the record \<open>texts\<close>;
  what a handler draws or waits for is the record \<open>inputs\<close>.
\<close>

section \<open>State, libraries, inputs\<close>

record 'w app = "'w term_state" +
  app_cfg :: config
  app_oidc :: "oidc_handler option"
  app_limiter :: rate_limiter
  app_secret :: string
  app_idle :: duration
  app_start :: time
  m_http :: "(string \<times> string \<times> int \<Rightarrow> nat) option"

text \<open>\<open>app_secret\<close> and \<open>app_idle\<close> are what the routes and the terminal bridge took from the
  configuration when the server was made; later changes of it do not reach them.\<close>

text \<open>Which runes \<open>%q\<close> prints, messages of errors, and \<open>package time\<close>'s layouts.\<close>

record texts =
  tx_print :: "nat \<Rightarrow> bool"
  tx_pool :: "pool_error \<Rightarrow> string"
  tx_store :: "store_error \<Rightarrow> string"
  tx_reinit :: "string \<Rightarrow> string"
  tx_json_time :: "time \<Rightarrow> string"
  tx_list_time :: "time \<Rightarrow> string"
  tx_file_time :: "time \<Rightarrow> string"
  tx_duration :: "duration \<Rightarrow> string"
  tx_parse_time :: "string \<Rightarrow> stamp option"

record vault_health =
  vh_initialized :: bool
  vh_sealed :: bool
  vh_standby :: bool
  vh_version :: string

text \<open>\<open>al_discovery\<close> is the provider's discovery document or the error of reading it, \<open>al_health\<close>
  the answer of Vault's health check or the error of making the client or of the check. The page
  of metrics and the static files are answers of libraries, \<open>al_index\<close> is the embedded page, and
  \<open>al_nomatch\<close> what the multiplexer answers where no pattern matches (404, 405 or a redirect).\<close>

record 'w app_libs =
  al_libs :: "'w libs"
  al_term :: "'w term_lib"
  al_files :: "'w file_lib"
  al_jwt :: jwt_lib
  al_bcrypt :: bcrypt_lib
  al_oidc :: oidc_lib
  al_discovery :: "string \<Rightarrow> string + json"
  al_health :: "string \<Rightarrow> string \<Rightarrow> string + vault_health"
  al_text :: texts
  al_env :: env
  al_metrics :: response
  al_static :: "string \<Rightarrow> response"
  al_index :: "string option"
  al_nomatch :: "request \<Rightarrow> response"
  al_version :: string
  al_commit :: string

record inputs =
  in_draws :: draws
  in_end :: draws
  in_ks :: ks_rnd
  in_session :: bytes
  in_body_ok :: bool
  in_events :: "bridge_event list"
  in_order :: "(string \<times> string) list \<Rightarrow> (string \<times> string) list"
  in_keys :: "(string \<times> string) list \<Rightarrow> (string \<times> string) list"
  in_retry :: time
  in_later :: time

type_synonym ('w, 'a) endpoint = "'w app_libs \<Rightarrow> inputs \<Rightarrow> ('w, 'a) app_scheme handler"

section \<open>Encoding\<close>

definition JInt :: "int \<Rightarrow> json" where
  "JInt n = JNum (Itoa n)"

text \<open>A nil slice, which a query without rows leaves, is encoded as \<open>null\<close>.\<close>

definition json_slice :: "('b \<Rightarrow> json) \<Rightarrow> 'b list \<Rightarrow> json" where
  "json_slice f xs = (if xs = [] then JNull else JArr (map f xs))"

definition json_server :: "texts \<Rightarrow> server \<Rightarrow> json" where
  "json_server tx srv = JObj
     [(''ID'', JStr (srv_ID srv)), (''Name'', JStr (srv_Name srv)), (''Host'', JStr (srv_Host srv)),
      (''Port'', JInt (srv_Port srv)), (''SSHUser'', JStr (srv_SSHUser srv)), (''Status'', JStr (srv_Status srv)),
      (''OwnerID'', JStr (srv_OwnerID srv)), (''KeySource'', JStr (srv_KeySource srv)),
      (''VaultKeyPath'', JStr (srv_VaultKeyPath srv)), (''CreatedAt'', JStr (tx_json_time tx (srv_CreatedAt srv))),
      (''UpdatedAt'', JStr (tx_json_time tx (srv_UpdatedAt srv)))]"

definition json_session :: "tmux_session \<Rightarrow> json" where
  "json_session t = JObj
     [(''name'', JStr (ts_Name t)), (''created'', JInt (ts_Created t)), (''windows'', JInt (ts_Windows t)),
      (''attached'', JInt (ts_Attached t)), (''lastActivity'', JInt (ts_LastActivity t)), (''idle'', JStr (ts_Idle t)),
      (''sshCommand'', JStr (ts_SSHCommand t))]"

definition json_template :: "texts \<Rightarrow> session_template \<Rightarrow> json" where
  "json_template tx t = JObj
     [(''ID'', JStr (tpl_ID t)), (''Name'', JStr (tpl_Name t)), (''Command'', JStr (tpl_Command t)),
      (''Workdir'', JStr (tpl_Workdir t)),
      (''ServerID'', case tpl_ServerID t of None \<Rightarrow> JNull | Some i \<Rightarrow> JStr i),
      (''CreatedAt'', JStr (tx_json_time tx (tpl_CreatedAt t)))]"

definition json_audit :: "texts \<Rightarrow> audit_entry \<Rightarrow> json" where
  "json_audit tx e = JObj
     [(''ID'', JStr (aud_ID e)), (''Timestamp'', JStr (tx_json_time tx (aud_Timestamp e))), (''UserID'', JStr (aud_UserID e)),
      (''Username'', JStr (aud_Username e)), (''Action'', JStr (aud_Action e)), (''TargetType'', JStr (aud_TargetType e)),
      (''TargetID'', JStr (aud_TargetID e)), (''Details'', JStr (aud_Details e)), (''IPAddress'', JStr (aud_IPAddress e))]"

definition session_error_text :: "texts \<Rightarrow> session_error \<Rightarrow> string" where
  "session_error_text tx e =
     (case e of
        SGetServer se \<Rightarrow> tx_store tx se
      | SInvalidName n \<Rightarrow> ''invalid session name: '' @ n
      | SCreate host stderr pe \<Rightarrow> ''create session on '' @ host @ '': '' @ stderr @ '': '' @ tx_pool tx pe
      | SKill stderr pe \<Rightarrow> ''kill session: '' @ stderr @ '': '' @ tx_pool tx pe)"

section \<open>Audit (audit.go)\<close>

definition logAudit ::
  "draws \<Rightarrow> request \<Rightarrow> claims option \<Rightarrow> string \<Rightarrow> string \<Rightarrow> string \<Rightarrow> string \<Rightarrow> 'a core_scheme \<Rightarrow> 'a core_scheme" where
  "logAudit dr r user action targetType targetID details s =
     (let entry = empty_entry\<lparr>aud_Action := action, aud_TargetType := targetType, aud_TargetID := targetID,
            aud_Details := details, aud_IPAddress := clientIP r\<rparr>;
          entry' = (case user of
                      None \<Rightarrow> entry
                    | Some u \<Rightarrow> entry\<lparr>aud_UserID := cl_UserID u, aud_Username := cl_Username u\<rparr>) in
      write_audit dr entry' s)"

text \<open>A number of the query: absent, invalid, or a value of at least the bound.\<close>

definition query_number :: "string \<Rightarrow> int \<Rightarrow> string + int" where
  "query_number v low =
     (if v = [] then Inr 0
      else case Atoi v of (n, e) \<Rightarrow> if e \<noteq> None \<or> n < low then Inl v else Inr n)"

definition query_time :: "texts \<Rightarrow> string \<Rightarrow> string + stamp" where
  "query_time tx v =
     (if v = [] then Inr (utc zero_time) else case tx_parse_time tx v of None \<Rightarrow> Inl v | Some t \<Rightarrow> Inr t)"

definition audit_query :: "texts \<Rightarrow> request \<Rightarrow> string + audit_filter" where
  "audit_query tx r =
     (case query_time tx (rq_Query r ''since'') of
        Inl _ \<Rightarrow> Inl ''invalid since: use RFC3339''
      | Inr since \<Rightarrow>
          (case query_time tx (rq_Query r ''until'') of
             Inl _ \<Rightarrow> Inl ''invalid until: use RFC3339''
           | Inr til \<Rightarrow>
               (case query_number (rq_Query r ''limit'') 1 of
                  Inl _ \<Rightarrow> Inl ''invalid limit''
                | Inr cap \<Rightarrow>
                    (case query_number (rq_Query r ''offset'') 0 of
                       Inl _ \<Rightarrow> Inl ''invalid offset''
                     | Inr off \<Rightarrow> Inr \<lparr>flt_UserID = rq_Query r ''user_id'', flt_Action = rq_Query r ''action'',
                         flt_Since = since, flt_Until = til, flt_Limit = cap, flt_Offset = off\<rparr>))))"

definition handleListAuditLog :: "('w, 'a) endpoint" where
  "handleListAuditLog A inp r s =
     (let tx = al_text A in
      case audit_query tx r of
        Inl msg \<Rightarrow> (jsonError msg 400, s)
      | Inr flt \<Rightarrow>
          (case CountAuditLog (st_db s) flt of
             Inl _ \<Rightarrow> (jsonError ''failed to count audit log'' 500, s)
           | Inr n \<Rightarrow>
               (case ListAuditLog (st_db s) flt of
                  Inl _ \<Rightarrow> (jsonError ''failed to list audit log'' 500, s)
                | Inr es \<Rightarrow>
                    (reply 200 (JObj [(''entries'', JArr (map (json_audit tx) es)), (''total'', JInt (int n))]), s))))"

section \<open>Status and account handlers (server.go)\<close>

definition handleMe :: "('w, 'a) endpoint" where
  "handleMe A inp r s =
     (case rq_User r of
        None \<Rightarrow> (jsonError ''unauthorized'' 401, s)
      | Some u \<Rightarrow> (reply 200 (JObj [(''role'', JStr (cl_Role u)), (''username'', JStr (cl_Username u)),
          (''vault_available'', JBool (Backend s = ''vault''))]), s))"

definition round_second :: "duration \<Rightarrow> duration" where
  "round_second d = (d + 500000000) div 1000000000 * 1000000000"

definition handleAbout :: "('w, 'a) endpoint" where
  "handleAbout A inp r s =
     (reply 200 (JObj [(''commit'', JStr (al_commit A)),
        (''uptime'', JStr (tx_duration (al_text A) (round_second (dr_now (in_draws inp) - app_start s)))),
        (''version'', JStr (al_version A))]), s)"

definition handleHealthz :: "('w, 'a) endpoint" where
  "handleHealthz A inp r s = (reply 200 status_ok, s)"

definition Ping :: "db \<Rightarrow> store_error option" where
  "Ping d = (if fault d QPing then Some IOError else None)"

text \<open>The checks of \<open>handleReadyz\<close>: a text and whether it passed.\<close>

definition check_database :: "texts \<Rightarrow> db \<Rightarrow> string \<times> bool" where
  "check_database tx d = (case Ping d of Some e \<Rightarrow> (''error: '' @ tx_store tx e, False) | None \<Rightarrow> (''ok'', True))"

definition check_servers :: "texts \<Rightarrow> config \<Rightarrow> db \<Rightarrow> string \<times> bool" where
  "check_servers tx cfg d =
     (if \<not> ReadyzRequireServer cfg then (''disabled'', True)
      else case ListServers d [] of
        Inl e \<Rightarrow> (''error: '' @ tx_store tx e, False)
      | Inr srvs \<Rightarrow>
          if srvs = [] then (''ok'', True)
          else if length (filter (\<lambda>srv. srv_Status srv = StatusReachable) srvs) = 0 then (''no reachable servers'', False)
          else (''ok'', True))"

definition handleReadyz :: "('w, 'a) endpoint" where
  "handleReadyz A inp r s =
     (let (dtext, dok) = check_database (al_text A) (st_db s);
          (stext, sok) = check_servers (al_text A) (app_cfg s) (st_db s);
          checks = JObj [(''database'', JStr dtext), (''servers'', JStr stext)] in
      if dok \<and> sok then (reply 200 (JObj [(''checks'', checks), (''status'', JStr ''ok'')]), s)
      else (reply 503 (JObj [(''checks'', checks), (''status'', JStr ''fail'')]), s))"

definition handleSetupStatus :: "('w, 'a) endpoint" where
  "handleSetupStatus A inp r s =
     (reply 200 (JObj [(''needed'', JBool (SetupNeeded s)), (''oidc_available'', JBool (IsConfigured (app_oidc s)))]), s)"

section \<open>Servers (server.go)\<close>

definition handleListServers :: "('w, 'a) endpoint" where
  "handleListServers A inp r s =
     (case ListServers (st_db s) (owner_filter r) of
        Inl _ \<Rightarrow> (jsonError ''failed to list servers'' 500, s)
      | Inr srvs \<Rightarrow> (reply 200 (json_slice (json_server (al_text A)) srvs), s))"

definition createServerRequest :: "(string \<times> field_kind) list" where
  "createServerRequest = [(''name'', FString), (''host'', FString), (''port'', FInt), (''sshUser'', FString),
     (''keySource'', FString), (''vaultKeyPath'', FString)]"

text \<open>The checks of a key source: the text of the answer 400 where one fails.\<close>

definition check_key_source :: "'w app_libs \<Rightarrow> ('w, 'a) app_scheme \<Rightarrow> string \<Rightarrow> string \<Rightarrow> string option" where
  "check_key_source A s source path =
     (if source \<noteq> ''local'' \<and> source \<noteq> ''vault_ref'' then
        Some (''keySource must be '' @ [CHR 0x27] @ ''local'' @ [CHR 0x27] @ '' or '' @ [CHR 0x27] @ ''vault_ref'' @ [CHR 0x27])
      else if source \<noteq> ''vault_ref'' then None
      else if path = [] then Some ''vaultKeyPath is required when keySource is vault_ref''
      else if Contains path ''..'' \<or> HasPrefix path ''/'' then Some ''invalid vault path''
      else if Backend s \<noteq> ''vault'' then Some ''vault is not configured; cannot use vault_ref key source''
      else case KS_GetFromPath (lib_vault (al_libs A)) s path of
        Inl _ \<Rightarrow> Some ''vault path not readable or does not contain a private_key field''
      | Inr _ \<Rightarrow> None)"

definition user_id :: "request \<Rightarrow> string" where
  "user_id r = (case rq_User r of None \<Rightarrow> [] | Some u \<Rightarrow> cl_UserID u)"

definition handleCreateServer :: "('w, 'a) endpoint" where
  "handleCreateServer A inp r s =
     (let req = decode_struct createServerRequest (rq_JSON r); dr = in_draws inp; q = fmt_q (tx_print (al_text A));
          port = (if dec_int req ''port'' = 0 then 22 else dec_int req ''port'');
          source = (if dec_str req ''keySource'' = [] then ''local'' else dec_str req ''keySource'') in
      if dec_err req then (jsonError ''invalid request'' 400, s)
      else case check_key_source A s source (dec_str req ''vaultKeyPath'') of
        Some msg \<Rightarrow> (jsonError msg 400, s)
      | None \<Rightarrow>
          (case CreateServer (st_db s) (dr_id dr) (dr_now dr) (dec_str req ''name'') (dec_str req ''host'') port
                  (dec_str req ''sshUser'') (user_id r) source (dec_str req ''vaultKeyPath'') of
             Inl _ \<Rightarrow> (jsonError ''failed to create server'' 500, s)
           | Inr (srv, d') \<Rightarrow>
               (reply 201 (json_server (al_text A) srv),
                logAudit dr r (rq_User r) AuditServerCreate ''server'' (srv_ID srv)
                  (''{\"server_id\":'' @ q (srv_ID srv) @ '',\"name\":'' @ q (srv_Name srv) @ '',\"key_source\":'' @
                   q (srv_KeySource srv) @ ''}'') (s\<lparr>st_db := d'\<rparr>))))"

text \<open>The guard of every handler for one server: it must be one the user may see.\<close>

definition with_server ::
  "request \<Rightarrow> string \<Rightarrow> ('w, 'a) app_scheme \<Rightarrow> (server \<Rightarrow> response \<times> ('w, 'a) app_scheme) \<Rightarrow> response \<times> ('w, 'a) app_scheme" where
  "with_server r sid s act =
     (case GetServer (st_db s) sid (owner_filter r) of
        Inl _ \<Rightarrow> (jsonError ''server not found'' 404, s)
      | Inr srv \<Rightarrow> act srv)"

definition server_details :: "texts \<Rightarrow> string \<Rightarrow> string \<Rightarrow> string" where
  "server_details tx sid rest = ''{\"server_id\":'' @ fmt_q (tx_print tx) sid @ rest @ ''}''"

definition handleDeleteServer :: "('w, 'a) endpoint" where
  "handleDeleteServer A inp r s =
     (let sid = rq_PathValue r ''id'' in
      with_server r sid s (\<lambda>_.
        let s1 = snd (KS_Delete (lib_vault (al_libs A)) s sid);
            s2 = Pool_Remove (al_libs A) sid s1 in
        case DeleteServer (st_db s2) sid of
          Inl _ \<Rightarrow> (jsonError ''failed to delete server'' 500, s2)
        | Inr d' \<Rightarrow>
            (reply 200 status_ok,
             logAudit (in_draws inp) r (rq_User r) AuditServerDelete ''server'' sid (server_details (al_text A) sid [])
               (s2\<lparr>st_db := d'\<rparr>))))"

definition handleUploadKey :: "('w, 'a) endpoint" where
  "handleUploadKey A inp r s =
     (let sid = rq_PathValue r ''id''; dr = in_draws inp; L = al_libs A in
      with_server r sid s (\<lambda>srv.
        if srv_KeySource srv = ''vault_ref''
        then (jsonError ''cannot upload key to a vault_ref server; key is managed via Vault path'' 400, s)
        else if \<not> in_body_ok inp then (jsonError ''failed to read key'' 400, s)
        else case KS_Put (lib_crypto L) (lib_vault L) (in_ks inp) s sid (take (32 * 1024) (rq_Body r)) of
          (Some _, s1) \<Rightarrow> (jsonError ''failed to store key'' 500, s1)
        | (None, s1) \<Rightarrow>
            (case Exec L (dr_now dr) sid ''echo ok'' s1 of
               ((_, _, Some e), s2) \<Rightarrow>
                 (reply 200 (JObj [(''error'', JStr (tx_pool (al_text A) e)), (''reachable'', JBool False), (''status'', JStr ''key_saved'')]),
                  logAudit dr r (rq_User r) AuditServerKeyUpload ''server'' sid
                    (server_details (al_text A) sid '',\"reachable\":false'') (set_status (dr_now dr) sid StatusUnreachable s2))
             | ((_, _, None), s2) \<Rightarrow>
                 (reply 200 (JObj [(''reachable'', JBool True), (''status'', JStr ''ok'')]),
                  logAudit dr r (rq_User r) AuditServerKeyUpload ''server'' sid
                    (server_details (al_text A) sid '',\"reachable\":true'') (set_status (dr_now dr) sid StatusReachable s2)))))"

definition handleAcceptKey :: "('w, 'a) endpoint" where
  "handleAcceptKey A inp r s =
     (let sid = rq_PathValue r ''id'' in
      with_server r sid s (\<lambda>_.
        case DeleteHostKey (st_db s) sid of
          Inl _ \<Rightarrow> (jsonError ''failed to clear host key'' 500, s)
        | Inr d' \<Rightarrow> (reply 200 status_ok, Pool_Remove (al_libs A) sid (s\<lparr>st_db := d'\<rparr>))))"

section \<open>Sessions, templates (server.go)\<close>

definition handleListSessions :: "('w, 'a) endpoint" where
  "handleListSessions A inp r s =
     (let sid = rq_PathValue r ''id'' in
      with_server r sid s (\<lambda>srv.
        if rq_Query r ''live'' = ''true'' then
          (case ListSessions (al_libs A) (dr_now (in_draws inp)) srv s of
             (Inl _, s1) \<Rightarrow> (reply 200 (JArr (map json_session (GetSessions s1 sid))), s1)
           | (Inr live, s1) \<Rightarrow> (reply 200 (json_slice json_session live), s1))
        else (reply 200 (JArr (map json_session (GetSessions s sid))), s)))"

definition createSessionRequest :: "(string \<times> field_kind) list" where
  "createSessionRequest = [(''label'', FString), (''command'', FString), (''workdir'', FString)]"

definition session_details :: "texts \<Rightarrow> string \<Rightarrow> string \<Rightarrow> string" where
  "session_details tx sid name = server_details tx sid ('',\"session\":'' @ fmt_q (tx_print tx) name)"

definition handleCreateSession :: "('w, 'a) endpoint" where
  "handleCreateSession A inp r s =
     (let sid = rq_PathValue r ''id''; dr = in_draws inp; tx = al_text A in
      with_server r sid s (\<lambda>_.
        let req = decode_struct createSessionRequest (rq_JSON r);
            username = (case rq_User r of None \<Rightarrow> ''user'' | Some u \<Rightarrow> cl_Username u) in
        if dec_err req then (jsonError ''invalid request'' 400, s)
        else case CreateSession (al_libs A) (dr_now dr) (in_session inp) sid username (dec_str req ''label'')
                    (dec_str req ''command'') (dec_str req ''workdir'') s of
          (Inl e, s1) \<Rightarrow> (jsonError (session_error_text tx e) 500, s1)
        | (Inr name, s1) \<Rightarrow>
            (reply 201 (JObj [(''name'', JStr name)]),
             logAudit dr r (rq_User r) AuditSessionCreate ''session'' name (session_details tx sid name) s1)))"

definition handleKillSession :: "('w, 'a) endpoint" where
  "handleKillSession A inp r s =
     (let sid = rq_PathValue r ''id''; name = rq_PathValue r ''name''; dr = in_draws inp; tx = al_text A in
      with_server r sid s (\<lambda>_.
        case KillSession (al_libs A) (dr_now dr) sid name s of
          (Some e, s1) \<Rightarrow> (jsonError (session_error_text tx e) 500, s1)
        | (None, s1) \<Rightarrow>
            (reply 200 status_ok,
             logAudit dr r (rq_User r) AuditSessionKill ''session'' name (session_details tx sid name) s1)))"

definition handleListTemplates :: "('w, 'a) endpoint" where
  "handleListTemplates A inp r s =
     (case ListTemplates (st_db s) (rq_Query r ''server_id'') of
        Inl _ \<Rightarrow> (jsonError ''failed to list templates'' 500, s)
      | Inr ts \<Rightarrow> (reply 200 (json_slice (json_template (al_text A)) ts), s))"

section \<open>Administration (server.go)\<close>

definition safeUser :: "texts \<Rightarrow> user \<Rightarrow> json" where
  "safeUser tx u = JObj [(''id'', JStr (usr_ID u)), (''username'', JStr (usr_Username u)), (''role'', JStr (usr_Role u)),
     (''createdAt'', JStr (tx_list_time tx (usr_CreatedAt u)))]"

definition handleListUsers :: "('w, 'a) endpoint" where
  "handleListUsers A inp r s =
     (case ListUsers (st_db s) of
        Inl _ \<Rightarrow> (jsonError ''failed to list users'' 500, s)
      | Inr us \<Rightarrow> (reply 200 (JArr (map (safeUser (al_text A)) us)), s))"

definition handleDeleteUser :: "('w, 'a) endpoint" where
  "handleDeleteUser A inp r s =
     (let uid = rq_PathValue r ''id'' in
      if rq_User r \<noteq> None \<and> user_id r = uid then (jsonError ''cannot delete yourself'' 400, s)
      else case DeleteUser (st_db s) uid of
        Inl _ \<Rightarrow> (jsonError ''failed to delete user'' 500, s)
      | Inr d' \<Rightarrow> (reply 200 status_ok, s\<lparr>st_db := d'\<rparr>))"

definition handleGetConfig :: "('w, 'a) endpoint" where
  "handleGetConfig A inp r s =
     (reply 200 (JObj [(''authMode'', JStr (if IsConfigured (app_oidc s) then ''oidc + local fallback'' else ''local'')),
        (''keyStoreBackend'', JStr (Backend s)), (''pollInterval'', JInt (PollInterval (app_cfg s)))]), s)"

text \<open>The backup is written to a temporary file, sent, and removed in any case (the deferred call).\<close>

definition remove_file :: "'w app_libs \<Rightarrow> string \<Rightarrow> ('w, 'a) app_scheme \<Rightarrow> ('w, 'a) app_scheme" where
  "remove_file A p s = s\<lparr>world := snd (fs_remove (al_files A) p (world s))\<rparr>"

definition handleBackup :: "('w, 'a) endpoint" where
  "handleBackup A inp r s =
     (let fl = al_files A; tx = al_text A; stamp = tx_file_time tx (dr_now (in_draws inp)) in
      case fs_temp fl ''overlay-backup-*.db'' (world s) of
        (None, w1) \<Rightarrow> (jsonError ''failed to create temp file'' 500, s\<lparr>world := w1\<rparr>)
      | (Some tmp, w1) \<Rightarrow>
          (let s1 = remove_file A tmp (s\<lparr>world := w1\<rparr>) in
           case Backup_Run (tx_print tx) fl (DBPath (app_cfg s)) tmp (world s1) of
             (Some _, w2) \<Rightarrow> (jsonError ''backup failed'' 500, remove_file A tmp (s1\<lparr>world := w2\<rparr>))
           | (None, w2) \<Rightarrow>
               (let s2 = s1\<lparr>world := w2\<rparr> in
                case fs_read fl tmp w2 of
                  None \<Rightarrow> (jsonError ''failed to read backup file'' 500, remove_file A tmp s2)
                | Some dat \<Rightarrow>
                    (case fs_stat fl tmp w2 of
                       None \<Rightarrow> (jsonError ''failed to stat backup file'' 500, remove_file A tmp s2)
                     | Some n \<Rightarrow>
                         ((reply 200 (JStr dat))\<lparr>rs_Headers :=
                            [(''Content-Disposition'', ''attachment; filename='' @ fmt_q (tx_print tx) (''overlay-backup-'' @ stamp @ ''.db'')),
                             (''Content-Length'', Itoa n)]\<rparr>, remove_file A tmp s2)))))"

end
