(* ===== verification/Settings.thy ===== *)
theory Settings
  imports Handlers
begin

text \<open>
  The settings handlers, \<open>internal/server/settings.go\<close>: reading the resolved settings, saving
  settings with the re-initialisation of what they affect, and the two connection tests. Ranging
  over a Go map is ranging over a list of its entries in an order the inputs give.
\<close>

section \<open>Encoding\<close>

definition json_setting :: "setting_value \<Rightarrow> json" where
  "json_setting v = JObj ([(''value'', JStr (sv_Value v)),
     (''source'', JStr (case sv_Source v of SourceEnv \<Rightarrow> ''env'' | SourceDB \<Rightarrow> ''db'' | SourceDefault \<Rightarrow> ''default''))] @
     (if sv_IsSet v then [(''is_set'', JBool True)] else []))"

definition json_group :: "(string \<times> setting_value) list \<Rightarrow> json" where
  "json_group g = JObj (map (\<lambda>(k, v). (k, json_setting v)) (sort_key fst g))"

definition json_resolved :: "resolved_settings \<Rightarrow> json" where
  "json_resolved rs = JObj [(''oidc'', json_group (rs_OIDC rs)), (''vault'', json_group (rs_Vault rs)),
     (''general'', json_group (rs_General rs))]"

section \<open>Reading\<close>

definition handleGetSettings :: "('w, 'a) endpoint" where
  "handleGetSettings A inp r s =
     (case GetAllSettings (st_db s) of
        Inl _ \<Rightarrow> (jsonError ''failed to read settings'' 500, s)
      | Inr db \<Rightarrow> (reply 200 (json_resolved (ResolveSettings (al_env A) db)), s))"

section \<open>Re-initialisation\<close>

text \<open>Both read the settings again; where that fails they go on without any.\<close>

definition current_settings :: "db \<Rightarrow> db_settings" where
  "current_settings d = (case GetAllSettings d of Inl _ \<Rightarrow> Map.empty | Inr m \<Rightarrow> m)"

definition reinitOIDC :: "'w app_libs \<Rightarrow> ('w, 'a) app_scheme \<Rightarrow> bool \<times> ('w, 'a) app_scheme" where
  "reinitOIDC A s =
     (let cfg = ApplyDBSettings (al_env A) (current_settings (st_db s)) (app_cfg s) in
      if OIDCIssuerURL cfg = [] \<or> OIDCClientID cfg = [] then (True, s\<lparr>app_oidc := None\<rparr>)
      else case NewOIDCHandler (al_oidc A) cfg False of
        None \<Rightarrow> (False, s)
      | Some h \<Rightarrow> (True, s\<lparr>app_oidc := Some h\<rparr>))"

definition reinitVault :: "'w app_libs \<Rightarrow> ('w, 'a) app_scheme \<Rightarrow> bool \<times> ('w, 'a) app_scheme" where
  "reinitVault A s =
     (let cfg = ApplyDBSettings (al_env A) (current_settings (st_db s)) (app_cfg s) in
      if VaultAddr cfg = [] \<or> VaultToken cfg = [] then
        (True, KS_Swap (LocalKeyStore (if EncryptionSecret cfg = [] then SessionSecret cfg else EncryptionSecret cfg)) s)
      else case NewVault (lib_vault (al_libs A)) (VaultAddr cfg) (VaultToken cfg) (VaultSecretPath cfg) of
        None \<Rightarrow> (False, s)
      | Some v \<Rightarrow> (True, KS_Swap (VaultKeyStore v) s))"

section \<open>Saving\<close>

text \<open>The loop that saves the entries stops at the first error, with the key it was at.\<close>

fun save_settings :: "(string \<times> string) list \<Rightarrow> db \<Rightarrow> (string \<times> store_error) option \<times> db" where
  "save_settings [] d = (None, d)"
| "save_settings ((k, v) # kvs) d =
     (case SetSetting d k v of
        Inl e \<Rightarrow> (Some (k, e), d)
      | Inr d' \<Rightarrow> save_settings kvs d')"

text \<open>The part after the settings are saved and read again.\<close>

definition reload :: "'w app_libs \<Rightarrow> (string \<times> string) list \<Rightarrow> ('w, 'a) app_scheme \<Rightarrow> string option \<times> ('w, 'a) app_scheme" where
  "reload A updates s =
     (let oidcChanged = list_ex (\<lambda>kv. HasPrefix (fst kv) ''oidc.'') updates;
          vaultChanged = list_ex (\<lambda>kv. HasPrefix (fst kv) ''vault.'') updates;
          pollChanged = list_ex (\<lambda>kv. fst kv = ''general.poll_interval'') updates;
          (ok1, s1) = (if oidcChanged then reinitOIDC A s else (True, s)) in
      if \<not> ok1 then (Some ''OIDC'', s1)
      else let (ok2, s2) = (if vaultChanged then reinitVault A s1 else (True, s1)) in
        if \<not> ok2 then (Some ''Vault'', s2)
        else let interval = wrap64 (PollInterval (app_cfg s2) * 1000000000) in
          (None, if pollChanged \<and> interval > 0 then UpdateInterval interval s2 else s2))"



definition handleUpdateSettings :: "('w, 'a) endpoint" where
  "handleUpdateSettings A inp r s =
     (let tx = al_text A in
      case decode_string_map (rq_JSON r) of
        None \<Rightarrow> (jsonError ''invalid request body'' 400, s)
      | Some updates \<Rightarrow>
          if updates = [] then (jsonError ''no settings provided'' 400, s)
          else case save_settings (in_order inp updates) (st_db s) of
            (Some (k, e), d') \<Rightarrow>
              (jsonError (''failed to save setting '' @ fmt_q (tx_print tx) k @ '': '' @ tx_store tx e) 500, s\<lparr>st_db := d'\<rparr>)
          | (None, d') \<Rightarrow>
              (case GetAllSettings d' of
                 Inl _ \<Rightarrow> (jsonError ''failed to re-read settings'' 500, s\<lparr>st_db := d'\<rparr>)
               | Inr allSettings \<Rightarrow>
                   (let s1 = s\<lparr>st_db := d', app_cfg := ApplyDBSettings (al_env A) allSettings (app_cfg s)\<rparr> in
                    case reload A updates s1 of
                      (Some what, s2) \<Rightarrow>
                        (jsonError (''settings saved but '' @ what @ '' re-init failed: '' @ tx_reinit tx what) 502, s2)
                    | (None, s2) \<Rightarrow>
                        (reply 200 (json_resolved (ResolveSettings (al_env A) allSettings)),
                         logAudit (in_draws inp) r (rq_User r) AuditSettingsUpdate ''settings'' []
                           (''{\"keys\":'' @ fmt_q_list (tx_print tx) (map fst (in_keys inp updates)) @ ''}'') s2))))"

section \<open>Connection tests\<close>

definition failed_test :: "string \<Rightarrow> response" where
  "failed_test msg = reply 502 (JObj [(''error'', JStr msg), (''ok'', JBool False)])"

definition testOIDCRequest :: "(string \<times> field_kind) list" where
  "testOIDCRequest = [(''issuer_url'', FString), (''client_id'', FString), (''client_secret'', FString), (''redirect_url'', FString)]"

definition endpoint_fields :: "(string \<times> field_kind) list" where
  "endpoint_fields = [(''issuer'', FString), (''authorization_endpoint'', FString), (''token_endpoint'', FString),
     (''userinfo_endpoint'', FString), (''jwks_uri'', FString)]"

text \<open>The list of scopes: an element that is no string leaves an empty one.\<close>

definition scope_item :: "json \<Rightarrow> json" where
  "scope_item j = (case j of JStr v \<Rightarrow> JStr v | _ \<Rightarrow> JStr [])"

fun scopes_supported :: "json \<Rightarrow> json" where
  "scopes_supported (JObj ms) =
     fold (\<lambda>m acc. if find_field [(''scopes_supported'', FString)] (fst m) = None then acc
                   else case snd m of JArr js \<Rightarrow> JArr (map scope_item js) | JNull \<Rightarrow> JNull | _ \<Rightarrow> acc) ms JNull"
| "scopes_supported _ = JNull"

definition handleTestOIDC :: "('w, 'a) endpoint" where
  "handleTestOIDC A inp r s =
     (let req = decode_struct testOIDCRequest (rq_JSON r);
          issuer = (if dec_str req ''issuer_url'' = [] then OIDCIssuerURL (app_cfg s) else dec_str req ''issuer_url'') in
      if issuer = [] then (jsonError ''issuer_url is required'' 400, s)
      else case al_discovery A issuer of
        Inl e \<Rightarrow> (failed_test e, s)
      | Inr doc \<Rightarrow>
          (let claims = decode_struct endpoint_fields (Some doc) in
           (reply 200 (JObj [(''endpoints'', JObj (map (\<lambda>f. (fst f, JStr (dec_str claims (fst f)))) endpoint_fields @
                [(''scopes_supported'', scopes_supported doc)])),
              (''issuer'', JStr (dec_str claims ''issuer'')), (''ok'', JBool True)]), s)))"

definition testVaultRequest :: "(string \<times> field_kind) list" where
  "testVaultRequest = [(''address'', FString), (''token'', FString), (''secret_path'', FString)]"

definition handleTestVault :: "('w, 'a) endpoint" where
  "handleTestVault A inp r s =
     (let req = decode_struct testVaultRequest (rq_JSON r);
          address = (if dec_str req ''address'' = [] then VaultAddr (app_cfg s) else dec_str req ''address'');
          token = (if dec_str req ''token'' = [] then VaultToken (app_cfg s) else dec_str req ''token'') in
      if address = [] then (jsonError ''address is required'' 400, s)
      else case al_health A address token of
        Inl e \<Rightarrow> (failed_test e, s)
      | Inr h \<Rightarrow>
          (reply 200 (JObj [(''initialized'', JBool (vh_initialized h)), (''ok'', JBool True), (''sealed'', JBool (vh_sealed h)),
             (''standby'', JBool (vh_standby h)), (''version'', JStr (vh_version h))]), s))"

end
