(* ===== verification/Routes.thy ===== *)
theory Routes
  imports Settings
begin

text \<open>
  The routes and the middleware around them, \<open>routes\<close> and \<open>Handler\<close> of
  \<open>internal/server/server.go\<close>. Which pattern the multiplexer of \<open>net/http\<close> chooses for a
  request, and the path values it sets, are inputs: what is shown holds for every choice.
\<close>

section \<open>Middleware\<close>

definition security_headers :: "(string \<times> string) list" where
  "security_headers =
     (let q = [CHR 0x27] in
      [(''X-Content-Type-Options'', ''nosniff''), (''X-Frame-Options'', ''DENY''),
       (''Referrer-Policy'', ''strict-origin-when-cross-origin''),
       (''Content-Security-Policy'', ''default-src '' @ q @ ''self'' @ q @ ''; script-src '' @ q @ ''self'' @ q @ '' '' @ q @
          ''unsafe-inline'' @ q @ ''; connect-src '' @ q @ ''self'' @ q @ '' wss:; style-src '' @ q @ ''self'' @ q @ '' '' @ q @
          ''unsafe-inline'' @ q @ '' https://fonts.googleapis.com; font-src https://fonts.gstatic.com'')])"

definition securityHeaders :: "'s handler \<Rightarrow> 's handler" where
  "securityHeaders nxt r s = (case nxt r s of (rs, s') \<Rightarrow> (rs\<lparr>rs_Headers := security_headers @ rs_Headers rs\<rparr>, s'))"

text \<open>
  The request's \<open>Pattern\<close>, which the multiplexer sets, is a state of the inner handler. Status 0
  stands for a handler that panicked: there is no answer and nothing is counted.
\<close>

definition count_request :: "string \<Rightarrow> string \<Rightarrow> int \<Rightarrow> ('w, 'a) app_scheme \<Rightarrow> ('w, 'a) app_scheme" where
  "count_request meth pat code s =
     s\<lparr>m_http := map_option (\<lambda>m. m((meth, pat, code) := Suc (m (meth, pat, code)))) (m_http s)\<rparr>"

definition loggingMiddleware ::
  "(string \<times> ('w, 'a) app_scheme) handler \<Rightarrow> ('w, 'a) app_scheme handler" where
  "loggingMiddleware nxt r s =
     (case nxt r ([], s) of
        (rs, pat, s') \<Rightarrow>
          if rq_Path r = ''/metrics'' \<or> rs_Code rs = 0 then (rs, s')
          else (rs, count_request (rq_Method r) (if pat = [] then rq_Path r else pat) (rs_Code rs) s'))"

text \<open>The login limiter around a handler of the whole server (\<open>RateLimiter.Middleware\<close>).\<close>

definition rate_limited :: "inputs \<Rightarrow> ('w, 'a) app_scheme handler \<Rightarrow> ('w, 'a) app_scheme handler" where
  "rate_limited inp nxt r s =
     (let ip = extractIP (rq_RemoteAddr r) in
      case admit (app_limiter s) ip (dr_now (in_draws inp)) (in_retry inp) of
        (TooManyRequests n, rl) \<Rightarrow>
          ((jsonError ''too many requests'' 429)\<lparr>rs_Headers := [(''Retry-After'', Itoa n)]\<rparr>, s\<lparr>app_limiter := rl\<rparr>)
      | (Proceed, rl) \<Rightarrow>
          (case nxt r (s\<lparr>app_limiter := rl\<rparr>) of
             (rs, s') \<Rightarrow> (rs, s'\<lparr>app_limiter := record_outcome (app_limiter s') ip (rs_Code rs) (in_later inp)\<rparr>))
      | (_, rl) \<Rightarrow> (reply 0 JNull, s\<lparr>app_limiter := rl\<rparr>))"

section \<open>Routes\<close>

text \<open>The terminal's handler as one request: its events, ended by the end of the command.\<close>

definition closing_events :: "bridge_event list" where
  "closing_events = [CommandEnds, SshDone, ReadError, Stdout [] True False 0]"

definition terminal_route :: "('w, 'a) endpoint" where
  "terminal_route A inp r s =
     (case HandleTerminal (tx_print (al_text A)) (al_libs A) (al_term A) (app_idle s) (in_draws inp) (in_end inp)
             (in_events inp @ closing_events) r s of
        Some x \<Rightarrow> x
      | None \<Rightarrow> (reply 0 JNull, s))"

text \<open>These events end every bridge, so the second case never arises.\<close>

lemma closing_returns: "bridge_ok b \<Longrightarrow> returned (try_steps idle closing_events b)"
  by (cases "br_ssh b"; cases "br_main b"; cases "br_reader b"; cases "br_writer b")
     (auto simp: closing_events_def try_step_def bridge_ok_def returned_def bridge_defs)

lemma terminal_route_answers:
  "HandleTerminal (tx_print (al_text A)) (al_libs A) (al_term A) (app_idle s) (in_draws inp) (in_end inp)
     (in_events inp @ closing_events) r s = Some (terminal_route A inp r s)"
proof -
  let ?b = "bridge_start (app_idle s) (dr_now (in_draws inp))"
  have "bridge_ok (try_steps (app_idle s) (in_events inp) ?b)" by (rule bridge_ok_steps [OF bridge_ok_start])
  from closing_returns [OF this, of "app_idle s"] have "returned (try_steps (app_idle s) (in_events inp @ closing_events) ?b)" by simp
  with bridge_run_steps have "bridge_run (app_idle s) (in_events inp @ closing_events) ?b \<noteq> None" by blast
  from HandleTerminal_total [OF this, of "tx_print (al_text A)" "al_libs A" "al_term A" "in_end inp" r s] show ?thesis
    by (auto simp: terminal_route_def)
qed

definition index_route :: "('w, 'a) endpoint" where
  "index_route A inp r s =
     (if rq_Path r \<noteq> ''/'' then (reply 404 (JStr ''404 page not found''), s)
      else case al_index A of
        None \<Rightarrow> (reply 404 (JStr ''not found''), s)
      | Some page \<Rightarrow> (reply 200 (JStr page), s))"

text \<open>The table, with the secret that \<open>am\<close> and \<open>adminM\<close> were made with.\<close>

definition am :: "'w app_libs \<Rightarrow> inputs \<Rightarrow> ('w, 'a) endpoint \<Rightarrow> ('w, 'a) app_scheme handler" where
  "am A inp h r s = RequireAuth (al_jwt A) (app_secret s) (dr_now (in_draws inp)) (h A inp) r s"

definition adminM :: "'w app_libs \<Rightarrow> inputs \<Rightarrow> ('w, 'a) endpoint \<Rightarrow> ('w, 'a) app_scheme handler" where
  "adminM A inp h r s = RequireAdmin (al_jwt A) (app_secret s) (dr_now (in_draws inp)) (h A inp) r s"

definition public_routes :: "'w app_libs \<Rightarrow> inputs \<Rightarrow> (string \<times> ('w, 'a) app_scheme handler) list" where
  "public_routes A inp =
     (let dr = in_draws inp in
      [(''GET /metrics'', \<lambda>r s. (al_metrics A, s)),
       (''GET /healthz'', handleHealthz A inp),
       (''GET /readyz'', handleReadyz A inp),
       (''GET /api/about'', handleAbout A inp),
       (''POST /api/auth/login'', rate_limited inp (\<lambda>r s. HandleLogin (al_jwt A) (al_bcrypt A) (app_secret s) dr r s)),
       (''POST /api/auth/setup'', rate_limited inp (\<lambda>r s. HandleSetup (al_jwt A) (al_bcrypt A) (app_secret s) dr r s)),
       (''GET /api/auth/setup/status'', handleSetupStatus A inp),
       (''GET /api/auth/oidc/login'', \<lambda>r s. Swap_HandleLogin (al_oidc A) (app_oidc s) (dr_id dr) r s),
       (''GET /api/auth/oidc/callback'', \<lambda>r s. Swap_HandleCallback (al_oidc A) (al_jwt A) (app_cfg s) (app_oidc s) dr r s),
       (''GET /static/'', \<lambda>r s. (al_static A (rq_Path r), s)),
       (''GET /'', index_route A inp)])"

definition user_routes :: "(string \<times> ('w, 'a) endpoint) list" where
  "user_routes =
     [(''GET /api/me'', handleMe),
      (''POST /api/auth/logout'', \<lambda>A inp. Logout (in_draws inp)),
      (''GET /api/servers'', handleListServers),
      (''POST /api/servers'', handleCreateServer),
      (''DELETE /api/servers/{id}'', handleDeleteServer),
      (''PUT /api/servers/{id}/key'', handleUploadKey),
      (''POST /api/servers/{id}/accept-key'', handleAcceptKey),
      (''GET /api/servers/{id}/sessions'', handleListSessions),
      (''POST /api/servers/{id}/sessions'', handleCreateSession),
      (''DELETE /api/servers/{id}/sessions/{name}'', handleKillSession),
      (''GET /api/templates'', handleListTemplates),
      (''GET /ws/terminal/{server}/{session}'', terminal_route)]"

definition admin_routes :: "(string \<times> ('w, 'a) endpoint) list" where
  "admin_routes =
     [(''POST /api/admin/backup'', handleBackup),
      (''GET /api/admin/audit'', handleListAuditLog),
      (''GET /api/users'', handleListUsers),
      (''DELETE /api/users/{id}'', handleDeleteUser),
      (''GET /api/admin/config'', handleGetConfig),
      (''GET /api/admin/settings'', handleGetSettings),
      (''PUT /api/admin/settings'', handleUpdateSettings),
      (''POST /api/admin/settings/test-oidc'', handleTestOIDC),
      (''POST /api/admin/settings/test-vault'', handleTestVault)]"

definition routes :: "'w app_libs \<Rightarrow> inputs \<Rightarrow> (string \<times> ('w, 'a) app_scheme handler) list" where
  "routes A inp =
     public_routes A inp @ map (\<lambda>(p, h). (p, am A inp h)) user_routes @
     map (\<lambda>(p, h). (p, adminM A inp h)) admin_routes"

section \<open>The server's handler\<close>

definition mux :: "'w app_libs \<Rightarrow> inputs \<Rightarrow> string \<Rightarrow> (string \<times> ('w, 'a) app_scheme) handler" where
  "mux A inp choice r ps =
     (case map_of (routes A inp) choice of
        None \<Rightarrow> (al_nomatch A r, ps)
      | Some h \<Rightarrow> (case h r (snd ps) of (rs, s') \<Rightarrow> (rs, choice, s')))"

definition csrf_exempt :: "string list" where
  "csrf_exempt = [''/api/auth/login'', ''/api/auth/setup'', ''/api/auth/oidc/callback'', ''/api/auth/oidc/login'',
     ''/healthz'', ''/readyz'', ''/metrics'']"

definition Handler ::
  "'w app_libs \<Rightarrow> inputs \<Rightarrow> string \<Rightarrow> ('w, 'a) app_scheme handler" where
  "Handler A inp choice =
     loggingMiddleware (securityHeaders (CSRFProtect csrf_exempt (mux A inp choice)))"

section \<open>A server for the witnesses\<close>

definition demo_texts :: texts where
  "demo_texts = \<lparr>tx_print = (\<lambda>_. True), tx_pool = (\<lambda>_. ''ssh''), tx_store = (\<lambda>_. ''sql''), tx_reinit = (\<lambda>_. ''e''),
     tx_json_time = Itoa, tx_list_time = Itoa, tx_file_time = Itoa, tx_duration = Itoa, tx_parse_time = (\<lambda>_. None)\<rparr>"

definition demo_files :: "demo_net file_lib" where
  "demo_files = \<lparr>fs_abs = Some, fs_temp = (\<lambda>p w. (Some p, w)), fs_remove = (\<lambda>p w. (NotExist, w)), fs_read = (\<lambda>p w. None),
     fs_stat = (\<lambda>p w. None), sql_open = (\<lambda>p w. True), sql_ping = (\<lambda>p w. True), sql_exec = (\<lambda>p q w. (True, w))\<rparr>"

definition demo_A :: "demo_net app_libs" where
  "demo_A = \<lparr>al_libs = demo_libs, al_term = demo_tm, al_files = demo_files, al_jwt = demo_jwt, al_bcrypt = demo_bcrypt,
     al_oidc = demo_oidc, al_discovery = (\<lambda>_. Inl ''e''), al_health = (\<lambda>_ _. Inl ''e''), al_text = demo_texts,
     al_env = (\<lambda>_. []), al_metrics = reply 200 JNull, al_static = (\<lambda>_. reply 404 JNull), al_index = None,
     al_nomatch = (\<lambda>_. reply 404 JNull), al_version = ''dev'', al_commit = ''unknown''\<rparr>"

definition demo_inputs :: inputs where
  "demo_inputs = \<lparr>in_draws = demo_at 5, in_end = demo_at 6, in_ks = demo_rnd, in_session = ''abc'', in_body_ok = True,
     in_events = [], in_order = (\<lambda>x. x), in_keys = (\<lambda>x. x), in_retry = 5, in_later = 6\<rparr>"

definition demo_app :: "demo_net app" where
  "demo_app = term_state.extend demo_term
     \<lparr>app_cfg = Load (\<lambda>_. []), app_oidc = None,
      app_limiter = \<lparr>trackers = Map.empty, maxAttempts = 5, window = 1000000000, rl_locked = False\<rparr>,
      app_secret = ''k'', app_idle = 0, app_start = 0, m_http = None\<rparr>"

lemma demo_app_simps:
  "st_db demo_app = st_db (demo_pool ''k'')" "conns demo_app = Map.empty" "m_ssh_conns demo_app = Some 0" "app_secret demo_app = ''k''"
  "ks_inner demo_app = LocalKeyStore ''x''" "world demo_app = world (demo_pool ''k'')" "app_cfg demo_app = Load (\<lambda>_. [])"
  "sm_sessions demo_app = Map.empty"
  by (simp_all add: demo_app_def term_state.defs demo_term_def mgr_state.defs demo_mgr_def pool_state.defs demo_pool_def)

end
