(* ===== verification/Invariants.thy ===== *)
theory Invariants
  imports Routes
begin

text \<open>
  What every request keeps. The handlers change the server's state only through a few operations
  of the components; the locale \<open>app_invariant\<close> lists them, and an invariant that each of them
  keeps is kept by every request on every route. The locale \<open>db_invariant\<close> is the special case of
  an invariant of the database. The instances are the schema, the types of the rows, and the
  gauge of SSH connections.
\<close>

section \<open>The interface\<close>

abbreviation roles :: "string set" where
  "roles \<equiv> {RoleAdmin, RoleUser}"

abbreviation statuses :: "string set" where
  "statuses \<equiv> {StatusUnknown, StatusReachable, StatusUnreachable, StatusKeyMismatch}"

text \<open>The fields that no invariant below speaks about.\<close>

definition same_core :: "('w, 'a) app_scheme \<Rightarrow> ('w, 'a) app_scheme \<Rightarrow> bool" where
  "same_core s s' \<longleftrightarrow> st_db s' = st_db s \<and> conns s' = conns s \<and> m_ssh_conns s' = m_ssh_conns s"

locale app_invariant =
  fixes A :: "'w app_libs" and I :: "('w, 'a) app_scheme \<Rightarrow> bool"
  assumes pool: "pool_invariant (al_libs A) I"
    and other: "I s \<Longrightarrow> same_core s s' \<Longrightarrow> I s'"
    and audit: "I s \<Longrightarrow> I (write_audit dr e s)"
    and create_user: "I s \<Longrightarrow> CreateUser (st_db s) rnd now n h RoleAdmin = Inr (u, d') \<Longrightarrow> I (s\<lparr>st_db := d'\<rparr>)"
    and upsert_user: "I s \<Longrightarrow> UpsertOIDCUser (st_db s) rnd now sub n role = Inr (u, d') \<Longrightarrow> role \<in> roles \<Longrightarrow> I (s\<lparr>st_db := d'\<rparr>)"
    and delete_user: "I s \<Longrightarrow> DeleteUser (st_db s) uid = Inr d' \<Longrightarrow> I (s\<lparr>st_db := d'\<rparr>)"
    and create_server: "I s \<Longrightarrow> CreateServer (st_db s) rnd now n host port login own source path = Inr (srv, d') \<Longrightarrow>
        check_key_source A s source path = None \<Longrightarrow> I (s\<lparr>st_db := d'\<rparr>)"
    and delete_server: "I s \<Longrightarrow> DeleteServer (st_db s) sid = Inr d' \<Longrightarrow> I (s\<lparr>st_db := d'\<rparr>)"
    and delete_host_key: "I s \<Longrightarrow> DeleteHostKey (st_db s) sid = Inr d' \<Longrightarrow> I (s\<lparr>st_db := d'\<rparr>)"
    and set_status: "I s \<Longrightarrow> st \<in> statuses \<Longrightarrow> I (set_status now sid st s)"
    and set_setting: "I s \<Longrightarrow> SetSetting (st_db s) k v = Inr d' \<Longrightarrow> I (s\<lparr>st_db := d'\<rparr>)"
    and put_key: "I s \<Longrightarrow> I (snd (KS_Put cl vl kr s sid key))"
    and delete_key: "I s \<Longrightarrow> I (snd (KS_Delete vl s sid))"
begin

subsection \<open>Building blocks\<close>

lemma logAudit: "I s \<Longrightarrow> I (logAudit dr r u a tt ti det s)"
  by (simp add: logAudit_def Let_def audit)

lemma logAuthAudit: "I s \<Longrightarrow> I (logAuthAudit dr r a u n s)"
  by (simp add: logAuthAudit_def audit)

lemma count_failure: "I s \<Longrightarrow> I (count_auth_failure reason s)"
  by (rule other) (auto simp: same_core_def count_auth_failure_def)

lemma limiter: "I s \<Longrightarrow> I (s\<lparr>app_limiter := rl\<rparr>)"
  by (rule other) (auto simp: same_core_def)

lemma oidc_swap: "I s \<Longrightarrow> I (s\<lparr>app_oidc := h\<rparr>)"
  by (rule other) (auto simp: same_core_def)

lemma config: "I s \<Longrightarrow> I (s\<lparr>app_cfg := c\<rparr>)"
  by (rule other) (auto simp: same_core_def)

lemma ks_swap: "I s \<Longrightarrow> I (KS_Swap ks s)"
  by (rule other) (auto simp: same_core_def KS_Swap_def)

lemma interval: "I s \<Longrightarrow> I (UpdateInterval d s)"
  by (rule other) (auto simp: same_core_def UpdateInterval_def)

lemma gauge: "I s \<Longrightarrow> I (ws_gauge n s)"
  by (rule other) (auto simp: same_core_def ws_gauge_def)

lemma world: "I s \<Longrightarrow> I (s\<lparr>world := w\<rparr>)"
  by (rule other) (auto simp: same_core_def)

lemma request_count: "I s \<Longrightarrow> I (count_request m p c s)"
  by (rule other) (auto simp: same_core_def count_request_def)

lemmas exec = pool_invariant.exec [OF pool]
lemmas session = pool_invariant.session [OF pool]
lemmas remove = pool_invariant.remove [OF pool]

lemma list_sessions: "I s \<Longrightarrow> I (snd (ListSessions (al_libs A) now srv s))"
  using exec [of s now "srv_ID srv" list_command] by (auto simp: ListSessions_def split: prod.splits option.splits)

lemma create_session: "I s \<Longrightarrow> I (snd (CreateSession (al_libs A) now rnd sid u l c w s))"
  using exec [of s now sid]
  by (auto simp: CreateSession_def Let_def split: prod.splits option.splits sum.splits) (metis snd_conv)+

lemma kill_session: "I s \<Longrightarrow> I (snd (KillSession (al_libs A) now sid n s))"
  using exec [of s now sid "kill_command n"] by (auto simp: KillSession_def split: prod.splits option.splits)

lemma with_server: "I s \<Longrightarrow> (\<And>srv. I (snd (act srv))) \<Longrightarrow> I (snd (with_server r sid s act))"
  by (simp add: with_server_def split: sum.splits)

lemma guard_cases:
  "(\<exists>c. am A inp h r s = h A inp (SetUser r c) s) \<or> (\<exists>rs s'. am A inp h r s = (rs, s') \<and> same_core s s' \<and> rs_Code rs = 401)"
  "(\<exists>c. adminM A inp h r s = h A inp (SetUser r c) s) \<or> (\<exists>rs s'. adminM A inp h r s = (rs, s') \<and> same_core s s')"
  by (auto simp: am_def adminM_def RequireAuth_def RequireAdmin_def same_core_def count_auth_failure_def
      split: option.splits sum.splits)

subsection \<open>The handlers\<close>

lemma delete_server_handler: "I s \<Longrightarrow> I (snd (handleDeleteServer A inp r s))"
proof -
  assume I: "I s"
  let ?sid = "rq_PathValue r ''id''"
  let ?s2 = "Pool_Remove (al_libs A) ?sid (snd (KS_Delete (lib_vault (al_libs A)) s ?sid))"
  have I2: "I ?s2" by (intro remove delete_key I)
  show ?thesis
    using I I2 delete_server [OF I2]
    by (auto simp: handleDeleteServer_def Let_def intro!: with_server logAudit split: sum.splits)
qed

lemma upload_key_handler: "I s \<Longrightarrow> I (snd (handleUploadKey A inp r s))"
proof -
  assume I: "I s"
  let ?sid = "rq_PathValue r ''id''" and ?L = "al_libs A"
  obtain e s1 where put: "KS_Put (lib_crypto ?L) (lib_vault ?L) (in_ks inp) s ?sid (take (32 * 1024) (rq_Body r)) = (e, s1)"
    by fastforce
  with put_key [OF I] have I1: "I s1" by (metis snd_conv)
  obtain out err eo s2 where ex: "Exec ?L (dr_now (in_draws inp)) ?sid ''echo ok'' s1 = ((out, err, eo), s2)"
    by (metis prod_cases3 surj_pair)
  with exec [OF I1] have I2: "I s2" by (metis snd_conv)
  show ?thesis
    using I I1 I2 put ex
    by (auto simp: handleUploadKey_def Let_def intro!: with_server logAudit set_status split: option.splits)
qed

lemma accept_key_handler: "I s \<Longrightarrow> I (snd (handleAcceptKey A inp r s))"
  using delete_host_key
  by (auto simp: handleAcceptKey_def Let_def intro!: with_server remove split: sum.splits)

lemma list_sessions_handler: "I s \<Longrightarrow> I (snd (handleListSessions A inp r s))"
  using list_sessions
  by (auto simp: handleListSessions_def Let_def intro!: with_server split: sum.splits prod.splits) (metis snd_conv)+

lemma create_session_handler: "I s \<Longrightarrow> I (snd (handleCreateSession A inp r s))"
  using create_session
  by (auto simp: handleCreateSession_def Let_def intro!: with_server logAudit split: sum.splits prod.splits) (metis snd_conv)+

lemma kill_session_handler: "I s \<Longrightarrow> I (snd (handleKillSession A inp r s))"
  using kill_session
  by (auto simp: handleKillSession_def Let_def intro!: with_server logAudit split: option.splits prod.splits) (metis snd_conv)+

lemma create_server_handler: "I s \<Longrightarrow> I (snd (handleCreateServer A inp r s))"
  using create_server
  by (auto simp: handleCreateServer_def Let_def intro!: logAudit split: option.splits sum.splits prod.splits)

lemma delete_user_handler: "I s \<Longrightarrow> I (snd (handleDeleteUser A inp r s))"
  using delete_user by (auto simp: handleDeleteUser_def Let_def split: sum.splits)

lemma backup_handler: "I s \<Longrightarrow> I (snd (handleBackup A inp r s))"
  by (auto simp: handleBackup_def Let_def remove_file_def world split: option.splits prod.splits)

lemma save_settings: "I s \<Longrightarrow> I (s\<lparr>st_db := snd (save_settings kvs (st_db s))\<rparr>)"
proof (induction kvs arbitrary: s)
  case (Cons kv kvs)
  obtain k v where kv: "kv = (k, v)" by fastforce
  show ?case
  proof (cases "SetSetting (st_db s) k v")
    case (Inr d')
    from Cons.IH [OF set_setting [OF Cons.prems Inr]] show ?thesis by (simp add: kv Inr)
  qed (use Cons.prems in \<open>simp add: kv\<close>)
qed simp

lemma reload: "I s \<Longrightarrow> I (snd (reload A updates s))"
proof -
  have o: "I s \<Longrightarrow> I (snd (reinitOIDC A s))" for s
    by (auto simp: reinitOIDC_def Let_def oidc_swap split: option.splits)
  have v: "I s \<Longrightarrow> I (snd (reinitVault A s))" for s
    by (auto simp: reinitVault_def Let_def ks_swap split: option.splits)
  assume I: "I s"
  obtain ok1 s1 where e1: "(if list_ex (\<lambda>kv. HasPrefix (fst kv) ''oidc.'') updates then reinitOIDC A s else (True, s)) = (ok1, s1)"
    by fastforce
  obtain ok2 s2 where e2: "(if list_ex (\<lambda>kv. HasPrefix (fst kv) ''vault.'') updates then reinitVault A s1 else (True, s1)) = (ok2, s2)"
    by fastforce
  have I1: "I s1" using I o [OF I] e1 by (simp split: if_splits)
  have I2: "I s2" using I1 v [OF I1] e2 by (simp split: if_splits)
  show ?thesis by (simp add: reload_def Let_def e1 e2 I1 I2 interval)
qed

lemma update_settings_handler: "I s \<Longrightarrow> I (snd (handleUpdateSettings A inp r s))"
proof (cases "decode_string_map (rq_JSON r)")
  case (Some updates)
  assume I: "I s"
  obtain e d' where sv: "save_settings (in_order inp updates) (st_db s) = (e, d')" by fastforce
  with save_settings [OF I, of "in_order inp updates"] have I1: "I (s\<lparr>st_db := d'\<rparr>)" by simp
  have I2: "I (snd (reload A updates (s\<lparr>st_db := d', app_cfg := c\<rparr>)))" for c
    by (rule reload [OF config [OF I1]])
  show ?thesis
    using Some I I1 I2 sv
    by (auto simp: handleUpdateSettings_def Let_def intro!: logAudit split: option.splits sum.splits prod.splits)
       (metis snd_conv)+
qed (simp add: handleUpdateSettings_def)

text \<open>The terminal.\<close>

lemma outside_inv: "outside f s = (x, s') \<Longrightarrow> I s \<Longrightarrow> I s'"
  by (auto simp: outside_def world split: prod.splits)

lemma Bridge_logAudit: "I s \<Longrightarrow> I (Bridge_logAudit dr r a tt ti d s)"
  by (simp add: Bridge_logAudit_def Let_def audit)

lemma send_out: "I s \<Longrightarrow> I (send_out tm es s)"
  by (simp add: send_out_def world)

lemma terminal_session:
  assumes "I s" and "terminal_session (al_libs A) tm idle now evs sid name rws cls s = Some s'"
  shows "I s'"
proof -
  obtain x s1 where p: "Pool_Session (al_libs A) now sid s = (x, s1)" by fastforce
  with session [OF assms(1)] have "I s1" by (metis snd_conv)
  with assms(2) p show ?thesis
    by (auto simp: terminal_session_def Let_def intro!: send_out dest!: outside_inv
        split: prod.splits sum.splits bool.splits option.splits)
qed

lemma terminal_handler: "I s \<Longrightarrow> I (snd (terminal_route A inp r s))"
proof -
  assume I: "I s"
  have "I s'" if h: "HandleTerminal p (al_libs A) tm idle dr dr' evs r s = Some (rs, s')" for p tm idle dr dr' evs rs s'
  proof -
    obtain code s1 where up: "outside (ws_upgrade tm CheckOrigin r) s = (code, s1)" by fastforce
    note I1 = outside_inv [OF up I]
    from h up I I1 show ?thesis
      by (auto simp: HandleTerminal_def Let_def intro!: send_out gauge Bridge_logAudit
          dest!: terminal_session [OF Bridge_logAudit [OF gauge [OF I1]]] split: if_splits sum.splits option.splits)
  qed
  with I show ?thesis by (auto simp: terminal_route_def split: option.splits)
qed

text \<open>Login, setup and the OIDC callback.\<close>

lemma login_handler: "I s \<Longrightarrow> I (snd (HandleLogin jl bl secret dr r s))"
  by (auto simp: HandleLogin_def Let_def intro!: logAuthAudit count_failure split: sum.splits)

lemma setup_handler: "I s \<Longrightarrow> I (snd (HandleSetup jl bl secret dr r s))"
  by (auto simp: HandleSetup_def setup_create_def Let_def intro: create_user split: sum.splits option.splits prod.splits)

lemma oidc_role_roles: "oidc_role cfg cs \<in> roles"
  by (simp add: oidc_role_def)

lemma callback_handler: "I s \<Longrightarrow> I (snd (Swap_HandleCallback ol jl live h dr r s))"
  using oidc_role_roles
  by (auto simp: Swap_HandleCallback_def OIDC_HandleCallback_def Let_def intro!: logAuthAudit intro: upsert_user
      split: option.splits sum.splits prod.splits)

lemma rate_limited:
  assumes "\<And>s. I s \<Longrightarrow> I (snd (nxt r s))" and "I s"
  shows "I (snd (rate_limited inp nxt r s))"
proof -
  obtain ad rl where ad: "admit (app_limiter s) (extractIP (rq_RemoteAddr r)) (dr_now (in_draws inp)) (in_retry inp) = (ad, rl)"
    by fastforce
  have "I (snd (nxt r (s\<lparr>app_limiter := rl\<rparr>)))" by (intro assms limiter)
  then show ?thesis
    using limiter [OF assms(2), of rl] ad
    by (auto simp: rate_limited_def Let_def limiter split: admission.splits prod.splits)
qed

lemma logout_handler: "I s \<Longrightarrow> I (snd (Logout dr r s))"
  by (simp add: Logout_def Let_def audit)

subsection \<open>Every route\<close>

lemmas unchanged_defs = handleMe_def handleAbout_def handleHealthz_def handleReadyz_def handleSetupStatus_def
  handleListServers_def handleListTemplates_def handleListUsers_def handleGetConfig_def handleGetSettings_def
  handleListAuditLog_def handleTestOIDC_def handleTestVault_def index_route_def Swap_HandleLogin_def OIDC_HandleLogin_def

lemma unchanged:
  "snd (handleMe A inp r s) = s" "snd (handleAbout A inp r s) = s" "snd (handleHealthz A inp r s) = s"
  "snd (handleReadyz A inp r s) = s" "snd (handleSetupStatus A inp r s) = s" "snd (handleListServers A inp r s) = s"
  "snd (handleListTemplates A inp r s) = s" "snd (handleListUsers A inp r s) = s" "snd (handleGetConfig A inp r s) = s"
  "snd (handleGetSettings A inp r s) = s" "snd (handleListAuditLog A inp r s) = s" "snd (handleTestOIDC A inp r s) = s"
  "snd (handleTestVault A inp r s) = s" "snd (index_route A inp r s) = s" "snd (Swap_HandleLogin ol h rnd r s) = s"
  by (auto simp: unchanged_defs Let_def case_prod_beta split: option.splits sum.splits)

lemmas handlers = delete_server_handler upload_key_handler accept_key_handler list_sessions_handler create_session_handler
  kill_session_handler create_server_handler delete_user_handler backup_handler update_settings_handler terminal_handler
  logout_handler

lemma public_route: "(p, h) \<in> set (public_routes A inp) \<Longrightarrow> I s \<Longrightarrow> I (snd (h r s))"
  by (auto simp: public_routes_def Let_def unchanged callback_handler intro!: rate_limited login_handler setup_handler)

lemma user_route: "(p, h) \<in> set user_routes \<Longrightarrow> I s \<Longrightarrow> I (snd (h A inp r s))"
  by (auto simp: user_routes_def unchanged handlers)

lemma admin_route: "(p, h) \<in> set admin_routes \<Longrightarrow> I s \<Longrightarrow> I (snd (h A inp r s))"
  by (auto simp: admin_routes_def unchanged handlers)

lemma guarded: "(\<And>r. I (snd (h A inp r s))) \<Longrightarrow> I s \<Longrightarrow> I (snd (am A inp h r s)) \<and> I (snd (adminM A inp h r s))"
  using guard_cases(1) [of inp h r s] guard_cases(2) [of inp h r s] other [of s] by (metis snd_conv)

lemma route: "(p, h) \<in> set (routes A inp) \<Longrightarrow> I s \<Longrightarrow> I (snd (h r s))"
  using public_route [of p h inp s r] user_route admin_route guarded by (fastforce simp: routes_def)

lemma request:
  assumes "I s"
  shows "I (snd (Handler A inp choice r s))"
proof -
  have m: "I (snd (snd (mux A inp choice r ([], s))))"
  proof (cases "map_of (routes A inp :: (string \<times> ('w, 'a) app_scheme handler) list) choice")
    case (Some h)
    from route [OF map_of_SomeD [OF this] assms, of r] Some show ?thesis by (auto simp: mux_def split: prod.splits)
  qed (simp add: mux_def assms)
  have "I (snd (snd (CSRFProtect csrf_exempt (mux A inp choice) r ([], s))))"
    using m assms by (simp add: CSRFProtect_def)
  then have "I (snd (snd (securityHeaders (CSRFProtect csrf_exempt (mux A inp choice)) r ([], s))))"
    by (simp add: securityHeaders_def case_prod_beta)
  then show ?thesis by (auto simp: Handler_def loggingMiddleware_def request_count split: prod.splits)
qed

lemma poll_one: "I s \<Longrightarrow> I (poll_one (al_libs A) now srv s)"
proof -
  assume I: "I s"
  obtain x s1 where ls: "ListSessions (al_libs A) now srv s = (x, s1)" by fastforce
  with list_sessions [OF I, of now srv] have I1: "I s1" by simp
  have cache: "I (s\<lparr>sm_sessions := m\<rparr>)" and count: "I (set_sessions_gauge sid n s)" if "I s" for s m sid n
    using other [OF that] by (auto simp: same_core_def set_sessions_gauge_def)
  show ?thesis using ls I1 by (cases x) (auto simp: poll_one_def Let_def intro!: cache count set_status)
qed

lemma poll_all: "I s \<Longrightarrow> I (pollAll (al_libs A) now s)"
proof -
  have "I s \<Longrightarrow> I (fold (poll_one (al_libs A) now) srvs s)" for srvs
    by (induction srvs arbitrary: s) (simp_all add: poll_one)
  then show "I s \<Longrightarrow> I (pollAll (al_libs A) now s)" by (simp add: pollAll_def split: sum.splits)
qed

end

section \<open>Invariants of the database\<close>

locale db_invariant =
  fixes J :: "db \<Rightarrow> bool"
  assumes create_user: "J d \<Longrightarrow> CreateUser d rnd now n h RoleAdmin = Inr (u, d') \<Longrightarrow> J d'"
    and upsert_user: "J d \<Longrightarrow> UpsertOIDCUser d rnd now sub n role = Inr (u, d') \<Longrightarrow> role \<in> roles \<Longrightarrow> J d'"
    and delete_user: "J d \<Longrightarrow> DeleteUser d uid = Inr d' \<Longrightarrow> J d'"
    and create_server: "J d \<Longrightarrow> CreateServer d rnd now n host port login own source path = Inr (srv, d') \<Longrightarrow>
        source = ''local'' \<or> source = ''vault_ref'' \<and> path \<noteq> [] \<and> \<not> Contains path ''..'' \<and> \<not> HasPrefix path ''/'' \<Longrightarrow> J d'"
    and delete_server: "J d \<Longrightarrow> DeleteServer d sid = Inr d' \<Longrightarrow> J d'"
    and status: "J d \<Longrightarrow> UpdateServerStatus d now sid st = Inr d' \<Longrightarrow> st \<in> statuses \<Longrightarrow> J d'"
    and store_host_key: "J d \<Longrightarrow> StoreHostKey d sid key fp = Inr d' \<Longrightarrow> J d'"
    and delete_host_key: "J d \<Longrightarrow> DeleteHostKey d sid = Inr d' \<Longrightarrow> J d'"
    and put_ssh_key: "J d \<Longrightarrow> put_ssh_key d row = Inr d' \<Longrightarrow> J d'"
    and delete_ssh_key: "J d \<Longrightarrow> delete_ssh_key d sid = Inr d' \<Longrightarrow> J d'"
    and setting: "J d \<Longrightarrow> SetSetting d k v = Inr d' \<Longrightarrow> J d'"
    and log: "J d \<Longrightarrow> LogAudit d now n' e = Inr d' \<Longrightarrow> J d'"
begin

lemma after: "J d \<Longrightarrow> (\<And>d'. x = Inr d' \<Longrightarrow> J d') \<Longrightarrow> J (after d x)"
  by (simp add: after_def split: sum.splits)

lemma local_put: "J d \<Longrightarrow> J (snd (Local_Put cl secret rnd d sid key))"
  using put_ssh_key by (auto simp: Local_Put_def Let_def split: option.splits sum.splits)

lemma local_delete: "J d \<Longrightarrow> J (snd (Local_Delete d sid))"
  using delete_ssh_key by (auto simp: Local_Delete_def split: sum.splits)

lemma key_put: "J (st_db s) \<Longrightarrow> J (st_db (snd (KS_Put cl vl kr s sid key)))"
  using local_put by (auto simp: KS_Put_def split: inner_ks.splits prod.splits) (metis snd_conv)

lemma key_delete: "J (st_db s) \<Longrightarrow> J (st_db (snd (KS_Delete vl s sid)))"
  using local_delete by (auto simp: KS_Delete_def split: inner_ks.splits prod.splits) (metis snd_conv)

lemma host_key_callback: "J (st_db s) \<Longrightarrow> J (st_db (snd (hostKeyCallback L now sid key s)))"
  by (auto simp: hostKeyCallback_db intro!: after intro: store_host_key status split: sum.splits)

lemma key_source_ok:
  "check_key_source A s source path = None \<Longrightarrow>
    source = ''local'' \<or> source = ''vault_ref'' \<and> path \<noteq> [] \<and> \<not> Contains path ''..'' \<and> \<not> HasPrefix path ''/''"
  by (auto simp: check_key_source_def split: if_splits)

end

sublocale db_invariant \<subseteq> db_app: app_invariant A "\<lambda>s. J (st_db s)" for A
proof (unfold_locales, goal_cases)
  case (3 s sid now key)
  then show ?case by (rule host_key_callback)
next
  case (7 s dr e)
  then show ?case by (auto simp: write_audit_def intro: after log)
next
  case (11 s rnd now n host port login own source path srv d')
  from create_server [OF this(1,2) key_source_ok [OF this(3)]] show ?case by simp
next
  case (14 s st now sid)
  then show ?case by (auto simp: set_status_def intro: after status)
qed (auto simp: same_core_def key_put key_delete intro: create_user upsert_user delete_user delete_server delete_host_key setting)

section \<open>The instances\<close>

text \<open>The constraints of the schema.\<close>

interpretation schema: db_invariant db_inv
  by unfold_locales (erule inv_intros, assumption)+

text \<open>The types of the rows: a role, a status and a key source are one of the constants the models
  name, and a reference to Vault has a relative path without a parent directory.\<close>

definition typed_server :: "server \<Rightarrow> bool" where
  "typed_server srv \<longleftrightarrow> srv_Status srv \<in> statuses \<and>
     (srv_KeySource srv = ''local'' \<or>
      srv_KeySource srv = ''vault_ref'' \<and> srv_VaultKeyPath srv \<noteq> [] \<and> \<not> Contains (srv_VaultKeyPath srv) ''..'' \<and>
      \<not> HasPrefix (srv_VaultKeyPath srv) ''/'')"

definition typed_db :: "db \<Rightarrow> bool" where
  "typed_db d \<longleftrightarrow> list_all typed_server (servers d) \<and> list_all (\<lambda>u. usr_Role u \<in> roles) (users d)"

lemma typed_status:
  "typed_db d \<Longrightarrow> UpdateServerStatus d now sid st = Inr d' \<Longrightarrow> st \<in> statuses \<Longrightarrow> typed_db d'"
proof -
  assume d: "typed_db d" "UpdateServerStatus d now sid st = Inr d'" "st \<in> statuses"
  have "typed_server (srv\<lparr>srv_Status := st, srv_UpdatedAt := t\<rparr>)" if "typed_server srv" for srv t
    using d(3) that unfolding typed_server_def by simp
  then have "list_all typed_server (map (\<lambda>s. if srv_ID s = sid then s\<lparr>srv_Status := st, srv_UpdatedAt := sql_now now\<rparr> else s) (servers d))"
    using d(1) by (auto simp: typed_db_def list_all_iff simp del: insert_iff)
  with d(1,2) show ?thesis by (auto simp: typed_db_def UpdateServerStatus_def split: if_splits)
qed

lemma typed_create_server:
  assumes "typed_db d" and "CreateServer d rnd now n host port login own source path = Inr (srv, d')"
    and "source = ''local'' \<or> source = ''vault_ref'' \<and> path \<noteq> [] \<and> \<not> Contains path ''..'' \<and> \<not> HasPrefix path ''/''"
  shows "typed_db d'"
  using assms by (auto simp: typed_db_def CreateServer_def Let_def typed_server_def split: if_splits)

lemma typed_upsert:
  "typed_db d \<Longrightarrow> UpsertOIDCUser d rnd now sub n role = Inr (u, d') \<Longrightarrow> role \<in> roles \<Longrightarrow> typed_db d'"
  by (auto simp: typed_db_def UpsertOIDCUser_def insert_user_def Let_def list_all_iff
      split: sum.splits store_error.splits if_splits)

interpretation types: db_invariant typed_db
proof unfold_locales
  show "typed_db d \<Longrightarrow> CreateUser d rnd now n h RoleAdmin = Inr (u, d') \<Longrightarrow> typed_db d'" for d rnd now n h u d'
    by (auto simp: typed_db_def CreateUser_def insert_user_def Let_def split: if_splits)
qed (auto intro: typed_status typed_create_server typed_upsert,
     auto simp: typed_db_def list_all_iff DeleteUser_def DeleteServer_def StoreHostKey_def DeleteHostKey_def put_ssh_key_def
       delete_ssh_key_def SetSetting_def LogAudit_def Let_def split: if_splits)

text \<open>The gauge of SSH connections.\<close>

interpretation gauge: app_invariant A gauge_exact for A
proof -
  have same: "gauge_exact s \<Longrightarrow> conns s' = conns s \<Longrightarrow> m_ssh_conns s' = m_ssh_conns s \<Longrightarrow> gauge_exact s'"
    for s s' :: "('x, 'y) app_scheme"
    by (simp add: gauge_exact_def)
  have ks: "conns (snd (KS_Put cl vl kr s sid key)) = conns s" "m_ssh_conns (snd (KS_Put cl vl kr s sid key)) = m_ssh_conns s"
    "conns (snd (KS_Delete vl s sid)) = conns s" "m_ssh_conns (snd (KS_Delete vl s sid)) = m_ssh_conns s"
    for cl vl kr sid key and s :: "('x, 'y) app_scheme"
    by (auto simp: KS_Put_def KS_Delete_def split: inner_ks.splits prod.splits)
  show "app_invariant A gauge_exact"
    by unfold_locales
       (auto simp: same_core_def write_audit_def set_status_def ks pool_gauge.each [THEN pool_invariant_at.callback]
          pool_gauge.each [THEN pool_invariant_at.add] pool_gauge.each [THEN pool_invariant_at.drop]
          intro: same)
qed

section \<open>Runs of the server\<close>

text \<open>Requests and polls one after the other.\<close>

datatype server_event = Request inputs string request | Poll time

fun server_step :: "'w app_libs \<Rightarrow> server_event \<Rightarrow> ('w, 'a) app_scheme \<Rightarrow> ('w, 'a) app_scheme" where
  "server_step A (Request inp choice r) s = snd (Handler A inp choice r s)"
| "server_step A (Poll now) s = pollAll (al_libs A) now s"

context app_invariant
begin

lemma run: "I s \<Longrightarrow> I (fold (server_step A) evs s)"
proof (induction evs arbitrary: s)
  case (Cons ev evs)
  have "I (server_step A ev s)" using Cons.prems by (cases ev) (simp_all add: request poll_all)
  from Cons.IH [OF this] show ?case by simp
qed simp

end

text \<open>C3. The types of the stored data are kept. Whatever requests arrive on whatever routes, with
  whatever bodies, identities, failing statements and answers of the libraries, and with polls in
  between: roles, server statuses and key sources stay among the constants of the models, a Vault
  reference stays a relative path without a parent directory, the constraints of the schema hold,
  and the gauge of SSH connections stays exact.\<close>

theorem requests_keep_types:
  assumes "typed_db (st_db s)" and "db_inv (st_db s)" and "gauge_exact s"
  shows "typed_db (st_db (fold (server_step A) evs s)) \<and> db_inv (st_db (fold (server_step A) evs s)) \<and>
    gauge_exact (fold (server_step A) evs s)"
  using assms types.db_app.run schema.db_app.run gauge.run by blast

lemma demo_app_typed: "typed_db (st_db demo_app)" "db_inv (st_db demo_app)" "gauge_exact demo_app"
  by (simp_all add: demo_app_simps demo_pool_def demo_defs typed_db_def typed_server_def StatusUnknown_def RoleAdmin_def
      RoleUser_def gauge_exact_def db_inv_def users_inv_def servers_inv_def refs_inv_def)

theorem requests_keep_types_witness:
  "let s' = fold (server_step demo_A) [Request demo_inputs ''DELETE /api/servers/{id}''
       ((demo_request [(''session'', ''tok''), (''csrf'', ''c'')] None)\<lparr>rq_PathValue := (\<lambda>_. ''s1'')\<rparr>), Poll 7] demo_app in
     typed_db (st_db s') \<and> db_inv (st_db s') \<and> gauge_exact s'"
  unfolding Let_def by (rule requests_keep_types [OF demo_app_typed])

end
