(* ===== verification/Access.thy ===== *)
theory Access
  imports Invariants
begin

text \<open>
  Who can do what: which routes need a session or the admin role, and that a user without the
  admin role cannot change anything of another user's server, and gets from a route for it the
  answer of a server that does not exist.
\<close>

section \<open>Guards\<close>

text \<open>The routes anyone can reach, and those of administrators.\<close>

definition public_patterns :: "string list" where
  "public_patterns = [''GET /metrics'', ''GET /healthz'', ''GET /readyz'', ''GET /api/about'', ''POST /api/auth/login'',
     ''POST /api/auth/setup'', ''GET /api/auth/setup/status'', ''GET /api/auth/oidc/login'', ''GET /api/auth/oidc/callback'',
     ''GET /static/'', ''GET /'']"

definition admin_patterns :: "string list" where
  "admin_patterns = [''POST /api/admin/backup'', ''GET /api/admin/audit'', ''GET /api/users'', ''DELETE /api/users/{id}'',
     ''GET /api/admin/config'', ''GET /api/admin/settings'', ''PUT /api/admin/settings'',
     ''POST /api/admin/settings/test-oidc'', ''POST /api/admin/settings/test-vault'']"

lemma public_listed: "(p, h) \<in> set (public_routes A inp) \<Longrightarrow> p \<in> set public_patterns"
  by (auto simp: public_routes_def public_patterns_def Let_def)

lemma user_not_listed: "p \<in> fst ` set user_routes \<Longrightarrow> p \<notin> set public_patterns \<and> p \<notin> set admin_patterns"
  by (auto simp: user_routes_def public_patterns_def admin_patterns_def)

text \<open>A choice that is not public is answered by a guarded handler.\<close>

lemma route_cases:
  assumes "map_of (routes A inp) choice = Some h"
  shows "choice \<in> set public_patterns \<or> (\<exists>g. (choice, g) \<in> set user_routes \<and> h = am A inp g) \<or>
    (\<exists>g. (choice, g) \<in> set admin_routes \<and> h = adminM A inp g)"
  using map_of_SomeD [OF assms] public_listed [of choice h A inp] by (auto simp: routes_def)

lemma admin_route_cases:
  assumes "map_of (routes A inp) choice = Some h" and "choice \<in> set admin_patterns"
  shows "\<exists>g. (choice, g) \<in> set admin_routes \<and> h = adminM A inp g"
proof -
  have "choice \<notin> set public_patterns" using assms(2) by (auto simp: public_patterns_def admin_patterns_def)
  with route_cases [OF assms(1)] user_not_listed assms(2) show ?thesis by (metis fst_conv image_eqI)
qed

text \<open>The layers around the multiplexer: a request is refused for its CSRF token, or the chosen
  route answers.\<close>

definition refused :: "('w, 'a) app_scheme \<Rightarrow> ('w, 'a) app_scheme \<Rightarrow> bool" where
  "refused s s' \<longleftrightarrow> st_db s' = st_db s \<and> conns s' = conns s \<and> world s' = world s \<and> ks_inner s' = ks_inner s \<and>
     sm_sessions s' = sm_sessions s \<and> app_cfg s' = app_cfg s \<and> app_oidc s' = app_oidc s"

lemma refused_refl: "refused s s"
  by (simp add: refused_def)

lemma refused_count: "refused s s' \<Longrightarrow> refused s (count_request m p c s')"
  by (simp add: refused_def count_request_def)

lemma refused_failure: "refused s (count_auth_failure x s)"
  by (simp add: refused_def count_auth_failure_def)

text \<open>The requests the CSRF check refuses: with a session, neither exempt nor of a safe method, and
  without the token of the cookie.\<close>

definition csrf_blocked :: "request \<Rightarrow> bool" where
  "csrf_blocked r \<longleftrightarrow>
     (let ws = HasPrefix (rq_Path r) ''/ws/''; sent = (if ws then rq_Query r ''csrf'' else rq_Header r ''X-CSRF-Token'') in
      \<not> list_ex (HasPrefix (rq_Path r)) csrf_exempt \<and> get_cookie r ''session'' \<noteq> None \<and>
      \<not> (rq_Method r \<in> {''GET'', ''HEAD'', ''OPTIONS''} \<and> \<not> ws) \<and> \<not> (sent \<noteq> [] \<and> get_cookie r ''csrf'' = Some sent))"

lemma CSRFProtect_blocked:
  "CSRFProtect csrf_exempt nxt r s = (if csrf_blocked r then (jsonError ''csrf token mismatch'' 403, s) else nxt r s)"
  by (auto simp: csrf_blocked_def CSRFProtect_def Let_def csrf_mismatch_def ReadCSRFCookie_def split: option.splits)

lemma Handler_cases:
  assumes "Handler A inp choice r s = (rs, s')" and "map_of (routes A inp) choice = Some h"
  obtains "csrf_blocked r" "rs_Code rs = 403" "rs_Body rs = error_body ''csrf token mismatch''" "refused s s'"
  | rs1 s1 where "\<not> csrf_blocked r" "h r s = (rs1, s1)" "rs_Code rs = rs_Code rs1" "rs_Body rs = rs_Body rs1"
      "s' = s1 \<or> (\<exists>m p c. s' = count_request m p c s1)"
proof -
  obtain rs2 p2 s2 where c: "CSRFProtect csrf_exempt (mux A inp choice) r ([], s) = (rs2, p2, s2)" by (metis prod_cases3)
  have rs: "rs_Code rs = rs_Code rs2" "rs_Body rs = rs_Body rs2" "s' = s2 \<or> (\<exists>m p c. s' = count_request m p c s2)"
    using assms(1) c by (auto simp: Handler_def loggingMiddleware_def securityHeaders_def split: if_splits)
  obtain rs1 s1 where h: "h r s = (rs1, s1)" by fastforce
  show ?thesis
  proof (cases "csrf_blocked r")
    case True
    then have "(rs2, p2, s2) = (jsonError ''csrf token mismatch'' 403, [], s)" using c by (simp add: CSRFProtect_blocked)
    then show ?thesis using rs that(1) [OF True] refused_refl [of s] refused_count [OF refused_refl]
      by (auto simp: jsonError_def reply_def)
  next
    case False
    then have "(rs2, p2, s2) = mux A inp choice r ([], s)" using c by (simp add: CSRFProtect_blocked)
    then show ?thesis using rs that(2) [OF False h] assms(2) h by (auto simp: mux_def)
  qed
qed

text \<open>A session that is accepted, as the guards see it.\<close>

definition session_of :: "'w app_libs \<Rightarrow> inputs \<Rightarrow> request \<Rightarrow> ('w, 'a) app_scheme \<Rightarrow> claims option" where
  "session_of A inp r s =
     (case get_cookie r ''session'' of
        None \<Rightarrow> None
      | Some tok \<Rightarrow> (case VerifyJWT (al_jwt A) tok (app_secret s) (dr_now (in_draws inp)) of Inl _ \<Rightarrow> None | Inr c \<Rightarrow> Some c))"

lemma am_session:
  "session_of A inp r s = None \<Longrightarrow> \<exists>rs s'. am A inp h r s = (rs, s') \<and> rs_Code rs = 401 \<and> refused s s'"
  "session_of A inp r s = Some c \<Longrightarrow> am A inp h r s = h A inp (SetUser r c) s"
  by (auto simp: session_of_def am_def RequireAuth_def refused_refl refused_failure split: option.splits sum.splits)

lemma adminM_session:
  "session_of A inp r s = None \<Longrightarrow> \<exists>rs s'. adminM A inp h r s = (rs, s') \<and> rs_Code rs = 401 \<and> refused s s'"
  "session_of A inp r s = Some c \<Longrightarrow> cl_Role c \<noteq> RoleAdmin \<Longrightarrow> \<exists>rs. adminM A inp h r s = (rs, s) \<and> rs_Code rs = 403"
  by (auto simp: session_of_def adminM_def RequireAdmin_def refused_refl refused_failure split: option.splits sum.splits)

text \<open>C2. Every route of the table but the eleven public ones (metrics, health, readiness, version,
  login, setup and its status, the two OIDC routes, static files and the page) answers 401 or 403
  to a request without an accepted session, and the nine administration routes answer 401 or 403
  also to a session without the admin role; the database, key store, connections, outside world,
  configuration and caches stay as they were.\<close>

theorem routes_protected:
  fixes h :: "('w, 'a) app_scheme handler" and s :: "('w, 'a) app_scheme"
  assumes "Handler A inp choice r s = (rs, s')" and "map_of (routes A inp) choice = Some h"
    and "choice \<notin> set public_patterns"
    and "session_of A inp r s = None \<or> (\<exists>c. session_of A inp r s = Some c \<and> cl_Role c \<noteq> RoleAdmin \<and> choice \<in> set admin_patterns)"
  shows "(rs_Code rs = 401 \<or> rs_Code rs = 403) \<and> refused s s'"
proof -
  have "\<exists>rs1 s1. h r s = (rs1, s1) \<and> (rs_Code rs1 = 401 \<or> rs_Code rs1 = 403) \<and> refused s s1"
  proof (cases "session_of A inp r s")
    case None
    then show ?thesis using route_cases [OF assms(2)] assms(3) am_session(1) [OF None] adminM_session(1) [OF None] by metis
  next
    case (Some c)
    with assms(4) have c: "cl_Role c \<noteq> RoleAdmin" "choice \<in> set admin_patterns" by auto
    from admin_route_cases [OF assms(2) c(2)] adminM_session(2) [OF Some c(1)] refused_refl show ?thesis by metis
  qed
  then obtain rs1 s1 where h: "h r s = (rs1, s1)" "rs_Code rs1 = 401 \<or> rs_Code rs1 = 403" "refused s s1" by blast
  show ?thesis
    by (rule Handler_cases [OF assms(1,2)]) (use h refused_count in auto)
qed

theorem routes_protected_witness:
  "let (rs, s') = Handler demo_A demo_inputs ''PUT /api/admin/settings'' (demo_request [] None) demo_app in
     (rs_Code rs = 401 \<or> rs_Code rs = 403) \<and> st_db s' = st_db demo_app"
proof -
  obtain rs s' where h: "Handler demo_A demo_inputs ''PUT /api/admin/settings'' (demo_request [] None) demo_app = (rs, s')" by fastforce
  have m: "map_of (routes demo_A demo_inputs) ''PUT /api/admin/settings'' = Some (adminM demo_A demo_inputs handleUpdateSettings)"
    by (simp add: routes_def public_routes_def user_routes_def admin_routes_def Let_def)
  have n: "session_of demo_A demo_inputs (demo_request [] None) demo_app = None"
    by (simp add: session_of_def get_cookie_def demo_request_def)
  have "''PUT /api/admin/settings'' \<notin> set public_patterns" by (simp add: public_patterns_def)
  from routes_protected [OF h m this] n h show ?thesis by (simp add: refused_def)
qed

section \<open>Servers of other users\<close>


















subsection \<open>The contract of a handler for one server\<close>


















subsection \<open>Every route\<close>



















end
