(* ===== verification/Migrations.thy ===== *)
theory Migrations
  imports Store
begin

text \<open>
  Opening the store, \<open>internal/store/store.go\<close>, with the scripts of
  \<open>internal/store/migrations\<close>. A database file is its schema (tables with their columns,
  indexes, recorded versions) and its rows; the columns a file does not have yet have no meaning
  in its rows. SQLite runs a script statement by statement, without a transaction around it: what
  was done before a statement that fails, or before the process ends, stays.
\<close>

section \<open>Files and statements\<close>

datatype ddl =
    CreateTable string "string list"
  | CreateIndex string string
  | AddColumn string string
  | RecordVersion int

record schema =
  sch_tables :: "(string \<times> string list) list"
  sch_indexes :: "string list"
  sch_versions :: "int list"

record db_file =
  df_schema :: schema
  df_rows :: db

datatype sql_error = NoSuchTable | DuplicateColumn | StatementFault

text \<open>A new table has no rows.\<close>

definition create_rows :: "string \<Rightarrow> db \<Rightarrow> db" where
  "create_rows t d =
     (if t = ''users'' then d\<lparr>users := []\<rparr>
      else if t = ''servers'' then d\<lparr>servers := []\<rparr>
      else if t = ''ssh_keys'' then d\<lparr>ssh_keys := []\<rparr>
      else if t = ''session_templates'' then d\<lparr>session_templates := []\<rparr>
      else if t = ''host_keys'' then d\<lparr>host_keys := []\<rparr>
      else if t = ''audit_log'' then d\<lparr>audit_log := []\<rparr>
      else if t = ''settings'' then d\<lparr>settings := []\<rparr>
      else d)"

text \<open>A new column has its default in the rows that are there.\<close>

definition fill_server :: "string \<Rightarrow> server \<Rightarrow> server" where
  "fill_server c r =
     (if c = ''owner_id'' then r\<lparr>srv_OwnerID := []\<rparr>
      else if c = ''key_source'' then r\<lparr>srv_KeySource := ''local''\<rparr>
      else if c = ''vault_key_path'' then r\<lparr>srv_VaultKeyPath := []\<rparr>
      else r)"

definition fill_column :: "string \<Rightarrow> db \<Rightarrow> db" where
  "fill_column c d = d\<lparr>servers := map (fill_server c) (servers d)\<rparr>"

fun exec_ddl :: "ddl \<Rightarrow> db_file \<Rightarrow> sql_error + db_file" where
  "exec_ddl (CreateTable t cols) f =
     (if map_of (sch_tables (df_schema f)) t \<noteq> None then Inr f
      else Inr \<lparr>df_schema = (df_schema f)\<lparr>sch_tables := sch_tables (df_schema f) @ [(t, cols)]\<rparr>,
                df_rows = create_rows t (df_rows f)\<rparr>)"
| "exec_ddl (CreateIndex i t) f =
     (if i \<in> set (sch_indexes (df_schema f)) then Inr f
      else if map_of (sch_tables (df_schema f)) t = None then Inl NoSuchTable
      else Inr (f\<lparr>df_schema := (df_schema f)\<lparr>sch_indexes := sch_indexes (df_schema f) @ [i]\<rparr>\<rparr>))"
| "exec_ddl (AddColumn t c) f =
     (case map_of (sch_tables (df_schema f)) t of
        None \<Rightarrow> Inl NoSuchTable
      | Some cols \<Rightarrow>
          if c \<in> set cols then Inl DuplicateColumn
          else Inr \<lparr>df_schema = (df_schema f)\<lparr>sch_tables := map (\<lambda>(t', cs). (t', if t' = t then cs @ [c] else cs))
                     (sch_tables (df_schema f))\<rparr>,
                   df_rows = fill_column c (df_rows f)\<rparr>)"
| "exec_ddl (RecordVersion v) f =
     (if map_of (sch_tables (df_schema f)) ''schema_version'' = None then Inl NoSuchTable
      else if v \<in> set (sch_versions (df_schema f)) then Inr f
      else Inr (f\<lparr>df_schema := (df_schema f)\<lparr>sch_versions := sch_versions (df_schema f) @ [v]\<rparr>\<rparr>))"

text \<open>A script from its \<open>i\<close>-th statement on; \<open>flt i\<close> says that statement \<open>i\<close> fails for reasons
  outside the model, or that the process ends there.\<close>

fun exec_script :: "(nat \<Rightarrow> bool) \<Rightarrow> nat \<Rightarrow> ddl list \<Rightarrow> db_file \<Rightarrow> sql_error option \<times> db_file" where
  "exec_script flt i [] f = (None, f)"
| "exec_script flt i (x # xs) f =
     (if flt i then (Some StatementFault, f)
      else case exec_ddl x f of
        Inl e \<Rightarrow> (Some e, f)
      | Inr f' \<Rightarrow> exec_script flt (Suc i) xs f')"

section \<open>The scripts\<close>

definition initial_script :: "ddl list" where
  "initial_script =
     [CreateTable ''schema_version'' [''version'', ''applied_at''],
      CreateTable ''users'' [''id'', ''username'', ''password_hash'', ''role'', ''oidc_subject'', ''created_at'', ''updated_at''],
      CreateTable ''servers'' [''id'', ''name'', ''host'', ''port'', ''ssh_user'', ''status'', ''created_at'', ''updated_at''],
      CreateTable ''ssh_keys'' [''server_id'', ''encrypted_key'', ''salt'', ''nonce'', ''created_at''],
      CreateTable ''session_templates'' [''id'', ''name'', ''command'', ''workdir'', ''server_id'', ''created_at''],
      RecordVersion 1]"

definition host_keys_script :: "ddl list" where
  "host_keys_script =
     [CreateTable ''host_keys'' [''server_id'', ''host_key'', ''fingerprint'', ''first_seen''], RecordVersion 2]"

definition audit_log_script :: "ddl list" where
  "audit_log_script =
     [CreateTable ''audit_log'' [''id'', ''timestamp'', ''user_id'', ''username'', ''action'', ''target_type'',
        ''target_id'', ''details'', ''ip_address''],
      CreateIndex ''audit_log_timestamp'' ''audit_log'', CreateIndex ''audit_log_user_id'' ''audit_log'',
      CreateIndex ''audit_log_action'' ''audit_log'', RecordVersion 3]"

definition settings_script :: "ddl list" where
  "settings_script = [CreateTable ''settings'' [''key'', ''value'', ''updated_at''], RecordVersion 4]"

definition server_owner_script :: "ddl list" where
  "server_owner_script = [AddColumn ''servers'' ''owner_id'', RecordVersion 5]"

definition vault_key_ref_script :: "ddl list" where
  "vault_key_ref_script =
     [AddColumn ''servers'' ''key_source'', AddColumn ''servers'' ''vault_key_path'', RecordVersion 6]"

text \<open>The embedded directory, which is read in the order of the names.\<close>

definition migrations :: "(string \<times> ddl list) list" where
  "migrations =
     [(''001_initial.sql'', initial_script), (''002_host_keys.sql'', host_keys_script),
      (''003_audit_log.sql'', audit_log_script), (''004_settings.sql'', settings_script),
      (''005_server_owner.sql'', server_owner_script), (''006_vault_key_ref.sql'', vault_key_ref_script)]"

section \<open>Opening (store.go)\<close>

text \<open>The number \<open>Sscanf\<close> reads from a name by the format \<open>%d_\<close>.\<close>

definition file_version :: "string \<Rightarrow> int option" where
  "file_version name =
     (let sign = takeWhile (\<lambda>c. c \<in> {CHR ''+'', CHR ''-''}) (take 1 name);
          ds = takeWhile is_digit (drop (length sign) name);
          rest = drop (length sign + length ds) name in
      case Atoi (sign @ ds) of
        (n, None) \<Rightarrow> if take 1 rest = ''_'' then Some n else None
      | (_, Some _) \<Rightarrow> None)"

text \<open>
  What can fail outside the model while the store is opened. \<open>op_version\<close>: the query for the
  version returns; its error is dropped, and the version is 0 then.
\<close>

record open_lib =
  op_mkdir :: bool
  op_open :: bool
  op_ping :: bool
  op_version :: bool
  op_fault :: "int \<Rightarrow> nat \<Rightarrow> bool"

datatype open_error = OpenMkdir | OpenOpen | OpenPing | OpenMigrate string sql_error

definition recorded_version :: "schema \<Rightarrow> int" where
  "recorded_version sch =
     (if map_of (sch_tables sch) ''schema_version'' = None then 0
      else case sch_versions sch of [] \<Rightarrow> 0 | v # vs \<Rightarrow> fold max vs v)"

definition currentVersion :: "open_lib \<Rightarrow> db_file \<Rightarrow> int" where
  "currentVersion ol f = (if op_version ol then recorded_version (df_schema f) else 0)"

fun migrate_loop ::
  "open_lib \<Rightarrow> int \<Rightarrow> (string \<times> ddl list) list \<Rightarrow> db_file \<Rightarrow> open_error option \<times> db_file" where
  "migrate_loop ol current [] f = (None, f)"
| "migrate_loop ol current ((name, script) # es) f =
     (case file_version name of
        None \<Rightarrow> migrate_loop ol current es f
      | Some version \<Rightarrow>
          if version \<le> current then migrate_loop ol current es f
          else case exec_script (op_fault ol version) 0 script f of
            (Some e, f') \<Rightarrow> (Some (OpenMigrate name e), f')
          | (None, f') \<Rightarrow> migrate_loop ol current es f')"

definition migrate :: "open_lib \<Rightarrow> db_file \<Rightarrow> open_error option \<times> db_file" where
  "migrate ol f = migrate_loop ol (currentVersion ol f) migrations f"

definition Open :: "open_lib \<Rightarrow> db_file \<Rightarrow> (open_error + db) \<times> db_file" where
  "Open ol f =
     (if \<not> op_mkdir ol then (Inl OpenMkdir, f)
      else if \<not> op_open ol then (Inl OpenOpen, f)
      else if \<not> op_ping ol then (Inl OpenPing, f)
      else case migrate ol f of
        (Some e, f') \<Rightarrow> (Inl e, f')
      | (None, f') \<Rightarrow> (Inr (df_rows f'), f'))"

section \<open>Where a migration can stop\<close>

text \<open>The schema after the migrations before the \<open>v\<close>-th (from 1) and the first \<open>k\<close> statements of it.\<close>

definition no_rows :: db where
  "no_rows = \<lparr>users = [], servers = [], ssh_keys = [], host_keys = [], session_templates = [], audit_log = [],
     settings = [], fault = (\<lambda>_. False)\<rparr>"

definition no_schema :: schema where
  "no_schema = \<lparr>sch_tables = [], sch_indexes = [], sch_versions = []\<rparr>"

definition script_of :: "nat \<Rightarrow> ddl list" where
  "script_of v = snd (migrations ! (v - 1))"

definition schema_at :: "nat \<Rightarrow> nat \<Rightarrow> schema" where
  "schema_at v k = df_schema (snd (exec_script (\<lambda>_. False) 0
     (concat (map snd (take (v - 1) migrations)) @ take k (script_of v)) \<lparr>df_schema = no_schema, df_rows = no_rows\<rparr>))"

definition latest :: schema where
  "latest = schema_at 6 3"

text \<open>The points after which a column is there and the version of its migration is not recorded.\<close>

definition stuck_points :: "(nat \<times> nat) list" where
  "stuck_points = [(5, 1), (6, 1), (6, 2)]"

definition ol_ok :: open_lib where
  "ol_ok = \<lparr>op_mkdir = True, op_open = True, op_ping = True, op_version = True, op_fault = (\<lambda>_ _. False)\<rparr>"

section \<open>What an upgrade makes of the rows\<close>

definition has_table :: "schema \<Rightarrow> string \<Rightarrow> bool" where
  "has_table sch t \<longleftrightarrow> map_of (sch_tables sch) t \<noteq> None"

definition has_column :: "schema \<Rightarrow> string \<Rightarrow> string \<Rightarrow> bool" where
  "has_column sch t c \<longleftrightarrow> (case map_of (sch_tables sch) t of None \<Rightarrow> False | Some cols \<Rightarrow> c \<in> set cols)"

definition upgraded_server :: "schema \<Rightarrow> server \<Rightarrow> server" where
  "upgraded_server sch r = r\<lparr>
     srv_OwnerID := if has_column sch ''servers'' ''owner_id'' then srv_OwnerID r else [],
     srv_KeySource := if has_column sch ''servers'' ''key_source'' then srv_KeySource r else ''local'',
     srv_VaultKeyPath := if has_column sch ''servers'' ''vault_key_path'' then srv_VaultKeyPath r else []\<rparr>"

definition upgraded :: "schema \<Rightarrow> db \<Rightarrow> db" where
  "upgraded sch d = d\<lparr>
     users := if has_table sch ''users'' then users d else [],
     servers := if has_table sch ''servers'' then map (upgraded_server sch) (servers d) else [],
     ssh_keys := if has_table sch ''ssh_keys'' then ssh_keys d else [],
     host_keys := if has_table sch ''host_keys'' then host_keys d else [],
     session_templates := if has_table sch ''session_templates'' then session_templates d else [],
     audit_log := if has_table sch ''audit_log'' then audit_log d else [],
     settings := if has_table sch ''settings'' then settings d else []\<rparr>"

section \<open>Facts\<close>

lemma file_versions [simp]:
  "file_version ''001_initial.sql'' = Some 1" "file_version ''002_host_keys.sql'' = Some 2"
  "file_version ''003_audit_log.sql'' = Some 3" "file_version ''004_settings.sql'' = Some 4"
  "file_version ''005_server_owner.sql'' = Some 5" "file_version ''006_vault_key_ref.sql'' = Some 6"
  by code_simp+

text \<open>What the rows become in the end is the same before and after every statement.\<close>

fun ddl_ok :: "ddl \<Rightarrow> bool" where
  "ddl_ok (AddColumn t c) \<longleftrightarrow> t = ''servers''"
| "ddl_ok _ \<longleftrightarrow> True"

lemma map_of_append_new: "map_of xs t = None \<Longrightarrow> map_of (xs @ [(t, c)]) t' = (if t' = t then Some c else map_of xs t')"
  by (simp add: map_add_def split: option.splits)

lemma map_of_add_column:
  "map_of (map (\<lambda>(t', cs). (t', if t' = t then g cs else cs)) xs) t' =
    (if t' = t then map_option g (map_of xs t') else map_of xs t')"
  by (induction xs) auto

lemma upgraded_sel:
  "users (upgraded sch d) = (if has_table sch ''users'' then users d else [])"
  "servers (upgraded sch d) = (if has_table sch ''servers'' then map (upgraded_server sch) (servers d) else [])"
  "ssh_keys (upgraded sch d) = (if has_table sch ''ssh_keys'' then ssh_keys d else [])"
  "host_keys (upgraded sch d) = (if has_table sch ''host_keys'' then host_keys d else [])"
  "session_templates (upgraded sch d) = (if has_table sch ''session_templates'' then session_templates d else [])"
  "audit_log (upgraded sch d) = (if has_table sch ''audit_log'' then audit_log d else [])"
  "settings (upgraded sch d) = (if has_table sch ''settings'' then settings d else [])"
  "fault (upgraded sch d) = fault d"
  by (simp_all add: upgraded_def)

lemma create_rows_sel:
  "users (create_rows t d) = (if t = ''users'' then [] else users d)"
  "servers (create_rows t d) = (if t = ''servers'' then [] else servers d)"
  "ssh_keys (create_rows t d) = (if t = ''ssh_keys'' then [] else ssh_keys d)"
  "host_keys (create_rows t d) = (if t = ''host_keys'' then [] else host_keys d)"
  "session_templates (create_rows t d) = (if t = ''session_templates'' then [] else session_templates d)"
  "audit_log (create_rows t d) = (if t = ''audit_log'' then [] else audit_log d)"
  "settings (create_rows t d) = (if t = ''settings'' then [] else settings d)"
  "fault (create_rows t d) = fault d"
  by (simp_all add: create_rows_def)

lemma fill_column_sel:
  "users (fill_column c d) = users d" "ssh_keys (fill_column c d) = ssh_keys d" "host_keys (fill_column c d) = host_keys d"
  "session_templates (fill_column c d) = session_templates d" "audit_log (fill_column c d) = audit_log d"
  "settings (fill_column c d) = settings d" "fault (fill_column c d) = fault d"
  by (simp_all add: fill_column_def)

lemma upgraded_create:
  assumes "map_of (sch_tables sch) t = None"
  shows "upgraded (sch\<lparr>sch_tables := sch_tables sch @ [(t, cols)]\<rparr>) (create_rows t d) = upgraded sch d"
    (is "upgraded ?s' _ = _")
proof -
  have tab: "has_table ?s' t' \<longleftrightarrow> t' = t \<or> has_table sch t'" for t'
    using assms by (simp add: has_table_def map_of_append_new del: map_of_append)
  have no: "\<not> has_table sch t" using assms by (simp add: has_table_def)
  have col: "has_column ?s' ''servers'' c = has_column sch ''servers'' c" if "t \<noteq> ''servers''" for c
    using assms that by (simp add: has_column_def map_of_append_new del: map_of_append)
  show ?thesis
  proof (rule db.equality)
    show "servers (upgraded ?s' (create_rows t d)) = servers (upgraded sch d)"
      using no col by (auto simp: upgraded_sel create_rows_sel tab upgraded_server_def)
  qed (use no in \<open>auto simp: upgraded_sel create_rows_sel tab\<close>)
qed

lemma upgraded_add_column:
  assumes "map_of (sch_tables sch) ''servers'' = Some cols" and "c \<notin> set cols"
  shows "upgraded (sch\<lparr>sch_tables := map (\<lambda>(t', cs). (t', if t' = ''servers'' then cs @ [c] else cs)) (sch_tables sch)\<rparr>)
      (fill_column c d) = upgraded sch d" (is "upgraded ?s' _ = _")
proof -
  have tab: "has_table ?s' t' = has_table sch t'" for t'
    by (simp add: has_table_def map_of_add_column)
  have col: "has_column ?s' ''servers'' c' \<longleftrightarrow> c' = c \<or> has_column sch ''servers'' c'" for c'
    using assms by (auto simp: has_column_def map_of_add_column)
  have no: "\<not> has_column sch ''servers'' c" using assms by (simp add: has_column_def)
  have "upgraded_server ?s' (fill_server c r) = upgraded_server sch r" for r
    by (rule server.equality) (use no in \<open>auto simp: upgraded_server_def fill_server_def col\<close>)
  then show ?thesis
    by (intro db.equality) (simp_all add: upgraded_sel fill_column_sel fill_column_def tab)
qed

lemma upgraded_same: "sch_tables sch' = sch_tables sch \<Longrightarrow> upgraded sch' d = upgraded sch d"
  by (simp add: upgraded_def upgraded_server_def has_table_def has_column_def)

lemma exec_ddl_upgraded:
  "exec_ddl x f = Inr f' \<Longrightarrow> ddl_ok x \<Longrightarrow> upgraded (df_schema f') (df_rows f') = upgraded (df_schema f) (df_rows f)"
  by (cases x) (auto simp: upgraded_create upgraded_add_column intro!: upgraded_same split: if_splits option.splits)

lemma exec_script_upgraded:
  "list_all ddl_ok xs \<Longrightarrow> exec_script flt i xs f = (r, f') \<Longrightarrow>
    upgraded (df_schema f') (df_rows f') = upgraded (df_schema f) (df_rows f)"
proof (induction xs arbitrary: i f)
  case (Cons x xs)
  then show ?case by (auto simp: exec_ddl_upgraded split: if_splits sum.splits)
qed simp

lemma migrate_loop_upgraded:
  "list_all (\<lambda>e. list_all ddl_ok (snd e)) es \<Longrightarrow> migrate_loop ol cur es f = (r, f') \<Longrightarrow>
    upgraded (df_schema f') (df_rows f') = upgraded (df_schema f) (df_rows f)"
  by (induction ol cur es f rule: migrate_loop.induct)
     (auto dest: exec_script_upgraded split: if_splits option.splits prod.splits)

text \<open>The schema and the outcome do not depend on the rows.\<close>

lemma exec_ddl_rows:
  "df_schema f = df_schema g \<Longrightarrow> map_sum id df_schema (exec_ddl x f) = map_sum id df_schema (exec_ddl x g)"
  by (cases x) (simp_all split: option.splits)

lemma exec_script_rows:
  "df_schema f = df_schema g \<Longrightarrow>
    map_prod id df_schema (exec_script flt i xs f) = map_prod id df_schema (exec_script flt i xs g)"
proof (induction xs arbitrary: i f g)
  case (Cons x xs)
  from exec_ddl_rows [OF Cons.prems, of x] show ?case
    using Cons.IH [of "projr (exec_ddl x f)" "projr (exec_ddl x g)" "Suc i"] Cons.prems
    by (cases "exec_ddl x f"; cases "exec_ddl x g") simp_all
qed simp

lemma migrate_loop_rows:
  "df_schema f = df_schema g \<Longrightarrow>
    map_prod id df_schema (migrate_loop ol cur es f) = map_prod id df_schema (migrate_loop ol cur es g)"
proof (induction es arbitrary: f g)
  case (Cons e es)
  obtain n s where e: "e = (n, s)" by fastforce
  have same: "map_prod id df_schema (exec_script flt 0 s f) = map_prod id df_schema (exec_script flt 0 s g)" for flt
    by (rule exec_script_rows) (rule Cons.prems)
  show ?case
  proof (cases "file_version n")
    case (Some v)
    obtain r f' r' g' where run: "exec_script (op_fault ol v) 0 s f = (r, f')" "exec_script (op_fault ol v) 0 s g = (r', g')"
      by fastforce
    with same [of "op_fault ol v"] have "r' = r" "df_schema f' = df_schema g'" by simp_all
    with run Some e Cons.IH [of f' g'] Cons.IH [of f g] Cons.prems show ?thesis by (cases r) simp_all
  qed (use Cons.IH [of f g] Cons.prems e in simp)
qed simp

section \<open>A migration that cannot go on\<close>

text \<open>Whether a statement changes nothing, and whether it is refused.\<close>

fun noop :: "schema \<Rightarrow> ddl \<Rightarrow> bool" where
  "noop sch (CreateTable t cols) \<longleftrightarrow> has_table sch t"
| "noop sch (CreateIndex i t) \<longleftrightarrow> i \<in> set (sch_indexes sch)"
| "noop sch (AddColumn t c) \<longleftrightarrow> False"
| "noop sch (RecordVersion v) \<longleftrightarrow> has_table sch ''schema_version'' \<and> v \<in> set (sch_versions sch)"

fun refused_first :: "schema \<Rightarrow> ddl list \<Rightarrow> bool" where
  "refused_first sch (AddColumn t c # xs) \<longleftrightarrow> has_column sch t c"
| "refused_first sch _ \<longleftrightarrow> False"

fun stuck_loop :: "int \<Rightarrow> schema \<Rightarrow> (string \<times> ddl list) list \<Rightarrow> bool" where
  "stuck_loop cur sch [] \<longleftrightarrow> False"
| "stuck_loop cur sch ((n, s) # es) \<longleftrightarrow>
     (case file_version n of
        None \<Rightarrow> stuck_loop cur sch es
      | Some v \<Rightarrow> if v \<le> cur \<or> list_all (noop sch) s then stuck_loop cur sch es else refused_first sch s)"

lemma noop_exec: "noop (df_schema f) x \<Longrightarrow> exec_ddl x f = Inr f"
  by (cases x) (auto simp: has_table_def)

lemma exec_script_noop:
  "list_all (noop (df_schema f)) xs \<Longrightarrow>
    exec_script flt i xs f = (None, f) \<or> exec_script flt i xs f = (Some StatementFault, f)"
  by (induction xs arbitrary: i) (auto simp: noop_exec)

lemma exec_script_refused: "refused_first (df_schema f) xs \<Longrightarrow> \<exists>e. exec_script flt i xs f = (Some e, f)"
  by (induction "df_schema f" xs rule: refused_first.induct) (auto simp: has_column_def split: option.splits)

lemma stuck_loop_migrate: "stuck_loop cur (df_schema f) es \<Longrightarrow> \<exists>e. migrate_loop ol cur es f = (Some e, f)"
proof (induction es)
  case (Cons p es)
  obtain n s where p: "p = (n, s)" by fastforce
  show ?case
  proof (cases "file_version n")
    case (Some v)
    show ?thesis
    proof (cases "v \<le> cur \<or> \<not> list_all (noop (df_schema f)) s")
      case True
      then show ?thesis using Cons p Some exec_script_refused [of f s "op_fault ol v" 0] by fastforce
    next
      case False
      with exec_script_noop [of f s "op_fault ol v" 0] Cons p Some show ?thesis by auto
    qed
  qed (use Cons p in simp)
qed simp

section \<open>Properties\<close>

text \<open>Every point at which the migrations can stop.\<close>

definition crash_points :: "(nat \<times> nat) list" where
  "crash_points = concat (map (\<lambda>v. map (Pair v) [0..<Suc (length (script_of v))]) [1..<7])"

definition point_ok :: "schema \<Rightarrow> nat \<times> nat \<Rightarrow> bool" where
  "point_ok new p = (let sch = schema_at (fst p) (snd p) in
     if p \<in> set stuck_points then stuck_loop 0 sch migrations \<and> stuck_loop (recorded_version sch) sch migrations
     else map_prod id df_schema (migrate ol_ok \<lparr>df_schema = sch, df_rows = no_rows\<rparr>) = (None, new))"

lemma points_ok_1: "list_all (\<lambda>k. point_ok latest (1, k)) [0, 1, 2, 3, 4, 5, 6]"
  by code_simp

lemma points_ok_2: "list_all (\<lambda>k. point_ok latest (2, k)) [0, 1, 2]"
  by code_simp

lemma points_ok_3: "list_all (\<lambda>k. point_ok latest (3, k)) [0, 1, 2, 3, 4, 5]"
  by code_simp

lemma points_ok_4: "list_all (\<lambda>k. point_ok latest (4, k)) [0, 1, 2]"
  by code_simp

lemma points_ok_5: "list_all (\<lambda>k. point_ok latest (5, k)) [0, 1, 2]"
  by code_simp

lemma points_ok_6: "list_all (\<lambda>k. point_ok latest (6, k)) [0, 1, 2, 3]"
  by code_simp

lemma crash_points_eq:
  "crash_points = map (Pair 1) [0, 1, 2, 3, 4, 5, 6] @ map (Pair 2) [0, 1, 2] @ map (Pair 3) [0, 1, 2, 3, 4, 5] @
     map (Pair 4) [0, 1, 2] @ map (Pair 5) [0, 1, 2] @ map (Pair 6) [0, 1, 2, 3]"
  by code_simp

lemma crash_points_checked: "list_all (point_ok latest) crash_points"
  unfolding crash_points_eq list_all_append list.pred_map comp_def
  using points_ok_1 points_ok_2 points_ok_3 points_ok_4 points_ok_5 points_ok_6 by simp

lemma scripts_ok: "list_all (\<lambda>e. list_all ddl_ok (snd e)) migrations"
  by (simp add: migrations_def initial_script_def host_keys_script_def audit_log_script_def settings_script_def
      server_owner_script_def vault_key_ref_script_def)

lemma upgraded_latest: "upgraded latest d = d"
proof -
  have "list_all (has_table latest) [''users'', ''servers'', ''ssh_keys'', ''host_keys'', ''session_templates'', ''audit_log'', ''settings'']"
    "list_all (has_column latest ''servers'') [''owner_id'', ''key_source'', ''vault_key_path'']" by code_simp+
  then have tab: "\<forall>t \<in> {''users'', ''servers'', ''ssh_keys'', ''host_keys'', ''session_templates'', ''audit_log'', ''settings''}.
      has_table latest t"
    and same: "upgraded_server latest = (\<lambda>r. r)" by (simp_all add: upgraded_server_def fun_eq_iff)
  show ?thesis by (rule db.equality) (use tab in \<open>simp_all add: upgraded_sel same\<close>)
qed

lemma migrate_upgrades:
  assumes "map_prod id df_schema (migrate ol \<lparr>df_schema = sch, df_rows = no_rows\<rparr>) = (None, latest)"
  shows "migrate ol \<lparr>df_schema = sch, df_rows = d\<rparr> = (None, \<lparr>df_schema = latest, df_rows = upgraded sch d\<rparr>)"
proof -
  let ?f = "\<lparr>df_schema = sch, df_rows = d\<rparr>"
  obtain r f' where run: "migrate ol ?f = (r, f')" by fastforce
  have "map_prod id df_schema (migrate ol ?f) = (None, latest)"
    using assms migrate_loop_rows [of ?f "\<lparr>df_schema = sch, df_rows = no_rows\<rparr>" ol "currentVersion ol ?f" migrations]
    by (simp add: migrate_def currentVersion_def split: if_splits)
  with run have r: "r = None" "df_schema f' = latest" by simp_all
  have "upgraded latest (df_rows f') = upgraded sch d"
    using migrate_loop_upgraded [OF scripts_ok] run r by (fastforce simp: migrate_def)
  then show ?thesis using run r by (cases f') (simp add: upgraded_latest)
qed

text \<open>C11. Opening a database after a stop at any point of the migrations. At all points but three the
  next start brings the schema up to date, with the rows as they were, new tables empty and new
  columns at their defaults, so that a server from before ownership belongs to nobody and every
  user sees it. Where the process stopped between an added column and the record of its version,
  no later start succeeds, whatever else happens, and the file stays as it is. The error of the
  version query is dropped, but an up-to-date database is then refused and left alone.\<close>

theorem migrate_after_crash:
  assumes "(v, k) \<in> set crash_points"
  shows "(if (v, k) \<in> set stuck_points
      then \<forall>ol d. \<exists>e. migrate ol \<lparr>df_schema = schema_at v k, df_rows = d\<rparr> = (Some e, \<lparr>df_schema = schema_at v k, df_rows = d\<rparr>)
      else \<forall>d. migrate ol_ok \<lparr>df_schema = schema_at v k, df_rows = d\<rparr> =
        (None, \<lparr>df_schema = latest, df_rows = upgraded (schema_at v k) d\<rparr>)) \<and>
    (\<forall>d s u. \<not> has_column (schema_at v k) ''servers'' ''owner_id'' \<longrightarrow>
      s \<in> set (servers (upgraded (schema_at v k) d)) \<longrightarrow> visible u s) \<and>
    (\<forall>ol d. \<not> op_version ol \<longrightarrow>
      (\<exists>e. migrate ol \<lparr>df_schema = latest, df_rows = d\<rparr> = (Some e, \<lparr>df_schema = latest, df_rows = d\<rparr>)))"
proof -
  let ?sch = "schema_at v k"
  from crash_points_checked assms have "point_ok latest (v, k)" by (simp add: list_all_iff)
  then
  have chk: "if (v, k) \<in> set stuck_points then stuck_loop 0 ?sch migrations \<and> stuck_loop (recorded_version ?sch) ?sch migrations
     else map_prod id df_schema (migrate ol_ok \<lparr>df_schema = ?sch, df_rows = no_rows\<rparr>) = (None, latest)"
    by (simp only: point_ok_def Let_def fst_conv snd_conv)
  have "\<exists>e. migrate ol \<lparr>df_schema = ?sch, df_rows = d\<rparr> = (Some e, \<lparr>df_schema = ?sch, df_rows = d\<rparr>)"
    if "(v, k) \<in> set stuck_points" for ol d
    unfolding migrate_def by (rule stuck_loop_migrate) (use chk that in \<open>simp add: currentVersion_def\<close>)
  moreover have "migrate ol_ok \<lparr>df_schema = ?sch, df_rows = d\<rparr> = (None, \<lparr>df_schema = latest, df_rows = upgraded ?sch d\<rparr>)"
    if "(v, k) \<notin> set stuck_points" for d
    by (rule migrate_upgrades) (use chk that in simp)
  moreover have "visible u s"
    if "\<not> has_column ?sch ''servers'' ''owner_id''" "s \<in> set (servers (upgraded ?sch d))" for u s d
    using that by (auto simp: upgraded_sel upgraded_server_def visible_def split: if_splits)
  moreover have "\<exists>e. migrate ol \<lparr>df_schema = latest, df_rows = d\<rparr> = (Some e, \<lparr>df_schema = latest, df_rows = d\<rparr>)"
    if "\<not> op_version ol" for ol d
  proof -
    have "stuck_loop 0 latest migrations" by code_simp
    then show ?thesis
      unfolding migrate_def by (intro stuck_loop_migrate) (use that in \<open>simp add: currentVersion_def\<close>)
  qed
  ultimately show ?thesis by simp
qed

theorem migrate_after_crash_witness:
  "(5, 0) \<in> set crash_points \<and> (6, 1) \<in> set crash_points \<and>
   migrate ol_ok \<lparr>df_schema = schema_at 5 0, df_rows = no_rows\<rparr> =
     (None, \<lparr>df_schema = latest, df_rows = upgraded (schema_at 5 0) no_rows\<rparr>) \<and>
   (\<exists>e. migrate ol_ok \<lparr>df_schema = schema_at 6 1, df_rows = no_rows\<rparr> =
     (Some e, \<lparr>df_schema = schema_at 6 1, df_rows = no_rows\<rparr>))"
proof -
  have p: "(5, 0) \<in> set crash_points" "(6, 1) \<in> set crash_points" by (simp_all add: crash_points_eq)
  have s: "(5, 0) \<notin> set stuck_points" "(6, 1) \<in> set stuck_points" by (simp_all add: stuck_points_def)
  from migrate_after_crash [OF p(1)] migrate_after_crash [OF p(2)] p s show ?thesis
    by (simp only: if_True if_False simp_thms)
qed

end
