(* ===== verification/Startup.thy ===== *)
theory Startup
  imports Access Migrations
begin

text \<open>
  The program from its start to its end: \<open>cmd/server/main.go\<close> with \<open>server.New\<close>,
  \<open>ListenAndServe\<close> and \<open>metrics.Init\<close>. The goroutine that polls the session manager runs beside
  \<open>main\<close>; here its first poll comes when the server is made. The theorems compare a change of the
  settings while the server runs with a restart on the same database.
\<close>

section \<open>Metrics and logging\<close>

text \<open>The gauges and counters that \<open>metrics.Init\<close> makes; before it they are nil. The counter of HTTP
  requests is a field of the server's record and starts at 0 in \<open>New\<close>; the histogram of durations is
  written only.\<close>

definition Metrics_Init :: "('w, 'a) term_state_scheme \<Rightarrow> ('w, 'a) term_state_scheme" where
  "Metrics_Init s = s\<lparr>m_ssh_conns := Some 0, m_sessions := Some Map.empty, m_ws := Some 0,
     m_auth_failures := Some (\<lambda>_. 0), m_ssh_errors := Some (\<lambda>_. 0)\<rparr>"

datatype log_level = LevelDebug | LevelInfo | LevelWarn | LevelError

text \<open>No rune outside ASCII has a letter of the three names as its lower case.\<close>

definition lower_ascii :: "char \<Rightarrow> char" where
  "lower_ascii c = (let n = (of_char c :: nat) in if 65 \<le> n \<and> n \<le> 90 then char_of (n + 32) else c)"

definition parseLogLevel :: "string \<Rightarrow> log_level" where
  "parseLogLevel s =
     (let l = map lower_ascii s in
      if l = ''debug'' then LevelDebug
      else if l = ''warn'' then LevelWarn
      else if l = ''error'' then LevelError
      else LevelInfo)"

section \<open>Making the server\<close>

text \<open>The configuration: the settings count only where the query succeeds and there are any.\<close>

definition start_config :: "env \<Rightarrow> db \<Rightarrow> config" where
  "start_config getenv d =
     (case GetAllSettings d of
        Inl _ \<Rightarrow> Load getenv
      | Inr m \<Rightarrow> if settings d = [] then Load getenv else ApplyDBSettings getenv m (Load getenv))"

definition start_keystore :: "'w vault_lib \<Rightarrow> config \<Rightarrow> inner_ks option" where
  "start_keystore vl cfg =
     (if KeyStoreBackend cfg = ''vault''
      then map_option VaultKeyStore (NewVault vl (VaultAddr cfg) (VaultToken cfg) (VaultSecretPath cfg))
      else Some (LocalKeyStore (if EncryptionSecret cfg = [] then SessionSecret cfg else EncryptionSecret cfg)))"

text \<open>The store, the key store, the pool and the session manager before the first poll.\<close>

definition start_state :: "db \<Rightarrow> inner_ks \<Rightarrow> 'w \<Rightarrow> 'w term_state" where
  "start_state d ks w = Metrics_Init
     \<lparr>st_db = d, m_auth_failures = None, ks_inner = ks, world = w, conns = Map.empty, m_ssh_conns = None,
      m_ssh_errors = None, sm_sessions = Map.empty, sm_intervalCh = None, m_sessions = None, m_ws = None\<rparr>"

definition New :: "config \<Rightarrow> time \<Rightarrow> 'w term_state \<Rightarrow> rl_panic + 'w app" where
  "New cfg started s =
     (case NewRateLimiter (LoginRateLimit cfg) (LoginRateWindow cfg) of
        Inl e \<Rightarrow> Inl e
      | Inr rl \<Rightarrow> Inr (term_state.extend s
          \<lparr>app_cfg = cfg, app_oidc = None, app_limiter = rl, app_secret = SessionSecret cfg,
           app_idle = wrap64 (TerminalIdleTimeout cfg * 1000000000), app_start = started, m_http = Some (\<lambda>_. 0)\<rparr>))"

definition SetOIDCHandler :: "oidc_handler \<Rightarrow> ('w, 'a) app_scheme \<Rightarrow> ('w, 'a) app_scheme" where
  "SetOIDCHandler h s = s\<lparr>app_oidc := Some h\<rparr>"

definition start_oidc :: "oidc_lib \<Rightarrow> ('w, 'a) app_scheme \<Rightarrow> ('w, 'a) app_scheme" where
  "start_oidc ol s =
     (let cfg = app_cfg s in
      if OIDCIssuerURL cfg \<noteq> [] \<and> OIDCClientID cfg \<noteq> [] then
        (case NewOIDCHandler ol cfg True of None \<Rightarrow> s | Some h \<Rightarrow> SetOIDCHandler h s)
      else s)"

section \<open>main\<close>

text \<open>Every way \<open>main\<close> can end before it serves. The embedded static files cannot be missing.\<close>

datatype start_error =
    NoSessionSecret | OpenError open_error | SeedError store_error | VaultError | PollPanic | LimiterPanic rl_panic

record start_inputs =
  si_open :: open_lib
  si_now :: time
  si_rnds :: "bytes list"

definition start_polling ::
  "'w libs \<Rightarrow> time \<Rightarrow> config \<Rightarrow> ('w, 'a) mgr_state_scheme \<Rightarrow> (poller option \<times> ('w, 'a) mgr_state_scheme) option" where
  "start_polling L now cfg s =
     (if PollInterval cfg > 0
      then map_option (\<lambda>(p, s'). (Some p, s')) (StartPolling L now (wrap64 (PollInterval cfg * 1000000000)) s)
      else Some (None, s))"

definition main_start ::
  "'w app_libs \<Rightarrow> start_inputs \<Rightarrow> 'w \<Rightarrow> db_file \<Rightarrow> (start_error + poller option \<times> 'w app) \<times> db_file" where
  "main_start A si w f =
     (if SessionSecret (Load (al_env A)) = [] then (Inl NoSessionSecret, f)
      else case Open (si_open si) f of
        (Inl e, f1) \<Rightarrow> (Inl (OpenError e), f1)
      | (Inr d, f1) \<Rightarrow>
          (case SeedTemplates d (si_now si) (si_rnds si) of
             (Some e, d1) \<Rightarrow> (Inl (SeedError e), f1\<lparr>df_rows := d1\<rparr>)
           | (None, d1) \<Rightarrow>
               (let cfg = start_config (al_env A) d1 in
                case start_keystore (lib_vault (al_libs A)) cfg of
                  None \<Rightarrow> (Inl VaultError, f1\<lparr>df_rows := d1\<rparr>)
                | Some ks \<Rightarrow>
                    (case New cfg (si_now si) (start_state d1 ks w) of
                       Inl e \<Rightarrow> (Inl (LimiterPanic e), f1\<lparr>df_rows := d1\<rparr>)
                     | Inr s1 \<Rightarrow>
                         (case start_polling (al_libs A) (si_now si) cfg (start_oidc (al_oidc A) s1) of
                            None \<Rightarrow> (Inl PollPanic, f1\<lparr>df_rows := d1\<rparr>)
                          | Some (p, s2) \<Rightarrow> (Inr (p, s2), f1\<lparr>df_rows := st_db s2\<rparr>))))))"

text \<open>
  Serving ends when the listener fails or a signal arrives; the drain before the return has thirty
  seconds, and its failure is only logged. Where the listener failed the program exits at once,
  else it signals the poller to stop and closes the pool (in the order the map of clients is ranged
  over), without waiting for a poll in progress.
\<close>

datatype serve_end = ListenerFailed | Signalled bool

definition ListenAndServe :: "serve_end \<Rightarrow> bool" where
  "ListenAndServe e = (case e of ListenerFailed \<Rightarrow> False | Signalled drained \<Rightarrow> True)"

definition main_end ::
  "'w libs \<Rightarrow> serve_end \<Rightarrow> string list \<Rightarrow> poller option \<times> ('w, 'a) app_scheme \<Rightarrow> int \<times> poller option \<times> ('w, 'a) app_scheme" where
  "main_end L e order ps =
     (if \<not> ListenAndServe e then (1, ps)
      else (0, map_option Manager_Stop (fst ps), Pool_Close L order (snd ps)))"

section \<open>Settings applied twice\<close>

text \<open>Applying new settings on top of old ones leaves no trace of the old, if no value has become
  empty and no number unreadable.\<close>

definition int_settings :: "string set" where
  "int_settings = {''general.poll_interval'', ''general.terminal_idle_timeout''}"

definition supersedes :: "db_settings \<Rightarrow> db_settings \<Rightarrow> bool" where
  "supersedes new old \<longleftrightarrow> (\<forall>k. db_get old k \<noteq> [] \<longrightarrow> db_get new k \<noteq> []) \<and>
     (\<forall>k \<in> int_settings. db_get new k = db_get old k \<or> snd (Atoi (db_get new k)) = None)"

lemma applyInt_eq:
  "applyInt getenv db ev k f =
    (if getenv ev = [] \<and> db_get db k \<noteq> [] \<and> snd (Atoi (db_get db k)) = None then fst (Atoi (db_get db k)) else f)"
  by (auto simp: applyInt_def db_get_def split: option.splits prod.splits)

lemma applyBool_eq:
  "applyBool getenv db ev k f = (if getenv ev = [] \<and> db_get db k \<noteq> [] then db_get db k = ''true'' else f)"
  by (auto simp: applyBool_def db_get_def split: option.splits)

lemma applyStr_twice: "supersedes new old \<Longrightarrow> applyStr e new ev k (applyStr e old ev k f) = applyStr e new ev k f"
  by (auto simp: applyStr_eq supersedes_def)

lemma applyBool_twice: "supersedes new old \<Longrightarrow> applyBool e new ev k (applyBool e old ev k f) = applyBool e new ev k f"
  by (auto simp: applyBool_eq supersedes_def)

lemma applyInt_twice:
  "supersedes new old \<Longrightarrow> k \<in> int_settings \<Longrightarrow> applyInt e new ev k (applyInt e old ev k f) = applyInt e new ev k f"
  by (auto simp: applyInt_eq supersedes_def)

lemma ApplyDBSettings_sel:
  fixes c :: config and e db
  defines "a \<equiv> applyStr e db" and "c' \<equiv> ApplyDBSettings e db c"
  shows "OIDCIssuerURL c' = a ''OVERLAY_OIDC_ISSUER_URL'' ''oidc.issuer_url'' (OIDCIssuerURL c)"
    "OIDCClientID c' = a ''OVERLAY_OIDC_CLIENT_ID'' ''oidc.client_id'' (OIDCClientID c)"
    "OIDCClientSecret c' = a ''OVERLAY_OIDC_CLIENT_SECRET'' ''oidc.client_secret'' (OIDCClientSecret c)"
    "OIDCRedirectURL c' = a ''OVERLAY_OIDC_REDIRECT_URL'' ''oidc.redirect_url'' (OIDCRedirectURL c)"
    "OIDCRolesClaim c' = a ''OVERLAY_OIDC_ROLES_CLAIM'' ''oidc.roles_claim'' (OIDCRolesClaim c)"
    "OIDCAdminGroup c' = a ''OVERLAY_OIDC_ADMIN_GROUP'' ''oidc.admin_group'' (OIDCAdminGroup c)"
    "VaultAddr c' = a ''OVERLAY_VAULT_ADDR'' ''vault.address'' (VaultAddr c)"
    "VaultToken c' = a ''OVERLAY_VAULT_TOKEN'' ''vault.token'' (VaultToken c)"
    "VaultSecretPath c' = a ''OVERLAY_VAULT_SECRET_PATH'' ''vault.secret_path'' (VaultSecretPath c)"
    "AuthMode c' = a ''OVERLAY_AUTH_MODE'' ''general.auth_mode'' (AuthMode c)"
    "LogLevel c' = a ''OVERLAY_LOG_LEVEL'' ''general.log_level'' (LogLevel c)"
    "KeyStoreBackend c' = a ''OVERLAY_KEYSTORE_BACKEND'' ''general.keystore_backend''
       (if VaultAddr c' \<noteq> [] \<and> VaultToken c' \<noteq> [] then ''vault'' else KeyStoreBackend c)"
    "PollInterval c' = applyInt e db ''OVERLAY_POLL_INTERVAL'' ''general.poll_interval'' (PollInterval c)"
    "TerminalIdleTimeout c' = applyInt e db ''OVERLAY_TERMINAL_IDLE_TIMEOUT'' ''general.terminal_idle_timeout'' (TerminalIdleTimeout c)"
    "EmergencyLocalAuth c' = applyBool e db ''OVERLAY_EMERGENCY_LOCAL_AUTH'' ''general.emergency_local_auth'' (EmergencyLocalAuth c)"
    "Listen c' = Listen c" "DBPath c' = DBPath c" "SessionSecret c' = SessionSecret c" "EncryptionSecret c' = EncryptionSecret c"
    "LoginRateLimit c' = LoginRateLimit c" "LoginRateWindow c' = LoginRateWindow c" "ReadyzRequireServer c' = ReadyzRequireServer c"
  by (simp_all add: a_def c'_def apply_defs)

lemma backend_twice:
  fixes e new old
  assumes sup: "supersedes new old"
  defines "c2 \<equiv> ApplyDBSettings e new (ApplyDBSettings e old (Load e))" and "c1 \<equiv> ApplyDBSettings e new (Load e)"
  shows "KeyStoreBackend c2 = KeyStoreBackend c1"
proof -
  let ?o = "ApplyDBSettings e old (Load e)"
  have same: "VaultAddr c2 = VaultAddr c1" "VaultToken c2 = VaultToken c1"
    unfolding c2_def c1_def ApplyDBSettings_sel by (simp_all add: applyStr_twice [OF sup])
  have more: "VaultAddr ?o \<noteq> [] \<Longrightarrow> VaultAddr c1 \<noteq> []" "VaultToken ?o \<noteq> [] \<Longrightarrow> VaultToken c1 \<noteq> []"
    using sup unfolding c1_def ApplyDBSettings_sel by (auto simp: applyStr_eq supersedes_def split: if_splits)
  show ?thesis
  proof (cases "VaultAddr c1 \<noteq> [] \<and> VaultToken c1 \<noteq> []")
    case True
    then show ?thesis using same unfolding c2_def c1_def by (simp add: ApplyDBSettings_sel(12))
  next
    case False
    then have "KeyStoreBackend ?o = applyStr e old ''OVERLAY_KEYSTORE_BACKEND'' ''general.keystore_backend'' (KeyStoreBackend (Load e))"
      using more by (auto simp: ApplyDBSettings_sel(12))
    with False same show ?thesis unfolding c2_def c1_def
      by (auto simp: ApplyDBSettings_sel(12) [of e new] applyStr_twice [OF sup])
  qed
qed

lemma settings_twice:
  assumes sup: "supersedes new old"
  shows "ApplyDBSettings e new (ApplyDBSettings e old (Load e)) = ApplyDBSettings e new (Load e)"
proof (rule config.equality)
  let ?l = "ApplyDBSettings e new (ApplyDBSettings e old (Load e))" and ?r = "ApplyDBSettings e new (Load e)"
  show "KeyStoreBackend ?l = KeyStoreBackend ?r" by (rule backend_twice) (rule sup)
  show "PollInterval ?l = PollInterval ?r" "TerminalIdleTimeout ?l = TerminalIdleTimeout ?r"
    using applyInt_twice [OF sup] by (simp_all add: ApplyDBSettings_sel int_settings_def)
qed (simp_all add: ApplyDBSettings_sel applyStr_twice [OF sup] applyBool_twice [OF sup])

section \<open>A change of the settings\<close>

lemma map_of_replace: "map_of (filter (\<lambda>kv. fst kv \<noteq> k) xs @ [(k, v)]) = (map_of xs)(k \<mapsto> v)"
proof
  fix x
  have "map_of (filter (\<lambda>kv. fst kv \<noteq> k) xs) x = (if x = k then None else map_of xs x)"
    by (induction xs) auto
  then show "map_of (filter (\<lambda>kv. fst kv \<noteq> k) xs @ [(k, v)]) x = ((map_of xs)(k \<mapsto> v)) x"
    by (auto simp: map_add_def split: option.splits)
qed

lemma save_settings_ok:
  "save_settings kvs d = (None, d') \<Longrightarrow> distinct (map fst kvs) \<Longrightarrow>
    d' = d\<lparr>settings := settings d'\<rparr> \<and> map_of (settings d') = map_of (settings d) ++ map_of kvs \<and>
    (kvs \<noteq> [] \<longrightarrow> settings d' \<noteq> [])"
proof (induction kvs arbitrary: d)
  case (Cons kv kvs)
  obtain k v where kv: "kv = (k, v)" by fastforce
  let ?d = "d\<lparr>settings := filter (\<lambda>kv. fst kv \<noteq> k) (settings d) @ [(k, v)]\<rparr>"
  have set: "SetSetting d k v = Inr ?d" and rest: "save_settings kvs ?d = (None, d')"
    using Cons.prems kv by (auto simp: SetSetting_def split: if_splits)
  have new: "k \<notin> fst ` set kvs" and dist: "distinct (map fst kvs)" using Cons.prems kv by auto
  have e: "map_of (settings ?d) = (map_of (settings d))(k \<mapsto> v)"
    unfolding db.select_convs db.update_convs by (simp only: map_of_replace [symmetric]) simp
  from Cons.IH [OF rest dist, unfolded e] have d': "d' = ?d\<lparr>settings := settings d'\<rparr>"
    and m: "map_of (settings d') = (map_of (settings d))(k \<mapsto> v) ++ map_of kvs"
    and ne: "kvs \<noteq> [] \<longrightarrow> settings d' \<noteq> []" by blast+
  have "map_of kvs k = None" using new by (simp add: map_of_eq_None_iff)
  then have "(map_of (settings d))(k \<mapsto> v) ++ map_of kvs = map_of (settings d) ++ map_of ((k, v) # kvs)"
    by (auto simp: map_add_def fun_eq_iff split: option.splits)
  with m have m': "map_of (settings d') = map_of (settings d) ++ map_of ((k, v) # kvs)" by (rule trans)
  have "d' = d\<lparr>settings := settings d'\<rparr>" using d' by simp
  moreover have "settings d' \<noteq> []" using m ne by (cases "settings d'") (auto simp: map_add_def fun_eq_iff split: option.splits if_splits)
  ultimately show ?case unfolding kv using m' by blast
qed simp



lemma handleUpdateSettings_ok:
  assumes "handleUpdateSettings A inp r s = (rs, s')" and "rs_Code rs = 200"
  obtains updates d' s2 where "decode_string_map (rq_JSON r) = Some updates" "updates \<noteq> []"
    "save_settings (in_order inp updates) (st_db s) = (None, d')" "\<not> fault d' QAllSettings"
    "reload A updates (s\<lparr>st_db := d', app_cfg := ApplyDBSettings (al_env A) (map_of (settings d')) (app_cfg s)\<rparr>) = (None, s2)"
    "rs = reply 200 (json_resolved (ResolveSettings (al_env A) (map_of (settings d'))))"
    "s' = logAudit (in_draws inp) r (rq_User r) AuditSettingsUpdate ''settings'' []
       (''{\"keys\":'' @ fmt_q_list (tx_print (al_text A)) (map fst (in_keys inp updates)) @ ''}'') s2"
  using assms
  by (auto simp: handleUpdateSettings_def Let_def GetAllSettings_def split: option.splits prod.splits sum.splits if_splits)

lemma logAudit_keeps:
  fixes s s' :: "('w, 'a) app_scheme"
  assumes "s' = logAudit dr r u a tt ti det s"
  shows "settings (st_db s') = settings (st_db s)" "fault (st_db s') = fault (st_db s)" "app_cfg s' = app_cfg s"
    "app_oidc s' = app_oidc s" "ks_inner s' = ks_inner s"
  by (simp_all add: assms logAudit_def Let_def write_audit_def LogAudit_def after_def)

text \<open>What the re-initialisation leaves, if applying the settings once more changes nothing: the
  configuration, and where it had to act, the OIDC handler and the key store of that configuration.\<close>

definition hot_oidc :: "oidc_lib \<Rightarrow> config \<Rightarrow> oidc_handler option" where
  "hot_oidc ol cfg =
     (if OIDCIssuerURL cfg = [] \<or> OIDCClientID cfg = [] then None else NewOIDCHandler ol cfg False)"

definition hot_keystore :: "'w vault_lib \<Rightarrow> config \<Rightarrow> inner_ks option" where
  "hot_keystore vl cfg =
     (if VaultAddr cfg = [] \<or> VaultToken cfg = []
      then Some (LocalKeyStore (if EncryptionSecret cfg = [] then SessionSecret cfg else EncryptionSecret cfg))
      else map_option VaultKeyStore (NewVault vl (VaultAddr cfg) (VaultToken cfg) (VaultSecretPath cfg)))"

lemma reinitOIDC_ok:
  assumes "reinitOIDC A s = (True, s2)"
    and "ApplyDBSettings (al_env A) (current_settings (st_db s)) (app_cfg s) = app_cfg s"
  shows "s2 = s\<lparr>app_oidc := hot_oidc (al_oidc A) (app_cfg s)\<rparr>"
  using assms by (auto simp: reinitOIDC_def hot_oidc_def split: if_splits option.splits)

lemma reinitVault_ok:
  assumes "reinitVault A s = (True, s2)"
    and "ApplyDBSettings (al_env A) (current_settings (st_db s)) (app_cfg s) = app_cfg s"
  shows "\<exists>ks. hot_keystore (lib_vault (al_libs A)) (app_cfg s) = Some ks \<and> s2 = s\<lparr>ks_inner := ks\<rparr>"
  using assms by (auto simp: reinitVault_def hot_keystore_def KS_Swap_def Let_def split: if_splits option.splits)

lemma reload_ok:
  assumes ok: "reload A updates s = (None, s2)"
    and same: "ApplyDBSettings (al_env A) (current_settings (st_db s)) (app_cfg s) = app_cfg s"
  shows "app_cfg s2 = app_cfg s \<and> st_db s2 = st_db s \<and>
    (list_ex (\<lambda>kv. HasPrefix (fst kv) ''oidc.'') updates \<longrightarrow> app_oidc s2 = hot_oidc (al_oidc A) (app_cfg s)) \<and>
    (list_ex (\<lambda>kv. HasPrefix (fst kv) ''vault.'') updates \<longrightarrow>
      hot_keystore (lib_vault (al_libs A)) (app_cfg s) = Some (ks_inner s2))"
proof -
  let ?o = "list_ex (\<lambda>kv. HasPrefix (fst kv) ''oidc.'') updates" and ?v = "list_ex (\<lambda>kv. HasPrefix (fst kv) ''vault.'') updates"
  obtain ok1 s1 where r1: "(if ?o then reinitOIDC A s else (True, s)) = (ok1, s1)" by fastforce
  obtain ok2 s3 where r2: "(if ?v then reinitVault A s1 else (True, s1)) = (ok2, s3)" by fastforce
  have o1: ok1 using ok r1 by (auto simp: reload_def Let_def split: if_splits)
  have o2: ok2 using ok r1 r2 o1 by (auto simp: reload_def Let_def split: if_splits)
  have s2: "app_cfg s2 = app_cfg s3" "st_db s2 = st_db s3" "app_oidc s2 = app_oidc s3" "ks_inner s2 = ks_inner s3"
    using ok r1 r2 o1 o2 by (auto simp: reload_def Let_def UpdateInterval_def split: if_splits)
  have s1: "s1 = (if ?o then s\<lparr>app_oidc := hot_oidc (al_oidc A) (app_cfg s)\<rparr> else s)"
    using r1 o1 reinitOIDC_ok [OF _ same] by (auto split: if_splits)
  then have "ApplyDBSettings (al_env A) (current_settings (st_db s1)) (app_cfg s1) = app_cfg s1"
    using same by simp
  with r2 o2 have s3: "if ?v then \<exists>ks. hot_keystore (lib_vault (al_libs A)) (app_cfg s1) = Some ks \<and> s3 = s1\<lparr>ks_inner := ks\<rparr> else s3 = s1"
    using reinitVault_ok [of A s1 s3] by (auto split: if_splits)
  show ?thesis using s1 s3 s2 by (auto split: if_splits)
qed

section \<open>A restart\<close>

lemma migrate_latest: "op_version ol \<Longrightarrow> migrate ol \<lparr>df_schema = latest, df_rows = d\<rparr> = (None, \<lparr>df_schema = latest, df_rows = d\<rparr>)"
proof -
  assume v: "op_version ol"
  have "recorded_version latest = 6" by code_simp
  with v show ?thesis by (simp add: migrate_def currentVersion_def migrations_def)
qed

lemma Open_latest: "Open ol \<lparr>df_schema = latest, df_rows = d\<rparr> = (Inr d', f') \<Longrightarrow> d' = d"
proof -
  assume o: "Open ol \<lparr>df_schema = latest, df_rows = d\<rparr> = (Inr d', f')"
  show ?thesis
  proof (cases "op_version ol")
    case True
    then show ?thesis using o by (auto simp: Open_def migrate_latest split: if_splits)
  next
    case False
    have "stuck_loop 0 latest migrations" by code_simp
    with False stuck_loop_migrate [of 0 "\<lparr>df_schema = latest, df_rows = d\<rparr>" migrations ol]
    show ?thesis using o by (auto simp: Open_def migrate_def currentVersion_def split: if_splits)
  qed
qed

text \<open>The first poll leaves the configuration, the OIDC handler and the key store alone.\<close>

definition live_parts :: "('w, 'a) app_scheme \<Rightarrow> config \<times> oidc_handler option \<times> inner_ks" where
  "live_parts s = (app_cfg s, app_oidc s, ks_inner s)"

interpretation pool_live: pool_invariant L "\<lambda>s. live_parts s = k" for L k
  by unfold_locales (auto simp: live_parts_def gauge_add_def count_ssh_error_def hostKeyCallback_def hostKey_decide_def split: sum.splits)

lemma poll_one_live: "live_parts (poll_one L now srv s) = live_parts s"
proof -
  have "live_parts (snd (ListSessions L now srv s)) = live_parts s"
    using pool_live.exec [of s "live_parts s" L now "srv_ID srv" list_command]
    by (auto simp: ListSessions_def split: prod.splits option.splits)
  then show ?thesis
    by (auto simp: live_parts_def poll_one_def set_sessions_gauge_def set_status_def Let_def split: prod.splits sum.splits)
qed

lemma start_polling_live: "start_polling L now cfg s = Some (p, s') \<Longrightarrow> live_parts s' = live_parts s"
proof -
  have "live_parts (fold (poll_one L now) srvs s) = live_parts s" for srvs
    by (induction srvs arbitrary: s) (simp_all add: poll_one_live)
  then show "start_polling L now cfg s = Some (p, s') \<Longrightarrow> ?thesis"
    by (auto simp: start_polling_def StartPolling_def pollAll_def split: if_splits sum.splits)
qed

lemma start_config_seed:
  "SeedTemplates d now rnds = (e, d') \<Longrightarrow> start_config getenv d' = start_config getenv d"
  using seed_loop_extends [of d now defaultTemplates rnds]
  by (auto simp: SeedTemplates_def start_config_def GetAllSettings_def)

lemma main_start_running:
  assumes "main_start A si w \<lparr>df_schema = latest, df_rows = d\<rparr> = (Inr (p, s), f')"
  shows "app_cfg s = start_config (al_env A) d \<and>
    start_keystore (lib_vault (al_libs A)) (app_cfg s) = Some (ks_inner s) \<and>
    app_oidc s = (if OIDCIssuerURL (app_cfg s) = [] \<or> OIDCClientID (app_cfg s) = [] then None
      else NewOIDCHandler (al_oidc A) (app_cfg s) True)"
proof -
  let ?cfg = "start_config (al_env A) d"
  from assms obtain d0 f1 where op: "Open (si_open si) \<lparr>df_schema = latest, df_rows = d\<rparr> = (Inr d0, f1)"
    by (auto simp: main_start_def split: if_splits prod.splits sum.splits)
  from Open_latest [OF this] have d0: "d0 = d" .
  from assms op obtain d1 where seed: "SeedTemplates d (si_now si) (si_rnds si) = (None, d1)"
    by (auto simp: main_start_def d0 split: if_splits prod.splits option.splits)
  from start_config_seed [OF seed] have cfg: "start_config (al_env A) d1 = ?cfg" .
  from assms op obtain ks where ks: "start_keystore (lib_vault (al_libs A)) ?cfg = Some ks"
    by (auto simp: main_start_def d0 seed cfg Let_def split: if_splits option.splits)
  from assms op obtain s1 where new: "New ?cfg (si_now si) (start_state d1 ks w) = Inr s1"
    and poll: "start_polling (al_libs A) (si_now si) ?cfg (start_oidc (al_oidc A) s1) = Some (p, s)"
    by (auto simp: main_start_def d0 seed cfg ks Let_def split: if_splits option.splits sum.splits)
  have "app_cfg s1 = ?cfg" "app_oidc s1 = None" "ks_inner s1 = ks"
    using new by (auto simp: New_def term_state.defs start_state_def Metrics_Init_def split: sum.splits)
  with start_polling_live [OF poll] ks show ?thesis
    by (auto simp: live_parts_def start_oidc_def SetOIDCHandler_def Let_def split: option.splits if_splits)
qed

section \<open>Properties\<close>

lemma supersedes_refl: "supersedes m m"
  by (simp add: supersedes_def)

lemma supersedes_updates:
  assumes "\<forall>(k, v) \<in> set kvs. v \<noteq> [] \<and> (k \<in> int_settings \<longrightarrow> snd (Atoi v) = None)"
  shows "supersedes (old ++ map_of kvs) old"
proof -
  have "db_get (old ++ map_of kvs) k = db_get old k \<or>
      db_get (old ++ map_of kvs) k \<noteq> [] \<and> (k \<in> int_settings \<longrightarrow> snd (Atoi (db_get (old ++ map_of kvs) k)) = None)" for k
    using assms by (cases "map_of kvs k") (auto simp: db_get_def map_add_def dest!: map_of_SomeD)
  then show ?thesis unfolding supersedes_def by metis
qed

text \<open>The configuration after a successful change, if it was one of a start before.\<close>

lemma changed_config:
  assumes live: "app_cfg s = start_config (al_env A) (st_db s)"
    and order: "set (in_order inp updates) = set updates" "distinct (map fst (in_order inp updates))"
    and vals: "\<forall>(k, v) \<in> set updates. v \<noteq> [] \<and> (k \<in> int_settings \<longrightarrow> snd (Atoi v) = None)"
    and ne: "updates \<noteq> []"
    and save: "save_settings (in_order inp updates) (st_db s) = (None, d')" and q: "\<not> fault d' QAllSettings"
  shows "ApplyDBSettings (al_env A) (map_of (settings d')) (app_cfg s) = start_config (al_env A) d' \<and>
    ApplyDBSettings (al_env A) (map_of (settings d')) (start_config (al_env A) d') = start_config (al_env A) d'"
proof -
  let ?old = "map_of (settings (st_db s))" and ?new = "map_of (settings d')"
  have kvs: "in_order inp updates \<noteq> []" using ne order(1) by (metis set_empty)
  from save_settings_ok [OF save order(2)] kvs
  have d': "d' = (st_db s)\<lparr>settings := settings d'\<rparr>" and new: "?new = ?old ++ map_of (in_order inp updates)"
    and filled: "settings d' \<noteq> []" by blast+
  have "fault (st_db s) = fault d'" using arg_cong [OF d', of fault] by simp
  with q have q': "\<not> fault (st_db s) QAllSettings" by simp
  have sup: "supersedes ?new ?old" unfolding new by (rule supersedes_updates) (use vals order(1) in simp)
  have cfg: "start_config (al_env A) d' = ApplyDBSettings (al_env A) ?new (Load (al_env A))"
    using q filled by (simp add: start_config_def GetAllSettings_def)
  have "app_cfg s = Load (al_env A) \<or> app_cfg s = ApplyDBSettings (al_env A) ?old (Load (al_env A))"
    using live q' by (auto simp: start_config_def GetAllSettings_def)
  then show ?thesis using settings_twice [OF sup] settings_twice [OF supersedes_refl] cfg by auto
qed

text \<open>C10. When a change of the settings while the server runs has the effect of saving them and
  starting again. Let the live configuration be the one a start on the database gives, no updated
  value be empty, no updated number unreadable, and the answer 200. Then a restart on the resulting
  database has the same configuration. Where a key with the prefix \<open>oidc.\<close> is among the updates, it
  has the same OAuth client (provider, client and redirect). Where a key with the prefix \<open>vault.\<close> is
  among them and the backend is \<open>vault\<close> exactly when a Vault address and token are set, it has the
  same key store; otherwise the running server keeps the key store it had or one that follows the
  Vault settings, while a restart follows \<open>keystore_backend\<close>.\<close>

theorem settings_change_equals_restart:
  assumes live: "app_cfg s = start_config (al_env A) (st_db s)"
    and ans: "handleUpdateSettings A inp r s = (rs, s')" "rs_Code rs = 200"
    and upd: "decode_string_map (rq_JSON r) = Some updates" "set (in_order inp updates) = set updates"
      "distinct (map fst (in_order inp updates))"
    and vals: "\<forall>(k, v) \<in> set updates. v \<noteq> [] \<and> (k \<in> int_settings \<longrightarrow> snd (Atoi v) = None)"
    and restart: "main_start A si w \<lparr>df_schema = latest, df_rows = st_db s'\<rparr> = (Inr (p, s''), f')"
  shows "app_cfg s'' = app_cfg s' \<and>
    (list_ex (\<lambda>kv. HasPrefix (fst kv) ''oidc.'') updates \<longrightarrow>
      map_option oh_oauth (app_oidc s'') = map_option oh_oauth (app_oidc s')) \<and>
    (list_ex (\<lambda>kv. HasPrefix (fst kv) ''vault.'') updates \<longrightarrow>
      (KeyStoreBackend (app_cfg s') = ''vault'' \<longleftrightarrow> VaultAddr (app_cfg s') \<noteq> [] \<and> VaultToken (app_cfg s') \<noteq> []) \<longrightarrow>
      ks_inner s'' = ks_inner s')"
proof -
  let ?e = "al_env A"
  obtain upds d' s2 where run: "decode_string_map (rq_JSON r) = Some upds" "upds \<noteq> []"
      "save_settings (in_order inp upds) (st_db s) = (None, d')" and q: "\<not> fault d' QAllSettings"
      and rel0: "reload A upds (s\<lparr>st_db := d', app_cfg := ApplyDBSettings ?e (map_of (settings d')) (app_cfg s)\<rparr>) = (None, s2)"
      and s'_eq: "s' = logAudit (in_draws inp) r (rq_User r) AuditSettingsUpdate ''settings'' []
        (''{\"keys\":'' @ fmt_q_list (tx_print (al_text A)) (map fst (in_keys inp upds)) @ ''}'') s2"
    by (rule handleUpdateSettings_ok [OF ans])
  have "upds = updates" using run(1) upd(1) by simp
  note ne = run(2) [unfolded this] and save = run(3) [unfolded this] and rel = rel0 [unfolded this]
  from changed_config [OF live upd(2,3) vals ne save q]
  have cfg: "ApplyDBSettings ?e (map_of (settings d')) (app_cfg s) = start_config ?e d'"
    and again: "ApplyDBSettings ?e (map_of (settings d')) (start_config ?e d') = start_config ?e d'" by auto
  have "current_settings d' = map_of (settings d')" using q by (simp add: current_settings_def GetAllSettings_def)
  with again reload_ok [OF rel] have s2: "app_cfg s2 = start_config ?e d'" "st_db s2 = d'"
    "list_ex (\<lambda>kv. HasPrefix (fst kv) ''oidc.'') updates \<longrightarrow> app_oidc s2 = hot_oidc (al_oidc A) (start_config ?e d')"
    "list_ex (\<lambda>kv. HasPrefix (fst kv) ''vault.'') updates \<longrightarrow>
      hot_keystore (lib_vault (al_libs A)) (start_config ?e d') = Some (ks_inner s2)"
    by (simp_all add: cfg)
  note k = logAudit_keeps [OF s'_eq]
  have "start_config ?e (st_db s') = start_config ?e d'"
    using k s2(2) by (simp add: start_config_def GetAllSettings_def)
  with main_start_running [OF restart] have s'': "app_cfg s'' = start_config ?e d'"
    "start_keystore (lib_vault (al_libs A)) (start_config ?e d') = Some (ks_inner s'')"
    "app_oidc s'' = (if OIDCIssuerURL (start_config ?e d') = [] \<or> OIDCClientID (start_config ?e d') = [] then None
      else NewOIDCHandler (al_oidc A) (start_config ?e d') True)" by auto
  have "map_option oh_oauth (app_oidc s'') = map_option oh_oauth (hot_oidc (al_oidc A) (start_config ?e d'))"
    unfolding s''(3) by (simp add: hot_oidc_def NewOIDCHandler_def)
  moreover have "start_keystore vl c = hot_keystore vl c"
    if "KeyStoreBackend c = ''vault'' \<longleftrightarrow> VaultAddr c \<noteq> [] \<and> VaultToken c \<noteq> []" for vl :: "'a vault_lib" and c
    using that by (auto simp: start_keystore_def hot_keystore_def)
  ultimately show ?thesis using s2 s'' k by auto
qed

text \<open>A server with Vault settings to come.\<close>

definition demo_env :: env where
  "demo_env v = (if v = ''OVERLAY_SESSION_SECRET'' then ''k'' else if v = ''OVERLAY_POLL_INTERVAL'' then ''0'' else [])"

definition demo_hot_A :: "demo_net app_libs" where
  "demo_hot_A = demo_A\<lparr>al_env := demo_env\<rparr>"

definition demo_hot_app :: "demo_net app" where
  "demo_hot_app = demo_app\<lparr>app_cfg := Load demo_env\<rparr>"

definition demo_update :: "(string \<times> string) list \<Rightarrow> request" where
  "demo_update kvs = demo_request [] (Some (JObj (map (\<lambda>(k, v). (k, JStr v)) kvs)))"

definition demo_start :: start_inputs where
  "demo_start = \<lparr>si_open = ol_ok, si_now = 9, si_rnds = [''a'', ''b'', ''c'', ''d'', ''e'']\<rparr>"

definition demo_kvs :: "(string \<times> string) list" where
  "demo_kvs = [(''vault.address'', ''v''), (''vault.token'', ''t'')]"

lemma demo_hot_db:
  "settings (st_db demo_hot_app) = []" "fault (st_db demo_hot_app) = no_fault" "session_templates (st_db demo_hot_app) = []"
  "app_cfg demo_hot_app = Load demo_env"
  by (simp_all add: demo_hot_app_def demo_app_simps demo_pool_def demo_defs)

lemma demo_hot_save:
  "save_settings demo_kvs (st_db demo_hot_app) = (None, (st_db demo_hot_app)\<lparr>settings := demo_kvs\<rparr>)"
  by (simp add: demo_kvs_def SetSetting_def demo_hot_db no_fault_def)

lemma Load_sel:
  "KeyStoreBackend (Load e) = envOr e ''OVERLAY_KEYSTORE_BACKEND'' ''local''" "PollInterval (Load e) = envIntOr e ''OVERLAY_POLL_INTERVAL'' 30"
  "LoginRateLimit (Load e) = envIntOr e ''OVERLAY_LOGIN_RATE_LIMIT'' 5" "LoginRateWindow (Load e) = envIntOr e ''OVERLAY_LOGIN_RATE_WINDOW'' 900"
  "SessionSecret (Load e) = envOr e ''OVERLAY_SESSION_SECRET'' []" "OIDCIssuerURL (Load e) = envOr e ''OVERLAY_OIDC_ISSUER_URL'' []"
  by (simp_all add: Load_def)

lemma demo_env_cfg:
  "KeyStoreBackend (Load demo_env) = ''local''" "PollInterval (Load demo_env) = 0" "LoginRateLimit (Load demo_env) = 5"
  "LoginRateWindow (Load demo_env) = 900" "SessionSecret (Load demo_env) = ''k''" "OIDCIssuerURL (Load demo_env) = []"
proof -
  have "Atoi ''0'' = (0, None)" by code_simp
  then show "KeyStoreBackend (Load demo_env) = ''local''" "PollInterval (Load demo_env) = 0" "LoginRateLimit (Load demo_env) = 5"
    "LoginRateWindow (Load demo_env) = 900" "SessionSecret (Load demo_env) = ''k''" "OIDCIssuerURL (Load demo_env) = []"
    by (simp_all add: Load_sel envOr_def envIntOr_def demo_env_def)
qed

lemma demo_hot_cfg:
  fixes c :: config
  defines "c \<equiv> ApplyDBSettings demo_env (map_of demo_kvs) (Load demo_env)"
  shows "VaultAddr c = ''v''" "VaultToken c = ''t''" "KeyStoreBackend c = ''vault''" "PollInterval c = 0"
    "LoginRateLimit c = 5" "LoginRateWindow c = 900" "OIDCIssuerURL c = []"
  unfolding c_def
  by (simp_all add: ApplyDBSettings_sel applyStr_eq applyInt_eq db_get_def demo_kvs_def demo_env_cfg demo_env_def)

lemma demo_hot_answer:
  "\<exists>rs s'. handleUpdateSettings demo_hot_A demo_inputs (demo_update demo_kvs) demo_hot_app = (rs, s') \<and> rs_Code rs = 200 \<and>
     st_db s' = (st_db demo_hot_app)\<lparr>settings := demo_kvs, audit_log := audit_log (st_db s')\<rparr> \<and>
     app_cfg s' = ApplyDBSettings demo_env (map_of demo_kvs) (Load demo_env)"
proof -
  let ?c = "ApplyDBSettings demo_env (map_of demo_kvs) (Load demo_env)"
  let ?d = "(st_db demo_hot_app)\<lparr>settings := demo_kvs\<rparr>"
  let ?s = "demo_hot_app\<lparr>st_db := ?d, app_cfg := ?c\<rparr>"
  have dec: "decode_string_map (rq_JSON (demo_update demo_kvs)) = Some demo_kvs" by code_simp
  have twice: "ApplyDBSettings demo_env (map_of demo_kvs) ?c = ?c" by (rule settings_twice [OF supersedes_refl])
  have "reinitVault demo_hot_A ?s =
      (True, ?s\<lparr>ks_inner := VaultKeyStore \<lparr>vk_client = \<lparr>vc_addr = ''v'', vc_token = ''t''\<rparr>, vk_secretPath = VaultSecretPath ?c\<rparr>\<rparr>)"
    using demo_hot_cfg twice
    by (simp add: reinitVault_def current_settings_def GetAllSettings_def demo_hot_db no_fault_def Let_def demo_hot_A_def demo_A_def
        demo_libs_def NewVault_def demo_netvault_def KS_Swap_def)
  then obtain ks where re: "reinitVault demo_hot_A ?s = (True, ?s\<lparr>ks_inner := ks\<rparr>)" ..
  have "\<not> list_ex (\<lambda>kv. HasPrefix (fst kv) ''oidc.'') demo_kvs" "list_ex (\<lambda>kv. HasPrefix (fst kv) ''vault.'') demo_kvs"
    "\<not> list_ex (\<lambda>kv. fst kv = ''general.poll_interval'') demo_kvs" "demo_kvs \<noteq> []"
    by (simp_all add: demo_kvs_def HasPrefix_def)
  note p = this
  have rel: "reload demo_hot_A demo_kvs ?s = (None, ?s\<lparr>ks_inner := ks\<rparr>)"
    by (simp add: reload_def re p Let_def)
  have "handleUpdateSettings demo_hot_A demo_inputs (demo_update demo_kvs) demo_hot_app =
      (reply 200 (json_resolved (ResolveSettings demo_env (map_of demo_kvs))),
       logAudit (in_draws demo_inputs) (demo_update demo_kvs) (rq_User (demo_update demo_kvs)) AuditSettingsUpdate ''settings'' []
         (''{\"keys\":'' @ fmt_q_list (tx_print (al_text demo_hot_A)) (map fst (in_keys demo_inputs demo_kvs)) @ ''}'')
         (?s\<lparr>ks_inner := ks\<rparr>))"
    by (simp add: handleUpdateSettings_def dec p demo_hot_save demo_inputs_def GetAllSettings_def demo_hot_db no_fault_def
        demo_hot_A_def rel [unfolded demo_hot_A_def])
  then show ?thesis
    by (auto simp: reply_def logAudit_def write_audit_def after_def LogAudit_def Let_def)
qed

lemma demo_seed:
  assumes "session_templates d = []" and "fault d = no_fault"
  shows "\<exists>d'. SeedTemplates d 9 [''a'', ''b'', ''c'', ''d'', ''e''] = (None, d')"
proof -
  have "distinct (map newID [''a'', ''b'', ''c'', ''d'', ''e''])" by code_simp
  then show ?thesis using assms by (auto simp: SeedTemplates_def defaultTemplates_def no_fault_def Let_def)
qed

lemma demo_restart:
  assumes "settings d = demo_kvs" "fault d = no_fault" "session_templates d = []"
  shows "\<exists>p s f'. main_start demo_hot_A demo_start w \<lparr>df_schema = latest, df_rows = d\<rparr> = (Inr (p, s), f')"
proof -
  let ?c = "ApplyDBSettings demo_env (map_of demo_kvs) (Load demo_env)"
  have op: "Open ol_ok \<lparr>df_schema = latest, df_rows = d\<rparr> = (Inr d, \<lparr>df_schema = latest, df_rows = d\<rparr>)"
    using migrate_latest [of ol_ok d] by (simp add: Open_def ol_ok_def)
  from demo_seed [OF assms(3,2)] obtain d' where seed: "SeedTemplates d 9 [''a'', ''b'', ''c'', ''d'', ''e''] = (None, d')" ..
  have "start_config demo_env d' = ?c"
    using start_config_seed [OF seed, of demo_env] assms by (simp add: start_config_def GetAllSettings_def no_fault_def demo_kvs_def)
  moreover have "\<exists>ks. start_keystore demo_netvault ?c = Some ks"
    by (simp add: start_keystore_def demo_hot_cfg NewVault_def demo_netvault_def)
  moreover have "New ?c 9 s \<noteq> Inl e" for s :: "demo_net term_state" and e
    by (simp add: New_def demo_hot_cfg NewRateLimiter_def)
  moreover have "SessionSecret (Load demo_env) \<noteq> []" by (simp add: Load_def envOr_def demo_env_def)
  ultimately show ?thesis
    by (auto simp: main_start_def demo_start_def op seed demo_hot_A_def demo_A_def demo_libs_def Let_def start_polling_def demo_hot_cfg
        split: sum.splits)
qed

theorem settings_change_equals_restart_witness:
  "\<exists>rs s' p s'' f'. handleUpdateSettings demo_hot_A demo_inputs (demo_update demo_kvs) demo_hot_app = (rs, s') \<and>
     main_start demo_hot_A demo_start (world demo_app) \<lparr>df_schema = latest, df_rows = st_db s'\<rparr> = (Inr (p, s''), f') \<and>
     app_cfg s'' = app_cfg s' \<and> ks_inner s'' = ks_inner s'"
proof -
  from demo_hot_answer obtain rs s'
    where u: "handleUpdateSettings demo_hot_A demo_inputs (demo_update demo_kvs) demo_hot_app = (rs, s')" and code: "rs_Code rs = 200"
      and d: "st_db s' = (st_db demo_hot_app)\<lparr>settings := demo_kvs, audit_log := audit_log (st_db s')\<rparr>"
      and c: "app_cfg s' = ApplyDBSettings demo_env (map_of demo_kvs) (Load demo_env)" by blast
  have "settings (st_db s') = demo_kvs" "fault (st_db s') = no_fault" "session_templates (st_db s') = []"
    by (subst d, simp add: demo_hot_db)+
  from demo_restart [OF this, of "world demo_app"] obtain p s'' f'
    where m: "main_start demo_hot_A demo_start (world demo_app) \<lparr>df_schema = latest, df_rows = st_db s'\<rparr> = (Inr (p, s''), f')" by blast
  have live: "app_cfg demo_hot_app = start_config (al_env demo_hot_A) (st_db demo_hot_app)"
    by (simp add: demo_hot_A_def start_config_def GetAllSettings_def no_fault_def demo_hot_db)
  have dec: "decode_string_map (rq_JSON (demo_update demo_kvs)) = Some demo_kvs" by code_simp
  have ord: "set (in_order demo_inputs demo_kvs) = set demo_kvs" "distinct (map fst (in_order demo_inputs demo_kvs))"
    by (simp_all add: demo_inputs_def demo_kvs_def)
  have vals: "\<forall>(k, v) \<in> set demo_kvs. v \<noteq> [] \<and> (k \<in> int_settings \<longrightarrow> snd (Atoi v) = None)"
    by (simp add: demo_kvs_def int_settings_def)
  have "list_ex (\<lambda>kv. HasPrefix (fst kv) ''vault.'') demo_kvs" by (simp add: demo_kvs_def HasPrefix_def)
  with settings_change_equals_restart [OF live u code dec ord vals m] u m show ?thesis
    by (auto simp: c demo_hot_cfg)
qed

section \<open>Cleared settings\<close>









section \<open>The state after a start\<close>

lemma Open_crash:
  assumes "(v, k) \<in> set crash_points" and "Open ol_ok \<lparr>df_schema = schema_at v k, df_rows = d\<rparr> = (Inr d0, f1)"
  shows "d0 = upgraded (schema_at v k) d"
proof -
  let ?f = "\<lparr>df_schema = schema_at v k, df_rows = d\<rparr>"
  have ok: "point_ok latest (v, k)" using crash_points_checked assms(1) by (simp add: list_all_iff)
  have none: "fst (migrate ol_ok ?f) = None" and d0: "d0 = df_rows (snd (migrate ol_ok ?f))"
    using assms(2) by (auto simp: Open_def ol_ok_def split: prod.splits option.splits)
  show ?thesis
  proof (cases "(v, k) \<in> set stuck_points")
    case True
    then have "stuck_loop (currentVersion ol_ok ?f) (schema_at v k) migrations"
      using ok by (simp add: point_ok_def currentVersion_def Let_def)
    with stuck_loop_migrate [of _ ?f migrations ol_ok] none show ?thesis by (force simp: migrate_def)
  next
    case False
    with ok have "migrate ol_ok ?f = (None, \<lparr>df_schema = latest, df_rows = upgraded (schema_at v k) d\<rparr>)"
      by (intro migrate_upgrades) (simp add: point_ok_def Let_def)
    with d0 show ?thesis by simp
  qed
qed

lemma main_start_state:
  assumes "main_start A si w f = (Inr (p, s), f')"
  obtains d0 f1 d1 s1 cfg where "Open (si_open si) f = (Inr d0, f1)" "SeedTemplates d0 (si_now si) (si_rnds si) = (None, d1)"
    "start_polling (al_libs A) (si_now si) cfg s1 = Some (p, s)" "st_db s1 = d1" "conns s1 = Map.empty" "m_ssh_conns s1 = Some 0"
proof -
  from assms obtain d0 f1 d1 ks s1 cfg where op: "Open (si_open si) f = (Inr d0, f1)"
    and seed: "SeedTemplates d0 (si_now si) (si_rnds si) = (None, d1)"
    and new: "New cfg (si_now si) (start_state d1 ks w) = Inr s1"
    and poll: "start_polling (al_libs A) (si_now si) cfg (start_oidc (al_oidc A) s1) = Some (p, s)"
    by (auto simp: main_start_def Let_def split: if_splits prod.splits sum.splits option.splits)
  have "st_db (start_oidc (al_oidc A) s1) = d1 \<and> conns (start_oidc (al_oidc A) s1) = Map.empty \<and>
      m_ssh_conns (start_oidc (al_oidc A) s1) = Some 0"
    using new by (auto simp: New_def term_state.defs start_state_def Metrics_Init_def start_oidc_def SetOIDCHandler_def Let_def
        split: sum.splits option.splits)
  with that [OF op seed poll] show thesis by blast
qed

lemma seed_keeps_rows:
  assumes "SeedTemplates d now rnds = (e, d')"
  shows "db_inv d \<Longrightarrow> db_inv d'" "typed_db d \<Longrightarrow> typed_db d'"
  using seed_loop_inv [of d now defaultTemplates rnds] seed_loop_extends [of d now defaultTemplates rnds] assms
  by (auto simp: SeedTemplates_def typed_db_def)

context app_invariant
begin

lemma started: "start_polling (al_libs A) now cfg s = Some (p, s') \<Longrightarrow> I s \<Longrightarrow> I s'"
  using poll_all by (auto simp: start_polling_def StartPolling_def split: if_splits)

end

lemma main_start_sound:
  assumes "(v, k) \<in> set crash_points" and "si_open si = ol_ok"
    and "typed_db (upgraded (schema_at v k) d)" and "db_inv (upgraded (schema_at v k) d)"
    and "main_start A si w \<lparr>df_schema = schema_at v k, df_rows = d\<rparr> = (Inr (p, s), f')"
  shows "typed_db (st_db s) \<and> db_inv (st_db s) \<and> gauge_exact s"
proof -
  obtain d0 f1 d1 s1 cfg where op: "Open ol_ok \<lparr>df_schema = schema_at v k, df_rows = d\<rparr> = (Inr d0, f1)"
    and seed: "SeedTemplates d0 (si_now si) (si_rnds si) = (None, d1)"
    and poll: "start_polling (al_libs A) (si_now si) cfg s1 = Some (p, s)"
    and s1: "st_db s1 = d1" "conns s1 = Map.empty" "m_ssh_conns s1 = Some 0"
    using main_start_state [OF assms(5)] assms(2) by metis
  from seed_keeps_rows [OF seed] Open_crash [OF assms(1) op] assms(3,4) s1
  have "typed_db (st_db s1)" "db_inv (st_db s1)" "gauge_exact s1" by (simp_all add: gauge_exact_def)
  with types.db_app.started [OF poll] schema.db_app.started [OF poll] gauge.started [OF poll] show ?thesis by blast
qed

lemma upgraded_fresh: "typed_db (upgraded (schema_at 1 0) d) \<and> db_inv (upgraded (schema_at 1 0) d)"
proof -
  have "sch_tables (schema_at 1 0) = []" by code_simp
  then show ?thesis
    by (simp add: upgraded_def has_table_def typed_db_def db_inv_def users_inv_def servers_inv_def refs_inv_def)
qed

lemma main_end_closes:
  assumes "gauge_exact s" and "set order = dom (conns s)" and "distinct order" and "main_end L (Signalled b) order (p, s) = (n, p', s')"
  shows "n = 0 \<and> world s' = fold (\<lambda>i. ssh_close (lib_ssh L) (the (conns s i))) order (world s) \<and>
    conns s' = Map.empty \<and> (\<forall>g. m_ssh_conns s' = Some g \<longrightarrow> g = 0)"
proof -
  have "s' = Pool_Close L order s" "n = 0" using assms(4) by (auto simp: main_end_def ListenAndServe_def Let_def)
  with Pool_Close_empties [OF assms(1), of order L] Pool_Close_world [OF assms(3), of s L] assms(2) show ?thesis by simp
qed

lemma demo_first_start:
  "\<exists>p s f'. main_start demo_hot_A demo_start w \<lparr>df_schema = schema_at 1 0, df_rows = no_rows\<rparr> = (Inr (p, s), f')"
proof -
  let ?d = "upgraded (schema_at 1 0) no_rows"
  have pt: "(1, 0) \<in> set crash_points" "(1, 0) \<notin> set stuck_points" by (simp_all add: crash_points_eq stuck_points_def)
  have "point_ok latest (1, 0)" using crash_points_checked pt(1) by (simp add: list_all_iff)
  then have "migrate ol_ok \<lparr>df_schema = schema_at 1 0, df_rows = no_rows\<rparr> = (None, \<lparr>df_schema = latest, df_rows = ?d\<rparr>)"
    using pt(2) by (intro migrate_upgrades) (simp add: point_ok_def Let_def)
  then have op: "Open ol_ok \<lparr>df_schema = schema_at 1 0, df_rows = no_rows\<rparr> = (Inr ?d, \<lparr>df_schema = latest, df_rows = ?d\<rparr>)"
    by (simp add: Open_def ol_ok_def)
  have d: "session_templates ?d = []" "fault ?d = no_fault" "settings ?d = []"
    by (simp_all add: upgraded_sel no_rows_def no_fault_def fun_eq_iff)
  from demo_seed [OF d(1,2)] obtain d' where seed: "SeedTemplates ?d 9 [''a'', ''b'', ''c'', ''d'', ''e''] = (None, d')" ..
  have c0: "start_config demo_env d' = Load demo_env"
    using start_config_seed [OF seed, of demo_env] d by (simp add: start_config_def GetAllSettings_def no_fault_def)
  note c = c0 demo_env_cfg
  have "\<exists>s1. New (Load demo_env) 9 s = Inr s1" for s :: "demo_net term_state"
    by (simp add: New_def c NewRateLimiter_def)
  then obtain s1 where new: "New (Load demo_env) 9 (start_state d' (LocalKeyStore
      (if EncryptionSecret (Load demo_env) = [] then SessionSecret (Load demo_env) else EncryptionSecret (Load demo_env))) w) = Inr s1" ..
  have A: "al_env demo_hot_A = demo_env" by (simp add: demo_hot_A_def)
  have ks: "start_keystore vl (Load demo_env) = Some (LocalKeyStore
      (if EncryptionSecret (Load demo_env) = [] then SessionSecret (Load demo_env) else EncryptionSecret (Load demo_env)))" for vl :: "demo_net vault_lib"
    by (simp add: start_keystore_def c)
  have si: "si_open demo_start = ol_ok" "si_now demo_start = 9" "si_rnds demo_start = [''a'', ''b'', ''c'', ''d'', ''e'']"
    by (simp_all add: demo_start_def)
  have poll: "start_polling L t (Load demo_env) s = Some (None, s)" for L t and s :: "demo_net app"
    by (simp add: start_polling_def c)
  show ?thesis
    unfolding main_start_def A si op seed Let_def c(1) prod.case sum.case option.case ks new poll
    by (simp add: c)
qed

end
