(* ===== verification/Spec2Isabelle.thy ===== *)
theory Spec2Isabelle
  imports PoolRace Startup
begin

text \<open>
  Agentic Hive is a web server, in Go, through which users reach tmux sessions on SSH hosts: it keeps
  users, hosts, keys and settings in SQLite, lists and creates sessions over a pool of SSH
  connections, and bridges a browser's websocket to a terminal. This development models the server,
  that is everything under \<open>src/cmd/server\<close> and \<open>src/internal\<close> but the test helpers and the browser
  page, and proves what makes it correct.

  \<^bold>\<open>How the parts work together.\<close> A request passes the middleware (log and counters, security headers,
  CSRF), the multiplexer, and the check of the session token; the handler looks the server up for the
  calling user and calls the session manager, the key store or the terminal bridge. These use the SSH
  pool, which reads keys through the exchangeable key store and host keys and servers through the
  store. A poller lists the sessions of all servers in the background. The settings are read from the
  environment and the database at start and again when an administrator changes them.

  \<^bold>\<open>The theories\<close>, each with the file under \<open>src/internal\<close> it models:

  \<^item> \<open>Prelude\<close>, \<open>GoLib\<close>: result types, 64-bit wrap-around, rows found by a key; the parts of Go's library
    the program uses (\<open>strings\<close>, \<open>strconv\<close>, \<open>fmt\<close>'s \<open>%q\<close>, \<open>net.SplitHostPort\<close>, hex).
  \<^item> \<open>Http\<close>: requests, responses, cookies, the decoding of JSON into structs, \<open>server/clientip.go\<close>.
  \<^item> \<open>Store\<close> (\<open>store\<close>): the tables as lists of records, one definition per method; the constraints of the
    schema as an invariant; visibility of servers, deletion, OIDC accounts, pages of the audit log, whose
    bounds are compared as the texts SQLite has of them.
  \<^item> \<open>Migrations\<close> (\<open>store/store.go\<close>, \<open>store/migrations\<close>): schema and rows of a database file, the six
    scripts statement by statement, opening; what a start makes of a file left at any point.
  \<^item> \<open>Config\<close> (\<open>config\<close>): the tables of settings, \<open>Load\<close>, \<open>ApplyDBSettings\<close>, \<open>ResolveSettings\<close>.
  \<^item> \<open>RateLimit\<close> (\<open>auth/ratelimit.go\<close>): the limiter, and a step relation that interleaves admissions and
    outcomes of requests with the cleanup.
  \<^item> \<open>Auth\<close> (\<open>auth/auth.go\<close>, \<open>auth/local.go\<close>): tokens, CSRF, login, setup; \<open>Oidc\<close> (\<open>auth/oidc.go\<close>,
    \<open>auth/swappable.go\<close>): the callback and the mapping of roles.
  \<^item> \<open>KeyStore\<close> (\<open>keystore\<close>): the local, Vault and exchangeable stores; the locale \<open>keystore\<close> is the Go
    interface, and a map from servers to keys the specification all three refine.
  \<^item> \<open>SshPool\<close> (\<open>sshpool\<close>): connecting with pinned host keys, the cache, reconnection; the locales
    \<open>pool_invariant_at\<close> and \<open>pool_invariant\<close> carry an invariant through every operation. \<open>PoolRace\<close>: the
    same operations cut at the pool's mutex, the statements of the host key callback, the updates of
    the gauge and the calls of the SSH library, and interleaved: what is counted, which pins stay and
    which do not, and a client that nobody closes.
  \<^item> \<open>SessionNames\<close>, \<open>Sessions\<close> (\<open>session/manager.go\<close>): names and shell commands, with the splitting a
    POSIX shell does on them; listing, creating, killing, and the polling goroutine, which \<open>Stop\<close> only
    signals.
  \<^item> \<open>Terminal\<close> (\<open>terminal/bridge.go\<close>): the handler, and its goroutines as a machine. A goroutine's
    event is enabled only when what it waits for has happened: a read of the websocket fails after the
    browser left or the handler closed it, the command is over after it ended or its session was closed.
  \<^item> \<open>Backup\<close> (\<open>backup\<close>), \<open>Handlers\<close> (\<open>server/server.go\<close>, \<open>server/audit.go\<close>), \<open>Settings\<close>
    (\<open>server/settings.go\<close>), \<open>Routes\<close> (the middleware and the table of routes).
  \<^item> \<open>Invariants\<close>: the locales \<open>app_invariant\<close> and \<open>db_invariant\<close>, the few operations through which
    requests change the state; what each of them keeps, every sequence of requests and polls keeps.
  \<^item> \<open>Access\<close>: which requests are refused, and that a user's requests leave other users' servers alone;
    the locale \<open>server_handler\<close> is the contract of the handlers that work on one server.
  \<^item> \<open>Startup\<close> (\<open>cmd/server/main.go\<close>, \<open>server.New\<close>, \<open>metrics\<close>): the program from start to end, and a
    change of the settings compared with a restart.

  \<^bold>\<open>State and effects.\<close> A component's state is a record that extends the record of the component below
  it (\<open>core\<close>, \<open>ks_state\<close>, \<open>pool_state\<close>, \<open>mgr_state\<close>, \<open>term_state\<close>, \<open>app\<close>), so that an operation of the
  pool is applied to the state of the whole server as it is. Operations take the state and return it
  with their result; errors are values of sum and option types, one constructor for each error the
  code tells apart. What a request draws (random bytes, the clock, the order in which a map is ranged
  over, the multiplexer's choice) is an input. Every statement on the database may fail: the field
  \<open>fault\<close> of the database says which do, and no theorem assumes more of it than it states.

  \<^bold>\<open>Parameters.\<close> Code outside the repository is a record of functions: JWT (\<open>jwt_lib\<close>), bcrypt, OIDC
  discovery and verification (\<open>oidc_lib\<close>), Argon2 and AES-GCM (\<open>crypto_lib\<close>), the Vault client
  (\<open>vault_lib\<close>), SSH and the hosts (\<open>ssh_lib\<close>), the websocket upgrade and the terminal's SSH session
  (\<open>term_lib\<close>), files (\<open>file_lib\<close>), the texts of library errors and of times (\<open>texts\<close>). Laws about them
  are predicates named in the theorems that need them (\<open>jwt_genuine\<close>, \<open>jwt_roundtrip\<close>, \<open>bcrypt_ok\<close>, \<open>crypto_ok\<close>, \<open>kv_laws\<close>,
  \<open>upgrade_ok\<close>, \<open>client_law\<close>, \<open>vault_apart\<close>),
  each shown to hold for a concrete instance in a witness. Everything else holds for all of them.

  \<^bold>\<open>Loops and bounds.\<close> No definition has fuel. Loops are structural or have a measure
  (\<open>filterExpired_from\<close>). The bridge runs on a sequence of events and has no value while it is still
  running; \<open>terminal_returns\<close> says that it returns once its terminal has ended and every goroutine got
  two turns, and \<open>shutdown_terminates\<close> that it neither gets stuck nor goes on forever. Durations and
  numbers from requests wrap at 64 bits where the code computes with them. \<open>Retry-After\<close> is computed
  with \<open>float64\<close> in the code and with its rounding in the model; it is exact below \<open>2 ^ 23\<close> seconds,
  about 97 days, and \<open>retry_after_sound\<close> assumes a window shorter than that.

  \<^bold>\<open>Not modelled.\<close> The test helpers and the browser page; the HTTP, Prometheus and SQLite libraries
  beyond what their callers see; log lines; the multiplexer's matching of patterns, whose choice is an
  input; interleavings other than those of the pool, the limiter, the two steps of setup and the
  goroutines of one bridge: all other requests and polls run one after the other; the frames of
  a websocket message, so that unsynchronised writes of two goroutines are not told apart from
  synchronised ones.
\<close>

section \<open>The whole program\<close>

text \<open>C4. The program from start to end. Started on a database at any point of its migrations whose
  rows, brought up to date, are well-formed (an empty file is), and for every sequence of requests
  and polls after that: the rows keep their types and the constraints of the schema, and the gauge
  of SSH connections is exact. When a signal ends it, the exit status is 0 and the end closes every
  connection: the pool calls \<open>Close\<close> of the SSH library on each cached client, once, in the order it
  ranges over them and does nothing else to the outside; its cache is then empty and the gauge 0.
  (A poll still in progress then may connect again: \<open>stop_during_poll\<close>.)\<close>

theorem program_keeps_invariants:
  assumes start: "main_start A si w \<lparr>df_schema = schema_at v k, df_rows = d\<rparr> = (Inr (p, s), f')"
    and point: "(v, k) \<in> set crash_points" "si_open si = ol_ok"
    and rows: "(v, k) = (1, 0) \<or> typed_db (upgraded (schema_at v k) d) \<and> db_inv (upgraded (schema_at v k) d)"
  shows "let s' = fold (server_step A) evs s in typed_db (st_db s') \<and> db_inv (st_db s') \<and> gauge_exact s' \<and>
    (set order = dom (conns s') \<longrightarrow> distinct order \<longrightarrow>
      (case main_end (al_libs A) (Signalled drained) order (p, s') of (n, p', s'') \<Rightarrow>
         n = 0 \<and> world s'' = fold (\<lambda>i. ssh_close (lib_ssh (al_libs A)) (the (conns s' i))) order (world s') \<and>
         conns s'' = Map.empty \<and> (\<forall>g. m_ssh_conns s'' = Some g \<longrightarrow> g = 0)))"
proof -
  define s' where "s' = fold (server_step A) evs s"
  have "typed_db (upgraded (schema_at v k) d)" "db_inv (upgraded (schema_at v k) d)"
    using rows upgraded_fresh [of d] by auto
  from main_start_sound [OF point this start]
  have inv: "typed_db (st_db s')" "db_inv (st_db s')" "gauge_exact s'"
    unfolding s'_def using types.db_app.run schema.db_app.run gauge.run by blast+
  moreover obtain n p' s'' where e: "main_end (al_libs A) (Signalled drained) order (p, s') = (n, p', s'')"
    by (metis prod_cases3)
  ultimately show ?thesis using main_end_closes [OF inv(3) _ _ e] unfolding Let_def s'_def [symmetric] by simp
qed

theorem program_keeps_invariants_witness:
  "\<exists>p s f'. main_start demo_hot_A demo_start (world demo_app) \<lparr>df_schema = schema_at 1 0, df_rows = no_rows\<rparr> = (Inr (p, s), f') \<and>
     typed_db (st_db (server_step demo_hot_A (Poll 10) s)) \<and> db_inv (st_db (server_step demo_hot_A (Poll 10) s)) \<and>
     gauge_exact (server_step demo_hot_A (Poll 10) s)"
proof -
  from demo_first_start obtain p s f'
    where m: "main_start demo_hot_A demo_start (world demo_app) \<lparr>df_schema = schema_at 1 0, df_rows = no_rows\<rparr> = (Inr (p, s), f')" by blast
  have "(1, 0) \<in> set crash_points" "si_open demo_start = ol_ok" by (simp_all add: crash_points_eq demo_start_def)
  from program_keeps_invariants [OF m this, of "[Poll 10]" "[]" True] m show ?thesis by (auto simp: Let_def)
qed

end
